(* ===== verification/Prelude.thy ===== *)
theory Prelude
  imports Main "HOL-Library.Word" "HOL-Library.Char_ord" "HOL-Library.List_Lexorder"
begin

text \<open>
  Shared layer of the firedoze development.

  \<^item> Go errors as values (\<open>err\<close>), with \<open>errors.Is\<close> as \<open>errIs\<close>.
  \<^item> Programs as state transformers \<open>'s \<Rightarrow> (err + 'a) \<times> 's\<close>: \<open>bind\<close> is the Go idiom
    \<open>x, err := f(); if err != nil { return err }\<close>, \<open>attempt\<close> keeps the error as a value,
    \<open>deferring\<close> is \<open>defer\<close>.
  \<^item> The outside world as a list of outcomes that the calls of a program consume in
    order: a call into the database driver, the operating system, the kernel or the
    Firecracker API succeeds, fails with a message, or reports a cancelled context.
    A theorem that does not restrict the list holds for every pattern of failures.
  \<^item> The two proof tools of the development: weakest preconditions (\<open>wp\<close>, rewritten by the
    collection \<open>wp_rules\<close>) and preservation of a state predicate (\<open>keeps\<close>, introduced by
    the collection \<open>keeps_rules\<close>).
  Log output is not modelled anywhere.
\<close>

section \<open>Errors\<close>

datatype sentinel =
    ErrNotFound                 \<comment> \<open>store.ErrNotFound\<close>
  | StoreErrAlreadyExists       \<comment> \<open>store.ErrAlreadyExists\<close>
  | ErrAlreadyExists            \<comment> \<open>firecracker.ErrAlreadyExists\<close>
  | ErrAlreadyRunning | ErrNotRunning | ErrRunning | ErrNotStopped
  | ErrInvalidSnapshotBundle | ErrUnsupportedSnapshotExport
  | ErrUnavailable              \<comment> \<open>cgroup.ErrUnavailable\<close>
  | ErrNotExist                 \<comment> \<open>what os.IsNotExist recognises\<close>
  | ErrExist                    \<comment> \<open>what os.IsExist recognises\<close>
  | Canceled                    \<comment> \<open>context.Canceled or context.DeadlineExceeded\<close>

datatype err =
    Sentinel sentinel
  | Msg string                  \<comment> \<open>errors.New, or an error of a library\<close>
  | Wrap string err             \<comment> \<open>fmt.Errorf with one \<open>%w\<close> verb\<close>

fun errIs :: "err \<Rightarrow> sentinel \<Rightarrow> bool" where
  "errIs (Sentinel s) t = (s = t)"
| "errIs (Msg m) t = False"
| "errIs (Wrap m e) t = errIs e t"

text \<open>\<open>Error()\<close>; where the code puts the wrapped error first, the two parts are in the other order.\<close>

fun sentinelText :: "sentinel \<Rightarrow> string" where
  "sentinelText ErrNotFound = ''not found''"
| "sentinelText StoreErrAlreadyExists = ''already exists''"
| "sentinelText ErrAlreadyExists = ''already exists''"
| "sentinelText ErrAlreadyRunning = ''vm already running''"
| "sentinelText ErrNotRunning = ''vm is not running''"
| "sentinelText ErrRunning = ''vm is running''"
| "sentinelText ErrNotStopped = ''vm is not stopped''"
| "sentinelText ErrInvalidSnapshotBundle = ''invalid snapshot bundle''"
| "sentinelText ErrUnsupportedSnapshotExport = ''unsupported snapshot export''"
| "sentinelText ErrUnavailable = ''cgroup v2 unavailable''"
| "sentinelText ErrNotExist = ''no such file or directory''"
| "sentinelText ErrExist = ''file exists''"
| "sentinelText Canceled = ''context canceled''"

fun errText :: "err \<Rightarrow> string" where
  "errText (Sentinel x) = sentinelText x"
| "errText (Msg m) = m"
| "errText (Wrap m e) = m @ '': '' @ errText e"

text \<open>\<open>os.IsNotExist\<close> looks at the operating system's error only, not through \<open>%w\<close>.\<close>

definition isNotExist :: "err \<Rightarrow> bool" where
  "isNotExist e \<longleftrightarrow> e = Sentinel ErrNotExist"

lemma isNotExist_simps [simp]:
  "isNotExist (Sentinel x) \<longleftrightarrow> x = ErrNotExist" "\<not> isNotExist (Msg m)" "\<not> isNotExist (Wrap m e)"
  by (simp_all add: isNotExist_def)

section \<open>Programs\<close>

type_synonym ('s, 'a) prog = "'s \<Rightarrow> (err + 'a) \<times> 's"

definition ret :: "'a \<Rightarrow> ('s, 'a) prog" where
  "ret x = (\<lambda>s. (Inr x, s))"

definition throw :: "err \<Rightarrow> ('s, 'a) prog" where
  "throw e = (\<lambda>s. (Inl e, s))"

definition bind :: "('s, 'a) prog \<Rightarrow> ('a \<Rightarrow> ('s, 'b) prog) \<Rightarrow> ('s, 'b) prog" where
  "bind m f = (\<lambda>s. case m s of (Inl e, s') \<Rightarrow> (Inl e, s') | (Inr x, s') \<Rightarrow> f x s')"

definition attempt :: "('s, 'a) prog \<Rightarrow> ('s, err + 'a) prog" where
  "attempt m = (\<lambda>s. case m s of (r, s') \<Rightarrow> (Inr r, s'))"

definition gets :: "('s \<Rightarrow> 'a) \<Rightarrow> ('s, 'a) prog" where
  "gets f = (\<lambda>s. (Inr (f s), s))"

definition modify :: "('s \<Rightarrow> 's) \<Rightarrow> ('s, unit) prog" where
  "modify f = (\<lambda>s. (Inr (), f s))"

definition fromSum :: "err + 'a \<Rightarrow> ('s, 'a) prog" where
  "fromSum r = (\<lambda>s. (r, s))"

text \<open>\<open>if err != nil { return fmt.Errorf("m: %w", err) }\<close>\<close>

definition wrapping :: "string \<Rightarrow> ('s, 'a) prog \<Rightarrow> ('s, 'a) prog" where
  "wrapping m p = (\<lambda>s. case p s of (Inl e, s') \<Rightarrow> (Inl (Wrap m e), s') | (Inr x, s') \<Rightarrow> (Inr x, s'))"

text \<open>\<open>_ = f()\<close>: the error is dropped.\<close>

definition ignoring :: "('s, 'a) prog \<Rightarrow> ('s, unit) prog" where
  "ignoring m = (\<lambda>s. (Inr (), snd (m s)))"

text \<open>\<open>defer d()\<close> ahead of \<open>m\<close>: \<open>d\<close> runs whatever \<open>m\<close> returns, and its error is dropped.\<close>

definition deferring :: "('s, 'b) prog \<Rightarrow> ('s, 'a) prog \<Rightarrow> ('s, 'a) prog" where
  "deferring d m = (\<lambda>s. case m s of (r, s') \<Rightarrow> (r, snd (d s')))"

definition unless_prog :: "bool \<Rightarrow> err \<Rightarrow> ('s, unit) prog" where
  "unless_prog b e = (if b then ret () else throw e)"

fun forEach :: "'a list \<Rightarrow> ('a \<Rightarrow> ('s, unit) prog) \<Rightarrow> ('s, unit) prog" where
  "forEach [] f = ret ()"
| "forEach (x # xs) f = bind (f x) (\<lambda>_. forEach xs f)"

subsection \<open>Weakest preconditions\<close>

definition wp :: "('s, 'a) prog \<Rightarrow> ('a \<Rightarrow> 's \<Rightarrow> bool) \<Rightarrow> (err \<Rightarrow> 's \<Rightarrow> bool) \<Rightarrow> 's \<Rightarrow> bool" where
  "wp m Q E s = (case m s of (Inr x, s') \<Rightarrow> Q x s' | (Inl e, s') \<Rightarrow> E e s')"

named_theorems wp_rules

lemma wp_ret [wp_rules]: "wp (ret x) Q E s = Q x s"
  by (simp add: wp_def ret_def)

lemma wp_throw [wp_rules]: "wp (throw e) Q E s = E e s"
  by (simp add: wp_def throw_def)

lemma wp_bind [wp_rules]: "wp (bind m f) Q E s = wp m (\<lambda>x. wp (f x) Q E) E s"
  by (simp add: wp_def bind_def split: prod.split sum.split)

lemma wp_attempt [wp_rules]: "wp (attempt m) Q E s = wp m (\<lambda>x. Q (Inr x)) (\<lambda>e. Q (Inl e)) s"
  by (simp add: wp_def attempt_def split: prod.split sum.split)

lemma wp_gets [wp_rules]: "wp (gets f) Q E s = Q (f s) s"
  by (simp add: wp_def gets_def)

lemma wp_modify [wp_rules]: "wp (modify f) Q E s = Q () (f s)"
  by (simp add: wp_def modify_def)

lemma wp_fromSum [wp_rules]: "wp (fromSum r) Q E s = (case r of Inl e \<Rightarrow> E e s | Inr x \<Rightarrow> Q x s)"
  by (simp add: wp_def fromSum_def split: sum.split)

lemma wp_wrapping [wp_rules]: "wp (wrapping m p) Q E s = wp p Q (\<lambda>e. E (Wrap m e)) s"
  by (simp add: wp_def wrapping_def split: prod.split sum.split)

lemma wp_ignoring [wp_rules]: "wp (ignoring m) Q E s = wp m (\<lambda>_. Q ()) (\<lambda>_. Q ()) s"
  by (simp add: wp_def ignoring_def split: prod.split sum.split)

lemma wp_deferring [wp_rules]:
  "wp (deferring d m) Q E s =
     wp m (\<lambda>x. wp d (\<lambda>_. Q x) (\<lambda>_. Q x)) (\<lambda>e. wp d (\<lambda>_. E e) (\<lambda>_. E e)) s"
  by (simp add: wp_def deferring_def split: prod.split sum.split)

lemma wp_unless_prog [wp_rules]: "wp (unless_prog b e) Q E s = (if b then Q () s else E e s)"
  by (simp add: unless_prog_def wp_ret wp_throw)

lemma wp_if [wp_rules]: "wp (if b then m else n) Q E s = (if b then wp m Q E s else wp n Q E s)"
  by simp

lemma wp_mono:
  assumes "wp m Q E s"
    and "\<And>x s'. Q x s' \<Longrightarrow> Q' x s'" and "\<And>e s'. E e s' \<Longrightarrow> E' e s'"
  shows "wp m Q' E' s"
  using assms by (auto simp: wp_def split: prod.splits sum.splits)

text \<open>Sequencing through an assertion.\<close>

lemma wp_seq:
  assumes "wp m P E' s" and "\<And>x t. P x t \<Longrightarrow> wp (f x) Q E t" and "\<And>e t. E' e t \<Longrightarrow> E e t"
  shows "wp (bind m f) Q E s"
  unfolding wp_bind using assms by (rule wp_mono)

lemma wp_seq2:
  assumes "wp (bind m k) P E' s" and "\<And>x t. P x t \<Longrightarrow> wp (f x) Q E t" and "\<And>e t. E' e t \<Longrightarrow> E e t"
  shows "wp (bind m (\<lambda>y. bind (k y) f)) Q E s"
proof -
  have "bind m (\<lambda>y. bind (k y) f) = bind (bind m k) f"
    by (auto simp: bind_def fun_eq_iff split: prod.split sum.split)
  then show ?thesis using wp_seq [OF assms(1), of f Q E] assms(2,3) by simp
qed

text \<open>A step whose effect does not matter for what follows.\<close>

lemma wp_any: "(\<And>x t. wp (f x) Q (\<lambda>_ _. True) t) \<Longrightarrow> wp (bind m f) Q (\<lambda>_ _. True) s"
  unfolding wp_bind by (simp add: wp_def [of m] split: prod.splits sum.splits)

lemma wp_defer:
  assumes "wp m P P' s" and "\<And>x t. P x t \<Longrightarrow> wp d (\<lambda>_. Q x) (\<lambda>_. Q x) t" and "\<And>e t. P' e t \<Longrightarrow> wp d (\<lambda>_. E e) (\<lambda>_. E e) t"
  shows "wp (deferring d m) Q E s"
  unfolding wp_deferring using assms by (rule wp_mono)

lemma wp_conj: "wp m Q E s \<Longrightarrow> wp m Q' E' s \<Longrightarrow> wp m (\<lambda>x t. Q x t \<and> Q' x t) (\<lambda>e t. E e t \<and> E' e t) s"
  by (auto simp: wp_def split: prod.splits sum.splits)

lemma wp_result: "wp m (\<lambda>x s'. m s = (Inr x, s')) (\<lambda>e s'. m s = (Inl e, s')) s"
  by (simp add: wp_def split: prod.split sum.split)

lemma wpD_Inr: "wp m Q E s \<Longrightarrow> m s = (Inr x, s') \<Longrightarrow> Q x s'"
  by (simp add: wp_def)

lemma wpD_Inl: "wp m Q E s \<Longrightarrow> m s = (Inl e, s') \<Longrightarrow> E e s'"
  by (simp add: wp_def)

subsection \<open>Preservation of a state predicate\<close>

definition keeps :: "('s \<Rightarrow> bool) \<Rightarrow> ('s, 'a) prog \<Rightarrow> bool" where
  "keeps I m \<longleftrightarrow> (\<forall>s. I s \<longrightarrow> I (snd (m s)))"

named_theorems keeps_rules

lemma keepsD: "keeps I m \<Longrightarrow> I s \<Longrightarrow> I (snd (m s))"
  by (simp add: keeps_def)

lemma keepsI: "(\<And>s. I s \<Longrightarrow> I (snd (m s))) \<Longrightarrow> keeps I m"
  by (simp add: keeps_def)

lemma keeps_wp: "keeps I m \<Longrightarrow> I s \<Longrightarrow> wp m (\<lambda>_. I) (\<lambda>_. I) s"
  by (auto simp: keeps_def wp_def split: prod.split sum.split dest!: spec [of _ s])

lemma keeps_ret [keeps_rules]: "keeps I (ret x)"
  by (simp add: keeps_def ret_def)

lemma keeps_throw [keeps_rules]: "keeps I (throw e)"
  by (simp add: keeps_def throw_def)

lemma keeps_gets [keeps_rules]: "keeps I (gets f)"
  by (simp add: keeps_def gets_def)

lemma keeps_fromSum [keeps_rules]: "keeps I (fromSum r)"
  by (simp add: keeps_def fromSum_def)

lemma keeps_unless [keeps_rules]: "keeps I (unless_prog b e)"
  by (simp add: unless_prog_def keeps_ret keeps_throw)

lemma keeps_bind [keeps_rules]:
  assumes "keeps I m" and "\<And>x. keeps I (f x)"
  shows "keeps I (bind m f)"
proof (rule keepsI)
  fix s assume "I s"
  with assms(1) have "I (snd (m s))" by (rule keepsD)
  then show "I (snd (bind m f s))"
    using assms(2) by (auto simp: bind_def keeps_def split: prod.splits sum.splits)
qed

lemma keeps_attempt [keeps_rules]: "keeps I m \<Longrightarrow> keeps I (attempt m)"
  by (auto simp: keeps_def attempt_def split: prod.splits)

lemma keeps_wrapping [keeps_rules]: "keeps I p \<Longrightarrow> keeps I (wrapping m p)"
  by (auto simp: keeps_def wrapping_def split: prod.splits sum.splits)

lemma keeps_ignoring [keeps_rules]: "keeps I m \<Longrightarrow> keeps I (ignoring m)"
  by (auto simp: keeps_def ignoring_def)

lemma keeps_deferring [keeps_rules]: "keeps I d \<Longrightarrow> keeps I m \<Longrightarrow> keeps I (deferring d m)"
  by (auto simp: keeps_def deferring_def split: prod.splits)

lemma keeps_if [keeps_rules]: "keeps I m \<Longrightarrow> keeps I n \<Longrightarrow> keeps I (if b then m else n)"
  by simp

lemma keeps_option [keeps_rules]:
  "keeps I m \<Longrightarrow> (\<And>x. keeps I (f x)) \<Longrightarrow> keeps I (case z of None \<Rightarrow> m | Some x \<Rightarrow> f x)"
  by (cases z) auto

lemma keeps_sum [keeps_rules]:
  "(\<And>x. keeps I (f x)) \<Longrightarrow> (\<And>x. keeps I (g x)) \<Longrightarrow> keeps I (case z of Inl x \<Rightarrow> f x | Inr x \<Rightarrow> g x)"
  by (cases z) auto

lemma keeps_prod [keeps_rules]: "(\<And>a b. keeps I (f a b)) \<Longrightarrow> keeps I (case z of (a, b) \<Rightarrow> f a b)"
  by (cases z) auto

lemma keeps_forEach [keeps_rules]: "(\<And>x. keeps I (f x)) \<Longrightarrow> keeps I (forEach xs f)"
  by (induction xs) (auto intro!: keeps_rules)

subsection \<open>Programs that cannot fail\<close>

text \<open>A program that always returns a result, whatever fails on the way.\<close>

definition answers :: "('s, 'a) prog \<Rightarrow> bool" where
  "answers m \<longleftrightarrow> (\<forall>s. wp m (\<lambda>_ _. True) (\<lambda>_ _. False) s)"

named_theorems answers_rules

lemma answersD: "answers m \<Longrightarrow> wp m (\<lambda>_ _. True) (\<lambda>_ _. False) s"
  by (simp add: answers_def)

lemma answers_steps [answers_rules]: "answers (ret x)" "answers (gets f)" "answers (attempt m)" "answers (ignoring n)"
  by (auto simp: answers_def wp_def ret_def gets_def attempt_def ignoring_def split: prod.split)

lemma answers_bind [answers_rules]: "answers m \<Longrightarrow> (\<And>x. answers (f x)) \<Longrightarrow> answers (bind m f)"
  unfolding answers_def by (blast intro: wp_seq)

lemma answers_cases [answers_rules]:
  "answers m \<Longrightarrow> answers n \<Longrightarrow> answers (if b then m else n)"
  "answers m \<Longrightarrow> (\<And>x. answers (f x)) \<Longrightarrow> answers (case z of None \<Rightarrow> m | Some x \<Rightarrow> f x)"
  "(\<And>x. answers (g x)) \<Longrightarrow> (\<And>x. answers (k x)) \<Longrightarrow> answers (case y of Inl x \<Rightarrow> g x | Inr x \<Rightarrow> k x)"
  "(\<And>a b. answers (j a b)) \<Longrightarrow> answers (case p of (a, b) \<Rightarrow> j a b)"
  by (auto split: option.split sum.split prod.split)

lemma answers_wrapping [answers_rules]: "answers m \<Longrightarrow> answers (wrapping w m)"
  by (simp add: answers_def wp_wrapping)

lemma answers_fromSum [answers_rules]: "answers (fromSum (Inr x))"
  by (simp add: answers_def wp_def fromSum_def)

lemma answers_forEach [answers_rules]: "(\<And>x. answers (f x)) \<Longrightarrow> answers (forEach xs f)"
  by (induction xs) (auto intro: answers_steps answers_bind)

lemma answersE:
  assumes "answers m"
  obtains x t where "m s = (Inr x, t)"
  using answersD [OF assms, of s] by (auto simp: wp_def split: prod.splits sum.splits)

section \<open>The outside world\<close>

datatype outcome =
    Success
  | Failure string nat          \<comment> \<open>an error and, for a copy, the bytes written before it\<close>
  | Cancelled                   \<comment> \<open>the context of the operation is done\<close>

record env =
  outcomes :: "outcome list"    \<comment> \<open>what the next calls report; calls past the end succeed\<close>
  sqlnow :: string              \<comment> \<open>SQLite's \<open>strftime('%Y-%m-%dT%H:%M:%fZ', 'now')\<close>\<close>
  clock :: int                  \<comment> \<open>\<open>time.Now()\<close>, nanoseconds since the Unix epoch\<close>
  seed :: nat                   \<comment> \<open>where the search for an unused temporary name starts\<close>

definition next_outcome :: "'z env_scheme \<Rightarrow> outcome \<times> 'z env_scheme" where
  "next_outcome s = (case outcomes s of [] \<Rightarrow> (Success, s) | r # rs \<Rightarrow> (r, s\<lparr>outcomes := rs\<rparr>))"

text \<open>One call that may fail.\<close>

definition call :: "('z env_scheme, unit) prog" where
  "call s = (case next_outcome s of
      (Success, s') \<Rightarrow> (Inr (), s')
    | (Failure m k, s') \<Rightarrow> (Inl (Msg m), s')
    | (Cancelled, s') \<Rightarrow> (Inl (Sentinel Canceled), s'))"

text \<open>\<open>if err := ctx.Err(); err != nil { return err }\<close>\<close>

definition ctxCheck :: "('z env_scheme, unit) prog" where
  "ctxCheck s = (case next_outcome s of
      (Cancelled, s') \<Rightarrow> (Inl (Sentinel Canceled), s')
    | (r, s') \<Rightarrow> (Inr (), s'))"

abbreviation fault_free :: "'z env_scheme \<Rightarrow> bool" where
  "fault_free s \<equiv> outcomes s = []"

lemma next_outcome_fault_free [simp]: "fault_free s \<Longrightarrow> next_outcome s = (Success, s)"
  by (simp add: next_outcome_def)

lemma call_fault_free [simp]: "fault_free s \<Longrightarrow> call s = (Inr (), s)"
  by (simp add: call_def)

lemma ctxCheck_fault_free [simp]: "fault_free s \<Longrightarrow> ctxCheck s = (Inr (), s)"
  by (simp add: ctxCheck_def)

text \<open>Programs run in a state in which every further call succeeds are evaluated by this collection.\<close>

named_theorems ff_rules

lemma wp_call_ff [ff_rules]: "fault_free s \<Longrightarrow> wp call Q E s = Q () s"
  by (simp add: wp_def)

lemma wp_ctxCheck_ff [ff_rules]: "fault_free s \<Longrightarrow> wp ctxCheck Q E s = Q () s"
  by (simp add: wp_def)

lemma wp_eqI: "wp m (\<lambda>x t. (Inr x, t) = r) (\<lambda>e t. (Inl e, t) = r) s \<Longrightarrow> m s = r"
  by (auto simp: wp_def split: prod.splits sum.splits)

text \<open>A predicate that does not look at the outcomes is kept by every call.\<close>

definition outcome_blind :: "('z env_scheme \<Rightarrow> bool) \<Rightarrow> bool" where
  "outcome_blind I \<longleftrightarrow> (\<forall>s rs. I (s\<lparr>outcomes := rs\<rparr>) = I s)"

lemma next_outcome_blind: "outcome_blind I \<Longrightarrow> next_outcome s = (r, s') \<Longrightarrow> I s' = I s"
  by (auto simp: next_outcome_def outcome_blind_def split: list.splits)

lemma keeps_call [keeps_rules]: "outcome_blind I \<Longrightarrow> keeps I call"
  by (auto simp: keeps_def call_def next_outcome_blind split: prod.splits outcome.splits)

lemma keeps_ctxCheck [keeps_rules]: "outcome_blind I \<Longrightarrow> keeps I ctxCheck"
  by (auto simp: keeps_def ctxCheck_def next_outcome_blind split: prod.splits outcome.splits)

lemma wp_callI:
  assumes "\<And>rs. Q () (s\<lparr>outcomes := rs\<rparr>)" and "\<And>e rs. E e (s\<lparr>outcomes := rs\<rparr>)"
    and "Q () s"
  shows "wp call Q E s"
  using assms by (auto simp: wp_def call_def next_outcome_def split: list.splits outcome.splits prod.splits)

end
