(* ===== verification/GoLib.thy ===== *)
theory GoLib
  imports Prelude
begin

text \<open>
  The functions of Go's standard packages \<open>strings\<close>, \<open>strconv\<close> and \<open>path\<close> (on Linux also
  \<open>path/filepath\<close>) that firedoze calls, on byte strings, and the laws the components use:
  splitting against joining, decimal printing against parsing, and how \<open>filepath.Join\<close>
  lays out paths below a directory.
\<close>

section \<open>strings\<close>

definition hasPrefix :: "string \<Rightarrow> string \<Rightarrow> bool" where
  "hasPrefix s p \<longleftrightarrow> take (length p) s = p"

definition hasSuffix :: "string \<Rightarrow> string \<Rightarrow> bool" where
  "hasSuffix s p \<longleftrightarrow> length p \<le> length s \<and> drop (length s - length p) s = p"

definition trimPrefix :: "string \<Rightarrow> string \<Rightarrow> string" where
  "trimPrefix s p = (if hasPrefix s p then drop (length p) s else s)"

definition trimSuffix :: "string \<Rightarrow> string \<Rightarrow> string" where
  "trimSuffix s p = (if hasSuffix s p then take (length s - length p) s else s)"

fun contains :: "string \<Rightarrow> string \<Rightarrow> bool" where
  "contains [] p = (p = [])"
| "contains (c # s) p = (hasPrefix (c # s) p \<or> contains s p)"

definition containsAny :: "string \<Rightarrow> string \<Rightarrow> bool" where
  "containsAny s cs \<longleftrightarrow> list_ex (\<lambda>c. c \<in> set cs) s"

definition asciiLower :: "char \<Rightarrow> char" where
  "asciiLower c = (if 65 \<le> (of_char c :: nat) \<and> (of_char c :: nat) \<le> 90 then char_of ((of_char c :: nat) + 32) else c)"

definition toLower :: "string \<Rightarrow> string" where
  "toLower s = map asciiLower s"

definition isSpace :: "char \<Rightarrow> bool" where
  "isSpace c \<longleftrightarrow> (of_char c :: nat) \<in> {9, 10, 11, 12, 13, 32}"

definition trimSpace :: "string \<Rightarrow> string" where
  "trimSpace s = rev (dropWhile isSpace (rev (dropWhile isSpace s)))"

fun splitBy :: "(char \<Rightarrow> bool) \<Rightarrow> string \<Rightarrow> string list" where
  "splitBy P [] = [[]]"
| "splitBy P (c # s) =
     (if P c then [] # splitBy P s
      else (case splitBy P s of [] \<Rightarrow> [[c]] | w # ws \<Rightarrow> (c # w) # ws))"

text \<open>\<open>strings.Split(s, sep)\<close> for a separator of one byte, and \<open>strings.Fields\<close>.\<close>

definition split :: "string \<Rightarrow> char \<Rightarrow> string list" where
  "split s c = splitBy (\<lambda>x. x = c) s"

definition goFields :: "string \<Rightarrow> string list" where
  "goFields s = filter (\<lambda>w. w \<noteq> []) (splitBy isSpace s)"

fun join :: "string list \<Rightarrow> string \<Rightarrow> string" where
  "join [] sep = []"
| "join [w] sep = w"
| "join (w # ws) sep = w @ sep @ join ws sep"

text \<open>\<open>strings.Cut(s, sep)\<close> for a separator of one byte: before, after, found.\<close>

definition cut :: "string \<Rightarrow> char \<Rightarrow> string \<times> string \<times> bool" where
  "cut s c = (let b = takeWhile (\<lambda>x. x \<noteq> c) s in
     if b = s then (s, [], False) else (b, drop (length b + 1) s, True))"

subsection \<open>Laws\<close>

lemma hasPrefix_append [simp]: "hasPrefix (p @ s) p"
  by (simp add: hasPrefix_def)

lemma hasPrefix_iff: "hasPrefix s p \<longleftrightarrow> (\<exists>t. s = p @ t)"
  by (metis append_eq_conv_conj hasPrefix_def)

lemma hasSuffix_append [simp]: "hasSuffix (s @ p) p"
  by (simp add: hasSuffix_def)

lemma hasSuffix_iff: "hasSuffix s p \<longleftrightarrow> (\<exists>t. s = t @ p)"
  by (metis append_take_drop_id hasSuffix_append hasSuffix_def)

lemma trimSuffix_append [simp]: "trimSuffix (s @ p) p = s"
  by (simp add: trimSuffix_def)

lemma trimPrefix_append [simp]: "trimPrefix (p @ s) p = s"
  by (simp add: trimPrefix_def)

lemma trimSuffix_idle: "\<not> hasSuffix s p \<Longrightarrow> trimSuffix s p = s"
  by (simp add: trimSuffix_def)

lemma asciiLower_idem [simp]: "asciiLower (asciiLower c) = asciiLower c"
proof (cases "65 \<le> (of_char c :: nat) \<and> (of_char c :: nat) \<le> 90")
  case True
  then have "(of_char (char_of ((of_char c :: nat) + 32)) :: nat) = of_char c + 32"
    by (simp add: of_char_of)
  with True show ?thesis by (simp add: asciiLower_def)
qed (auto simp: asciiLower_def)

lemma toLower_idem [simp]: "toLower (toLower s) = toLower s"
  by (simp add: toLower_def)

lemma splitBy_nonempty [simp]: "splitBy P s \<noteq> []"
  by (induction s) (auto split: list.splits)

lemma splitBy_plain: "(\<forall>c \<in> set s. \<not> P c) \<Longrightarrow> splitBy P s = [s]"
  by (induction s) auto

lemma splitBy_append_sep:
  "P c \<Longrightarrow> splitBy P (s @ c # t) = splitBy P s @ splitBy P t"
proof (induction s)
  case (Cons x s)
  then show ?case
    by (cases "splitBy P s") (auto simp: splitBy_nonempty)
qed simp

lemma splitBy_parts: "w \<in> set (splitBy P s) \<Longrightarrow> c \<in> set w \<Longrightarrow> \<not> P c \<and> c \<in> set s"
proof (induction s arbitrary: w)
  case (Cons x s)
  obtain w' ws where s: "splitBy P s = w' # ws"
    using splitBy_nonempty [of P s] by (cases "splitBy P s") auto
  have IH: "\<not> P c \<and> c \<in> set s" if "v = w' \<or> v \<in> set ws" "c \<in> set v" for v
    using that s by (intro Cons.IH) auto
  from Cons.prems s IH [of w] IH [of w'] show ?case
    by (auto split: if_splits)
qed simp

lemma split_nonempty [simp]: "split s c \<noteq> []"
  by (simp add: split_def)

lemma split_plain: "c \<notin> set s \<Longrightarrow> split s c = [s]"
  unfolding split_def by (rule splitBy_plain) auto

lemma split_append_sep: "split (s @ c # t) c = split s c @ split t c"
  by (simp add: split_def splitBy_append_sep)

lemma split_parts: "w \<in> set (split s c) \<Longrightarrow> c \<notin> set w"
  unfolding split_def using splitBy_parts by blast

lemma join_Cons: "ws \<noteq> [] \<Longrightarrow> join (w # ws) sep = w @ sep @ join ws sep"
  by (cases ws) auto

lemma join_split: "join (split s c) [c] = s"
proof (induction s)
  case (Cons x s)
  obtain w ws where s: "split s c = w # ws"
    using split_nonempty [of s c] by (cases "split s c") auto
  with Cons show ?case by (cases ws) (auto simp: split_def)
qed (simp add: split_def)

lemma split_join:
  "ws \<noteq> [] \<Longrightarrow> (\<forall>w \<in> set ws. c \<notin> set w) \<Longrightarrow> split (join ws [c]) c = ws"
proof (induction ws rule: list_nonempty_induct)
  case (single w)
  then show ?case by (simp add: split_plain)
next
  case (cons w ws)
  then show ?case by (simp add: join_Cons split_append_sep split_plain)
qed

lemma cut_append_sep: "c \<notin> set s \<Longrightarrow> cut (s @ c # t) c = (s, t, True)"
proof -
  assume "c \<notin> set s"
  then have "takeWhile (\<lambda>x. x \<noteq> c) (s @ c # t) = s"
    by (induction s) auto
  then show ?thesis by (simp add: cut_def Let_def)
qed

section \<open>strconv\<close>

definition digitChar :: "nat \<Rightarrow> char" where
  "digitChar d = char_of (48 + d)"

definition digitVal :: "char \<Rightarrow> nat option" where
  "digitVal c = (let n = (of_char c :: nat) in if 48 \<le> n \<and> n \<le> 57 then Some (n - 48) else None)"

fun natDec :: "nat \<Rightarrow> string" where
  "natDec n = (if n < 10 then [digitChar n] else natDec (n div 10) @ [digitChar (n mod 10)])"

declare natDec.simps [simp del]

fun decNat :: "nat \<Rightarrow> string \<Rightarrow> nat option" where
  "decNat n [] = Some n"
| "decNat n (c # s) = (case digitVal c of None \<Rightarrow> None | Some d \<Rightarrow> decNat (10 * n + d) s)"

text \<open>\<open>strconv.Itoa\<close> and \<open>strconv.FormatInt(i, 10)\<close>\<close>

definition itoa :: "int \<Rightarrow> string" where
  "itoa i = (if i < 0 then CHR ''-'' # natDec (nat (- i)) else natDec (nat i))"

text \<open>\<open>strconv.ParseUint(s, 10, 64)\<close>: None is a syntax or range error.\<close>

definition parseUint :: "string \<Rightarrow> nat option" where
  "parseUint s = (if s = [] then None else
     (case decNat 0 s of None \<Rightarrow> None | Some n \<Rightarrow> if n < 2 ^ 64 then Some n else None))"

text \<open>\<open>strconv.ParseInt(s, 10, 64)\<close>; on a 64-bit platform also \<open>strconv.Atoi\<close>.\<close>

definition parseInt :: "string \<Rightarrow> int option" where
  "parseInt s = (case s of
      [] \<Rightarrow> None
    | c # t \<Rightarrow>
        let neg = (c = CHR ''-''); body = (if c = CHR ''-'' \<or> c = CHR ''+'' then t else s) in
        if body = [] then None else
        (case decNat 0 body of
           None \<Rightarrow> None
         | Some n \<Rightarrow> if neg then (if n \<le> 2 ^ 63 then Some (- int n) else None)
                    else (if n < 2 ^ 63 then Some (int n) else None)))"

text \<open>The value an \<open>int64\<close> holds after an operation with the mathematical result \<open>x\<close>.\<close>

definition wrap64 :: "int \<Rightarrow> int" where
  "wrap64 x = (x + 2 ^ 63) mod 2 ^ 64 - 2 ^ 63"

lemma wrap64_id: "- (2 ^ 63) \<le> x \<Longrightarrow> x < 2 ^ 63 \<Longrightarrow> wrap64 x = x"
  by (simp add: wrap64_def)

lemma wrap64_0 [simp]: "wrap64 0 = 0"
  by (simp add: wrap64_def)

lemma wrap64_range: "- (2 ^ 63) \<le> wrap64 x \<and> wrap64 x < 2 ^ 63"
proof -
  have "0 \<le> (x + 2 ^ 63) mod 2 ^ 64" "(x + 2 ^ 63) mod 2 ^ 64 < 2 ^ 64" by simp_all
  then show ?thesis by (simp add: wrap64_def)
qed

subsection \<open>Printing against parsing\<close>

lemma of_char_digitChar: "d < 10 \<Longrightarrow> (of_char (digitChar d) :: nat) = 48 + d"
  by (simp add: digitChar_def of_char_of)

lemma digitVal_digitChar [simp]: "d < 10 \<Longrightarrow> digitVal (digitChar d) = Some d"
  by (simp add: digitVal_def of_char_digitChar)

lemma decNat_append: "decNat n (s @ t) = (case decNat n s of None \<Rightarrow> None | Some m \<Rightarrow> decNat m t)"
  by (induction s arbitrary: n) (auto split: option.splits)

lemma natDec_nonempty [simp]: "natDec n \<noteq> []"
  by (subst natDec.simps) simp

lemma decNat_natDec [simp]: "decNat 0 (natDec n) = Some n"
proof (induction n rule: natDec.induct)
  case (1 n)
  show ?case
  proof (cases "n < 10")
    case True
    then show ?thesis by (simp add: natDec.simps [of n])
  next
    case False
    with "1.IH" have "decNat 0 (natDec (n div 10)) = Some (n div 10)" by simp
    with False show ?thesis
      by (simp add: natDec.simps [of n] decNat_append mult_div_mod_eq)
  qed
qed

lemma natDec_digits: "c \<in> set (natDec n) \<Longrightarrow> 48 \<le> (of_char c :: nat) \<and> (of_char c :: nat) \<le> 57"
proof (induction n rule: natDec.induct)
  case (1 n)
  then show ?case
    by (cases "n < 10") (auto simp: natDec.simps [of n] of_char_digitChar)
qed

lemma natDec_hd_sign: "hd (natDec n) \<noteq> CHR ''-'' \<and> hd (natDec n) \<noteq> CHR ''+''"
  using natDec_digits [of "hd (natDec n)" n] by (auto simp: hd_in_set)

lemma parseUint_natDec: "n < 2 ^ 64 \<Longrightarrow> parseUint (natDec n) = Some n"
  by (simp add: parseUint_def)

lemma parseInt_itoa:
  assumes "- (2 ^ 63) \<le> i" and "i < 2 ^ 63"
  shows "parseInt (itoa i) = Some i"
proof (cases "i < 0")
  case True
  with assms show ?thesis by (simp add: itoa_def parseInt_def Let_def)
next
  case False
  obtain c t where ct: "natDec (nat i) = c # t"
    using natDec_nonempty by (cases "natDec (nat i)") auto
  with natDec_hd_sign [of "nat i"] have "c \<noteq> CHR ''-''" "c \<noteq> CHR ''+''" by auto
  moreover have "decNat 0 (c # t) = Some (nat i)" by (simp flip: ct)
  ultimately show ?thesis using False assms ct
    by (auto simp: itoa_def parseInt_def Let_def nat_less_iff simp del: decNat.simps)
qed

section \<open>path\<close>

definition isAbs :: "string \<Rightarrow> bool" where
  "isAbs p \<longleftrightarrow> hasPrefix p ''/''"

text \<open>\<open>path.Clean\<close> keeps the elements read so far on a stack.\<close>

definition cleanStep :: "bool \<Rightarrow> string list \<Rightarrow> string \<Rightarrow> string list" where
  "cleanStep rooted st c =
     (if c = [] \<or> c = ''.'' then st
      else if c = ''..'' then
        (case st of [] \<Rightarrow> if rooted then [] else [''..'']
         | t # ts \<Rightarrow> if t = ''..'' then ''..'' # st else ts)
      else c # st)"

definition cleanStack :: "string \<Rightarrow> string list" where
  "cleanStack p = foldl (cleanStep (isAbs p)) [] (split p (CHR ''/''))"

definition renderPath :: "bool \<Rightarrow> string list \<Rightarrow> string" where
  "renderPath rooted cs =
     (if rooted then ''/'' @ join cs ''/'' else if cs = [] then ''.'' else join cs ''/'')"

definition pathClean :: "string \<Rightarrow> string" where
  "pathClean p = renderPath (isAbs p) (rev (cleanStack p))"

text \<open>\<open>filepath.Join\<close>: leading empty elements are ignored; the rest is joined and cleaned.\<close>

definition pathJoin :: "string list \<Rightarrow> string" where
  "pathJoin es = (case dropWhile (\<lambda>e. e = []) es of [] \<Rightarrow> [] | fs \<Rightarrow> pathClean (join fs ''/''))"

definition pathDir :: "string \<Rightarrow> string" where
  "pathDir p = pathClean (rev (dropWhile (\<lambda>c. c \<noteq> CHR ''/'') (rev p)))"

definition pathBase :: "string \<Rightarrow> string" where
  "pathBase p = (if p = [] then ''.'' else
     (let q = rev (dropWhile (\<lambda>c. c = CHR ''/'') (rev p)) in
      if q = [] then ''/'' else rev (takeWhile (\<lambda>c. c \<noteq> CHR ''/'') (rev q))))"

subsection \<open>Paths below a directory\<close>

text \<open>A plain element is a file name: no slash, not empty, not one of the dot names.\<close>

definition plainElem :: "string \<Rightarrow> bool" where
  "plainElem c \<longleftrightarrow> c \<noteq> [] \<and> CHR ''/'' \<notin> set c \<and> c \<noteq> ''.'' \<and> c \<noteq> ''..''"

lemma cleanStep_plain: "plainElem c \<Longrightarrow> cleanStep r st c = c # st"
  by (simp add: cleanStep_def plainElem_def)

lemma isAbs_append: "p \<noteq> [] \<Longrightarrow> isAbs (p @ q) = isAbs p"
  by (cases p) (auto simp: isAbs_def hasPrefix_def)

lemma foldl_plain: "(\<forall>c \<in> set cs. plainElem c) \<Longrightarrow> foldl (cleanStep r) st cs = rev cs @ st"
  by (induction cs arbitrary: st) (auto simp: cleanStep_plain)

lemma plainElem_no_slash: "plainElem c \<Longrightarrow> CHR ''/'' \<notin> set c"
  by (simp add: plainElem_def)

lemma pathJoin_plain:
  assumes "d \<noteq> []" and "cs \<noteq> []" and "\<forall>c \<in> set cs. plainElem c"
  shows "pathJoin (d # cs) = renderPath (isAbs d) (rev (cleanStack d) @ cs)"
proof -
  have j: "join (d # cs) ''/'' = d @ ''/'' @ join cs ''/''"
    using assms(2) by (rule join_Cons)
  have "split (d @ ''/'' @ join cs ''/'') (CHR ''/'') = split d (CHR ''/'') @ cs"
    using assms by (simp add: split_append_sep split_join plainElem_no_slash)
  moreover have "isAbs (d @ ''/'' @ join cs ''/'') = isAbs d"
    using assms(1) by (rule isAbs_append)
  ultimately have "cleanStack (join (d # cs) ''/'') = rev cs @ cleanStack d"
    using assms(3) by (simp add: cleanStack_def j foldl_plain)
  then show ?thesis
    using assms(1) \<open>isAbs _ = isAbs d\<close> by (simp add: pathJoin_def pathClean_def j)
qed

lemma cleanStep_no_slash:
  "CHR ''/'' \<notin> set c \<Longrightarrow> \<forall>x \<in> set st. CHR ''/'' \<notin> set x \<and> x \<noteq> [] \<Longrightarrow>
   \<forall>x \<in> set (cleanStep r st c). CHR ''/'' \<notin> set x \<and> x \<noteq> []"
  by (cases st) (simp_all add: cleanStep_def)

lemma foldl_cleanStep_no_slash:
  "\<forall>c \<in> set cs. CHR ''/'' \<notin> set c \<Longrightarrow> \<forall>x \<in> set st. CHR ''/'' \<notin> set x \<and> x \<noteq> [] \<Longrightarrow>
   \<forall>x \<in> set (foldl (cleanStep r) st cs). CHR ''/'' \<notin> set x \<and> x \<noteq> []"
proof (induction cs arbitrary: st)
  case (Cons c cs)
  from Cons.prems have "\<forall>x \<in> set (cleanStep r st c). CHR ''/'' \<notin> set x \<and> x \<noteq> []"
    by (intro cleanStep_no_slash) auto
  moreover have "\<forall>d \<in> set cs. CHR ''/'' \<notin> set d" using Cons.prems(1) by simp
  ultimately have "\<forall>x \<in> set (foldl (cleanStep r) (cleanStep r st c) cs). CHR ''/'' \<notin> set x \<and> x \<noteq> []"
    using Cons.IH by blast
  then show ?case unfolding foldl_Cons .
qed simp

lemma cleanStack_no_slash: "x \<in> set (cleanStack p) \<Longrightarrow> CHR ''/'' \<notin> set x \<and> x \<noteq> []"
  unfolding cleanStack_def
  using foldl_cleanStep_no_slash [of "split p (CHR ''/'')" "[]" "isAbs p"] split_parts [of _ p "CHR ''/''"]
  by auto

lemma join_slash_inj:
  assumes "\<forall>c \<in> set cs. CHR ''/'' \<notin> set c \<and> c \<noteq> []" and "\<forall>c \<in> set ds. CHR ''/'' \<notin> set c \<and> c \<noteq> []"
    and "join cs ''/'' = join ds ''/''"
  shows "cs = ds"
proof (cases "cs = [] \<or> ds = []")
  case True
  have ne: "join es ''/'' \<noteq> []" if "es \<noteq> []" "\<forall>c \<in> set es. c \<noteq> []" for es :: "string list"
  proof -
    from that(1) obtain w ws where "es = w # ws" by (cases es) auto
    with that(2) show ?thesis by (cases ws) auto
  qed
  from assms ne have "cs = [] \<longleftrightarrow> ds = []" by (metis join.simps(1))
  with True show ?thesis by blast
next
  case False
  then have "split (join cs ''/'') (CHR ''/'') = cs" "split (join ds ''/'') (CHR ''/'') = ds"
    using assms(1,2) by (auto intro!: split_join)
  with assms(3) show ?thesis by metis
qed

lemma renderPath_inj:
  assumes "\<forall>c \<in> set cs. CHR ''/'' \<notin> set c \<and> c \<noteq> []" and "\<forall>c \<in> set ds. CHR ''/'' \<notin> set c \<and> c \<noteq> []"
    and "cs \<noteq> []" and "ds \<noteq> []"
  shows "renderPath r cs = renderPath q ds \<longleftrightarrow> r = q \<and> cs = ds"
proof
  assume eq: "renderPath r cs = renderPath q ds"
  have nohd: "\<not> isAbs (join es ''/'')" if "es \<noteq> []" "\<forall>c \<in> set es. CHR ''/'' \<notin> set c \<and> c \<noteq> []" for es
  proof -
    from that(1) obtain w ws where es: "es = w # ws" by (cases es) auto
    with that(2) obtain x xs where w: "w = x # xs" "x \<noteq> CHR ''/''" by (cases w) auto
    with es show ?thesis by (cases ws) (auto simp: isAbs_def hasPrefix_def)
  qed
  have "isAbs (renderPath r cs) = r" for r
    using nohd [OF assms(3,1)] assms(3) by (auto simp: renderPath_def isAbs_def hasPrefix_def)
  moreover have "isAbs (renderPath q ds) = q" for q
    using nohd [OF assms(4,2)] assms(4) by (auto simp: renderPath_def isAbs_def hasPrefix_def)
  ultimately have rq: "r = q" using eq by metis
  with eq assms(3,4) have "join cs ''/'' = join ds ''/''"
    by (simp add: renderPath_def split: if_splits)
  with assms(1,2) have "cs = ds" by (rule join_slash_inj)
  with rq show "r = q \<and> cs = ds" by blast
qed simp

section \<open>Host and port\<close>

text \<open>\<open>net.SplitHostPort\<close>, None for an error, and \<open>net.JoinHostPort\<close>.\<close>

definition SplitHostPort :: "string \<Rightarrow> (string \<times> string) option" where
  "SplitHostPort s =
     (if CHR '':'' \<notin> set s then None else
      let port = rev (takeWhile (\<lambda>c. c \<noteq> CHR '':'') (rev s));
          front = take (length s - length port - 1) s in
      if hasPrefix s ''['' then
        (let host = takeWhile (\<lambda>c. c \<noteq> CHR '']'') (drop 1 s) in
         if front \<noteq> ''['' @ host @ '']'' then None
         else if CHR ''['' \<in> set host \<or> CHR ''['' \<in> set port \<or> CHR '']'' \<in> set port then None
         else Some (host, port))
      else if CHR '':'' \<in> set front \<or> CHR ''['' \<in> set s \<or> CHR '']'' \<in> set s then None
      else Some (front, port))"

definition JoinHostPort :: "string \<Rightarrow> string \<Rightarrow> string" where
  "JoinHostPort host port =
     (if CHR '':'' \<in> set host then ''['' @ host @ '']:'' @ port else host @ '':'' @ port)"

lemma rev_takeWhile_colon:
  assumes "CHR '':'' \<notin> set p"
  shows "rev (takeWhile (\<lambda>c. c \<noteq> CHR '':'') (rev (h @ CHR '':'' # p))) = p"
proof -
  have "takeWhile (\<lambda>c. c \<noteq> CHR '':'') (rev p @ CHR '':'' # rev h) = rev p"
    using assms by (subst takeWhile_append2) auto
  then show ?thesis by simp
qed

lemma takeWhile_bracket:
  assumes "CHR '']'' \<notin> set h"
  shows "takeWhile (\<lambda>c. c \<noteq> CHR '']'') (h @ CHR '']'' # r) = h"
  using assms by (subst takeWhile_append2) auto

lemma SplitHostPort_Join:
  assumes "CHR ''['' \<notin> set h" "CHR '']'' \<notin> set h" "CHR '':'' \<notin> set p" "CHR ''['' \<notin> set p" "CHR '']'' \<notin> set p"
  shows "SplitHostPort (JoinHostPort h p) = Some (h, p)"
proof (cases "CHR '':'' \<in> set h")
  case True
  have "rev (takeWhile (\<lambda>c. c \<noteq> CHR '':'') (rev ((''['' @ h @ '']'') @ CHR '':'' # p))) = p"
    using assms(3) by (rule rev_takeWhile_colon)
  with True takeWhile_bracket [OF assms(2), of "CHR '':'' # p"] assms show ?thesis
    by (simp add: SplitHostPort_def JoinHostPort_def Let_def hasPrefix_def)
next
  case False
  have "rev (takeWhile (\<lambda>c. c \<noteq> CHR '':'') (rev (h @ CHR '':'' # p))) = p"
    using assms(3) by (rule rev_takeWhile_colon)
  moreover have "\<not> hasPrefix (h @ CHR '':'' # p) ''[''"
    using assms(1) by (cases h) (auto simp: hasPrefix_def)
  ultimately show ?thesis using False assms
    by (simp add: SplitHostPort_def JoinHostPort_def Let_def)
qed

end
