(* ===== verification/Files.thy ===== *)
theory Files
  imports GoLib
begin

text \<open>
  The host's file system, as far as the daemon uses it: a finite table from cleaned paths to
  directories and regular files.  Every operation makes one call that may fail (\<open>call\<close>); a parent
  directory that is missing, a full disk or a permission problem is such a failure.  Transfers of
  data may stop after any number of bytes.  Only \<open>ErrNotExist\<close>, \<open>ErrExist\<close> and the errors about the
  kind of a node depend on the table.

  Shown here: for every operation a rule that gives its effect on the table for every outcome.
\<close>

datatype node = Dir | File string

record fsys = env +
  files :: "(string \<times> node) list"

abbreviation look :: "'z fsys_scheme \<Rightarrow> string \<Rightarrow> node option" where
  "look s \<equiv> map_of (files s)"

definition put :: "string \<Rightarrow> node \<Rightarrow> (string \<times> node) list \<Rightarrow> (string \<times> node) list" where
  "put p n fs = (p, n) # filter (\<lambda>e. fst e \<noteq> p) fs"

definition del :: "(string \<Rightarrow> bool) \<Rightarrow> (string \<times> node) list \<Rightarrow> (string \<times> node) list" where
  "del P fs = filter (\<lambda>e. \<not> P (fst e)) fs"

text \<open>The paths at or below a directory.\<close>

definition below :: "string \<Rightarrow> string \<Rightarrow> bool" where
  "below d p \<longleftrightarrow> p = d \<or> hasPrefix p (d @ ''/'')"

text \<open>The directories \<open>os.MkdirAll\<close> visits, outermost first.\<close>

definition ancestors :: "string \<Rightarrow> string list" where
  "ancestors p = map (\<lambda>i. take i p) (filter (\<lambda>i. p ! i = CHR ''/'') [1..<length p]) @ [p]"

definition mkdirs :: "string list \<Rightarrow> (string \<times> node) list \<Rightarrow> (string \<times> node) list" where
  "mkdirs ds fs = fold (\<lambda>d fs. if map_of fs d = None then put d Dir fs else fs) ds fs"

section \<open>Operations\<close>

definition osStat :: "string \<Rightarrow> ('z fsys_scheme, node) prog" where
  "osStat p = bind call (\<lambda>_. bind (gets (\<lambda>s. look s p)) (\<lambda>n.
     case n of None \<Rightarrow> throw (Sentinel ErrNotExist) | Some n \<Rightarrow> ret n))"

definition osReadFile :: "string \<Rightarrow> ('z fsys_scheme, string) prog" where
  "osReadFile p = bind (osStat p) (\<lambda>n.
     case n of Dir \<Rightarrow> throw (Msg ''is a directory'') | File b \<Rightarrow> ret b)"

text \<open>\<open>os.Open\<close> for reading; the model keeps no file handles, so opening is reading the node.\<close>

definition osOpen :: "string \<Rightarrow> ('z fsys_scheme, node) prog" where
  "osOpen p = osStat p"

definition osMkdirAll :: "string \<Rightarrow> ('z fsys_scheme, unit) prog" where
  "osMkdirAll p = bind call (\<lambda>_. bind (gets files) (\<lambda>fs.
     if list_ex (\<lambda>d. case map_of fs d of Some (File b) \<Rightarrow> True | _ \<Rightarrow> False) (ancestors p)
     then throw (Msg ''not a directory'')
     else modify (\<lambda>s. s\<lparr>files := mkdirs (ancestors p) (files s)\<rparr>)))"

definition osRemove :: "string \<Rightarrow> ('z fsys_scheme, unit) prog" where
  "osRemove p = bind call (\<lambda>_. bind (gets files) (\<lambda>fs.
     case map_of fs p of
       None \<Rightarrow> throw (Sentinel ErrNotExist)
     | Some n \<Rightarrow>
         if n = Dir \<and> list_ex (\<lambda>e. fst e \<noteq> p \<and> below p (fst e)) fs
         then throw (Msg ''directory not empty'')
         else modify (\<lambda>s. s\<lparr>files := del (\<lambda>q. q = p) (files s)\<rparr>)))"

definition osRemoveAll :: "string \<Rightarrow> ('z fsys_scheme, unit) prog" where
  "osRemoveAll p = bind call (\<lambda>_. modify (\<lambda>s. s\<lparr>files := del (below p) (files s)\<rparr>))"

text \<open>The table after a rename: what was at or below \<open>src\<close> is at or below \<open>dst\<close>.\<close>

definition moveTree :: "string \<Rightarrow> string \<Rightarrow> (string \<times> node) list \<Rightarrow> (string \<times> node) list" where
  "moveTree src dst fs =
     map (\<lambda>e. (dst @ drop (length src) (fst e), snd e)) (filter (\<lambda>e. below src (fst e)) fs) @
     del (\<lambda>q. below src q \<or> below dst q) fs"

definition osRename :: "string \<Rightarrow> string \<Rightarrow> ('z fsys_scheme, unit) prog" where
  "osRename src dst = bind call (\<lambda>_. bind (gets files) (\<lambda>fs.
     case map_of fs src of
       None \<Rightarrow> throw (Sentinel ErrNotExist)
     | Some n \<Rightarrow>
         if (case map_of fs dst of None \<Rightarrow> False | Some d \<Rightarrow>
               (n = Dir) \<noteq> (d = Dir) \<or> d = Dir \<and> list_ex (\<lambda>e. fst e \<noteq> dst \<and> below dst (fst e)) fs)
         then throw (Msg ''file exists'')
         else if src = dst then ret ()
         else modify (\<lambda>s. s\<lparr>files := moveTree src dst (files s)\<rparr>)))"

definition osTruncate :: "string \<Rightarrow> nat \<Rightarrow> ('z fsys_scheme, unit) prog" where
  "osTruncate p n = bind (osStat p) (\<lambda>f.
     case f of Dir \<Rightarrow> throw (Msg ''is a directory'')
     | File b \<Rightarrow> modify (\<lambda>s. s\<lparr>files := put p (File (take n b @ replicate (n - length b) (CHR 0x00))) (files s)\<rparr>))"

text \<open>\<open>os.OpenFile\<close> for writing with \<open>O_CREATE|O_EXCL\<close>, \<open>O_CREATE|O_TRUNC\<close> and \<open>O_CREATE|O_APPEND\<close>.\<close>

definition osCreateExcl :: "string \<Rightarrow> ('z fsys_scheme, unit) prog" where
  "osCreateExcl p = bind call (\<lambda>_. bind (gets (\<lambda>s. look s p)) (\<lambda>n.
     if n \<noteq> None then throw (Sentinel ErrExist)
     else modify (\<lambda>s. s\<lparr>files := put p (File []) (files s)\<rparr>)))"

definition osCreateTrunc :: "string \<Rightarrow> ('z fsys_scheme, unit) prog" where
  "osCreateTrunc p = bind call (\<lambda>_. bind (gets (\<lambda>s. look s p)) (\<lambda>n.
     if n = Some Dir then throw (Msg ''is a directory'')
     else modify (\<lambda>s. s\<lparr>files := put p (File []) (files s)\<rparr>)))"

definition osOpenAppend :: "string \<Rightarrow> ('z fsys_scheme, unit) prog" where
  "osOpenAppend p = bind call (\<lambda>_. bind (gets (\<lambda>s. look s p)) (\<lambda>n.
     case n of None \<Rightarrow> modify (\<lambda>s. s\<lparr>files := put p (File []) (files s)\<rparr>)
     | Some Dir \<Rightarrow> throw (Msg ''is a directory'')
     | Some (File b) \<Rightarrow> ret ()))"

text \<open>\<open>io.Copy\<close> of some bytes into the open file \<open>p\<close>, from its start: a failure keeps a prefix.\<close>

definition transfer :: "string \<Rightarrow> string \<Rightarrow> ('z fsys_scheme, unit) prog" where
  "transfer p b s = (case next_outcome s of
      (Success, s') \<Rightarrow> (Inr (), s'\<lparr>files := put p (File b) (files s')\<rparr>)
    | (Failure m k, s') \<Rightarrow> (Inl (Msg m), s'\<lparr>files := put p (File (take k b)) (files s')\<rparr>)
    | (Cancelled, s') \<Rightarrow> (Inl (Sentinel Canceled), s'))"

definition osWriteFile :: "string \<Rightarrow> string \<Rightarrow> ('z fsys_scheme, unit) prog" where
  "osWriteFile p b = bind (osCreateTrunc p) (\<lambda>_. transfer p b)"

text \<open>\<open>os.CreateTemp(dir, pre + "*" + suf)\<close> and \<open>os.MkdirTemp\<close>: a name that is not in use.\<close>

definition tempPath :: "string \<Rightarrow> string \<Rightarrow> string \<Rightarrow> nat \<Rightarrow> string" where
  "tempPath dir pre suf k = dir @ ''/'' @ pre @ natDec k @ suf"

definition freshTemp :: "'z fsys_scheme \<Rightarrow> string \<Rightarrow> string \<Rightarrow> string \<Rightarrow> string option" where
  "freshTemp s dir pre suf = map_option (tempPath dir pre suf)
     (find (\<lambda>k. \<not> list_ex (\<lambda>e. below (tempPath dir pre suf k) (fst e)) (files s)) [seed s..<seed s + length (files s) + 1])"

definition osTemp :: "node \<Rightarrow> string \<Rightarrow> string \<Rightarrow> string \<Rightarrow> ('z fsys_scheme, string) prog" where
  "osTemp n dir pre suf = bind call (\<lambda>_. bind (gets (\<lambda>s. freshTemp s dir pre suf)) (\<lambda>r.
     case r of None \<Rightarrow> throw (Sentinel ErrExist)
     | Some p \<Rightarrow> bind (modify (\<lambda>s. s\<lparr>files := put p n (files s)\<rparr>)) (\<lambda>_. ret p)))"

section \<open>The table\<close>

lemma map_of_put [simp]: "map_of (put p n fs) = (map_of fs)(p \<mapsto> n)"
proof
  fix q
  have "map_of (filter (\<lambda>e. fst e \<noteq> p) fs) q = map_of fs q" if "q \<noteq> p"
    using that by (induction fs) auto
  then show "map_of (put p n fs) q = ((map_of fs)(p \<mapsto> n)) q" by (auto simp: put_def)
qed

lemma map_of_del [simp]: "map_of (del P fs) q = (if P q then None else map_of fs q)"
  unfolding del_def by (induction fs) auto

lemma map_of_mkdirs:
  "map_of (mkdirs ds fs) q = (case map_of fs q of None \<Rightarrow> if q \<in> set ds then Some Dir else None | Some n \<Rightarrow> Some n)"
proof (induction ds arbitrary: fs)
  case (Cons d ds)
  have "mkdirs (d # ds) fs = mkdirs ds (if map_of fs d = None then put d Dir fs else fs)"
    by (simp add: mkdirs_def)
  with Cons show ?case by (auto split: option.splits)
qed (auto simp: mkdirs_def split: option.splits)

lemma below_iff: "below d p \<longleftrightarrow> (\<exists>r. p = d @ r \<and> (r = [] \<or> (\<exists>t. r = CHR ''/'' # t)))"
  by (auto simp: below_def hasPrefix_iff)

lemma below_refl [simp]: "below p p"
  by (simp add: below_def)

lemma map_of_moved:
  "map_of (map (\<lambda>e. (dst @ drop (length src) (fst e), snd e)) (filter (\<lambda>e. below src (fst e)) fs)) q =
     (if below dst q then map_of fs (src @ drop (length dst) q) else None)"
proof (induction fs)
  case (Cons e fs)
  obtain k v where e: "e = (k, v)" by fastforce
  have hit: "dst @ drop (length src) k = q \<longleftrightarrow> below dst q \<and> k = src @ drop (length dst) q" if "below src k"
    using that by (auto simp: below_iff)
  have miss: "k \<noteq> src @ drop (length dst) q" if "\<not> below src k" "below dst q"
    using that by (auto simp: below_iff)
  show ?case
  proof (cases "below src k")
    case True
    then show ?thesis using Cons hit e by (cases "dst @ drop (length src) k = q") auto
  next
    case False
    then show ?thesis using Cons miss e by auto
  qed
qed simp

lemma map_of_moveTree:
  "map_of (moveTree src dst fs) q =
     (if below dst q then map_of fs (src @ drop (length dst) q) else if below src q then None else map_of fs q)"
  unfolding moveTree_def map_of_append map_add_def map_of_moved by (auto split: option.splits)

section \<open>Effect of every operation under every outcome\<close>

lemma call_cases:
  "(\<exists>rs. call s = (Inr (), s\<lparr>outcomes := rs\<rparr>)) \<or>
   (\<exists>e rs. call s = (Inl e, s\<lparr>outcomes := rs\<rparr>) \<and> \<not> isNotExist e \<and> e \<noteq> Sentinel ErrExist)"
proof -
  have "\<exists>rs. s = s\<lparr>outcomes := rs\<rparr>" by (rule exI [of _ "outcomes s"]) simp
  then show ?thesis
    by (auto simp: call_def next_outcome_def split: list.splits outcome.splits)
qed

lemma wp_call_other:
  assumes "\<And>rs. Q () (s\<lparr>outcomes := rs\<rparr>)"
    and "\<And>e rs. \<not> isNotExist e \<Longrightarrow> e \<noteq> Sentinel ErrExist \<Longrightarrow> E e (s\<lparr>outcomes := rs\<rparr>)"
  shows "wp call Q E s"
  using call_cases [of s] assms by (auto simp: wp_def)

lemma wp_osStat:
  assumes "\<And>rs n. look s p = Some n \<Longrightarrow> Q n (s\<lparr>outcomes := rs\<rparr>)"
    and "\<And>e rs. (isNotExist e \<Longrightarrow> look s p = None) \<Longrightarrow> E e (s\<lparr>outcomes := rs\<rparr>)"
  shows "wp (osStat p) Q E s"
  unfolding osStat_def wp_bind
  by (rule wp_call_other) (auto simp: wp_rules split: option.splits intro: assms)

lemma wp_osOpen:
  assumes "\<And>rs n. look s p = Some n \<Longrightarrow> Q n (s\<lparr>outcomes := rs\<rparr>)"
    and "\<And>e rs. (isNotExist e \<Longrightarrow> look s p = None) \<Longrightarrow> E e (s\<lparr>outcomes := rs\<rparr>)"
  shows "wp (osOpen p) Q E s"
  unfolding osOpen_def by (rule wp_osStat) (auto intro: assms)

lemma wp_osReadFile:
  assumes "\<And>rs b. look s p = Some (File b) \<Longrightarrow> Q b (s\<lparr>outcomes := rs\<rparr>)"
    and "\<And>e rs. (isNotExist e \<Longrightarrow> look s p = None) \<Longrightarrow> E e (s\<lparr>outcomes := rs\<rparr>)"
  shows "wp (osReadFile p) Q E s"
  unfolding osReadFile_def wp_bind
  by (rule wp_osStat) (auto simp: wp_rules split: node.splits intro: assms)

lemma wp_osMkdirAll:
  assumes "\<And>rs. \<forall>d \<in> set (ancestors p). \<forall>b. look s d \<noteq> Some (File b) \<Longrightarrow>
      Q () (s\<lparr>outcomes := rs, files := mkdirs (ancestors p) (files s)\<rparr>)"
    and "\<And>e rs. \<not> isNotExist e \<Longrightarrow> E e (s\<lparr>outcomes := rs\<rparr>)"
  shows "wp (osMkdirAll p) Q E s"
  unfolding osMkdirAll_def wp_bind
  by (rule wp_call_other) (auto simp: wp_rules list_ex_iff split: option.splits node.splits intro: assms)

lemma wp_osRemove:
  assumes "\<And>rs. look s p \<noteq> None \<Longrightarrow> Q () (s\<lparr>outcomes := rs, files := del (\<lambda>q. q = p) (files s)\<rparr>)"
    and "\<And>e rs. (isNotExist e \<Longrightarrow> look s p = None) \<Longrightarrow> E e (s\<lparr>outcomes := rs\<rparr>)"
  shows "wp (osRemove p) Q E s"
  unfolding osRemove_def wp_bind
  by (rule wp_call_other) (auto simp: wp_rules split: option.splits intro: assms)

lemma wp_osRemoveAll:
  assumes "\<And>rs. Q () (s\<lparr>outcomes := rs, files := del (below p) (files s)\<rparr>)"
    and "\<And>e rs. \<not> isNotExist e \<Longrightarrow> E e (s\<lparr>outcomes := rs\<rparr>)"
  shows "wp (osRemoveAll p) Q E s"
  unfolding osRemoveAll_def wp_bind
  by (rule wp_call_other) (auto simp: wp_rules intro: assms)

lemma wp_osRename:
  assumes "\<And>rs n. look s src = Some n \<Longrightarrow> src \<noteq> dst \<Longrightarrow> Q () (s\<lparr>outcomes := rs, files := moveTree src dst (files s)\<rparr>)"
    and "\<And>rs. src = dst \<Longrightarrow> Q () (s\<lparr>outcomes := rs\<rparr>)"
    and "\<And>e rs. (isNotExist e \<Longrightarrow> look s src = None) \<Longrightarrow> E e (s\<lparr>outcomes := rs\<rparr>)"
  shows "wp (osRename src dst) Q E s"
  unfolding osRename_def wp_bind
  by (rule wp_call_other) (auto simp: wp_rules split: option.splits intro: assms)

lemma wp_osTruncate:
  assumes "\<And>rs b. look s p = Some (File b) \<Longrightarrow>
      Q () (s\<lparr>outcomes := rs, files := put p (File (take n b @ replicate (n - length b) (CHR 0x00))) (files s)\<rparr>)"
    and "\<And>e rs. (isNotExist e \<Longrightarrow> look s p = None) \<Longrightarrow> E e (s\<lparr>outcomes := rs\<rparr>)"
  shows "wp (osTruncate p n) Q E s"
  unfolding osTruncate_def wp_bind
  by (rule wp_osStat) (auto simp: wp_rules split: node.splits intro: assms)

lemma wp_osCreateExcl:
  assumes "\<And>rs. look s p = None \<Longrightarrow> Q () (s\<lparr>outcomes := rs, files := put p (File []) (files s)\<rparr>)"
    and "\<And>e rs. \<not> isNotExist e \<Longrightarrow> (e = Sentinel ErrExist \<Longrightarrow> look s p \<noteq> None) \<Longrightarrow> E e (s\<lparr>outcomes := rs\<rparr>)"
  shows "wp (osCreateExcl p) Q E s"
  unfolding osCreateExcl_def wp_bind
  by (rule wp_call_other) (auto simp: wp_rules intro: assms)

lemma wp_osCreateTrunc:
  assumes "\<And>rs. look s p \<noteq> Some Dir \<Longrightarrow> Q () (s\<lparr>outcomes := rs, files := put p (File []) (files s)\<rparr>)"
    and "\<And>e rs. \<not> isNotExist e \<Longrightarrow> E e (s\<lparr>outcomes := rs\<rparr>)"
  shows "wp (osCreateTrunc p) Q E s"
  unfolding osCreateTrunc_def wp_bind
  by (rule wp_call_other) (auto simp: wp_rules intro: assms)

lemma wp_osOpenAppend:
  assumes "\<And>rs. look s p = None \<Longrightarrow> Q () (s\<lparr>outcomes := rs, files := put p (File []) (files s)\<rparr>)"
    and "\<And>rs b. look s p = Some (File b) \<Longrightarrow> Q () (s\<lparr>outcomes := rs\<rparr>)"
    and "\<And>e rs. \<not> isNotExist e \<Longrightarrow> E e (s\<lparr>outcomes := rs\<rparr>)"
  shows "wp (osOpenAppend p) Q E s"
  unfolding osOpenAppend_def wp_bind
  by (rule wp_call_other) (auto simp: wp_rules split: option.splits node.splits intro: assms)

lemma wp_transfer:
  assumes "\<And>rs. Q () (s\<lparr>outcomes := rs, files := put p (File b) (files s)\<rparr>)"
    and "\<And>e rs k. \<not> isNotExist e \<Longrightarrow> E e (s\<lparr>outcomes := rs, files := put p (File (take k b)) (files s)\<rparr>)"
    and "\<And>e rs. \<not> isNotExist e \<Longrightarrow> E e (s\<lparr>outcomes := rs\<rparr>)"
  shows "wp (transfer p b) Q E s"
proof -
  have "s = s\<lparr>outcomes := outcomes s\<rparr>" by simp
  then show ?thesis
    using assms(1) [of "outcomes s"]
    by (auto simp: wp_def transfer_def next_outcome_def intro: assms split: list.splits outcome.splits)
qed

lemma wp_osWriteFile:
  assumes "\<And>rs fs. map_of fs = (look s)(p \<mapsto> File b) \<Longrightarrow> Q () (s\<lparr>outcomes := rs, files := fs\<rparr>)"
    and "\<And>e rs fs. \<forall>q. q \<noteq> p \<longrightarrow> map_of fs q = look s q \<Longrightarrow> E e (s\<lparr>outcomes := rs, files := fs\<rparr>)"
  shows "wp (osWriteFile p b) Q E s"
proof -
  have swap: "s\<lparr>outcomes := rs, files := fs\<rparr>\<lparr>outcomes := rs'\<rparr> = s\<lparr>outcomes := rs', files := fs\<rparr>" for rs rs' fs by simp
  show ?thesis
    unfolding osWriteFile_def wp_bind
  proof (rule wp_osCreateTrunc)
    fix rs
    show "wp (transfer p b) Q E (s\<lparr>outcomes := rs, files := put p (File []) (files s)\<rparr>)"
      by (rule wp_transfer; unfold swap) (auto intro!: assms simp: fun_eq_iff)
  next
    fix e rs
    show "E e (s\<lparr>outcomes := rs\<rparr>)" using assms(2) [where fs = "files s" and e = e and rs = rs] by simp
  qed
qed

lemma freshTemp_unused:
  "freshTemp s dir pre suf = Some p \<Longrightarrow> (\<exists>k. p = tempPath dir pre suf k) \<and> (\<forall>q. below p q \<longrightarrow> look s q = None)"
  unfolding freshTemp_def
  by (auto simp: find_Some_iff list_ex_iff map_of_eq_None_iff image_iff)

lemma wp_osTemp:
  assumes "\<And>rs p k. p = tempPath dir pre suf k \<Longrightarrow> \<forall>q. below p q \<longrightarrow> look s q = None \<Longrightarrow>
      Q p (s\<lparr>outcomes := rs, files := put p n (files s)\<rparr>)"
    and "\<And>e rs. \<not> isNotExist e \<Longrightarrow> E e (s\<lparr>outcomes := rs\<rparr>)"
  shows "wp (osTemp n dir pre suf) Q E s"
  unfolding osTemp_def wp_bind
proof (rule wp_call_other)
  fix rs
  have "freshTemp (s\<lparr>outcomes := rs\<rparr>) dir pre suf = freshTemp s dir pre suf"
    by (simp add: freshTemp_def)
  then show "wp (gets (\<lambda>s. freshTemp s dir pre suf)) (\<lambda>x. wp (case x of None \<Rightarrow> throw (Sentinel ErrExist)
      | Some p \<Rightarrow> bind (modify (\<lambda>s. s\<lparr>files := put p n (files s)\<rparr>)) (\<lambda>_. ret p)) Q E) E (s\<lparr>outcomes := rs\<rparr>)"
    using assms(1) freshTemp_unused [of s dir pre suf] assms(2) [of "Sentinel ErrExist" rs]
    by (auto simp: wp_rules split: option.splits)
qed (rule assms(2))

lemmas wp_files = wp_osStat wp_osOpen wp_osReadFile wp_osMkdirAll wp_osRemove wp_osRemoveAll wp_osRename
  wp_osTruncate wp_osCreateExcl wp_osCreateTrunc wp_osOpenAppend wp_transfer wp_osWriteFile wp_osTemp

section \<open>Effect when nothing fails\<close>

lemma wp_osStat_ff [ff_rules]:
  "fault_free s \<Longrightarrow> wp (osStat p) Q E s = (case look s p of None \<Rightarrow> E (Sentinel ErrNotExist) s | Some n \<Rightarrow> Q n s)"
  by (auto simp: osStat_def wp_rules ff_rules split: option.splits)

lemma wp_osOpen_ff [ff_rules]:
  "fault_free s \<Longrightarrow> wp (osOpen p) Q E s = (case look s p of None \<Rightarrow> E (Sentinel ErrNotExist) s | Some n \<Rightarrow> Q n s)"
  by (simp add: osOpen_def ff_rules)

lemma wp_osReadFile_ff [ff_rules]:
  "fault_free s \<Longrightarrow> wp (osReadFile p) Q E s = (case look s p of None \<Rightarrow> E (Sentinel ErrNotExist) s
     | Some Dir \<Rightarrow> E (Msg ''is a directory'') s | Some (File b) \<Rightarrow> Q b s)"
  by (auto simp: osReadFile_def wp_rules ff_rules split: option.splits node.splits)

lemma wp_osMkdirAll_ff [ff_rules]:
  "fault_free s \<Longrightarrow> wp (osMkdirAll p) Q E s =
     (if list_ex (\<lambda>d. case look s d of Some (File b) \<Rightarrow> True | _ \<Rightarrow> False) (ancestors p)
      then E (Msg ''not a directory'') s else Q () (s\<lparr>files := mkdirs (ancestors p) (files s)\<rparr>))"
  by (simp add: osMkdirAll_def wp_rules ff_rules)

lemma wp_osRemove_ff [ff_rules]:
  "fault_free s \<Longrightarrow> wp (osRemove p) Q E s = (case look s p of None \<Rightarrow> E (Sentinel ErrNotExist) s
     | Some n \<Rightarrow> if n = Dir \<and> list_ex (\<lambda>e. fst e \<noteq> p \<and> below p (fst e)) (files s)
         then E (Msg ''directory not empty'') s else Q () (s\<lparr>files := del (\<lambda>q. q = p) (files s)\<rparr>))"
  by (auto simp: osRemove_def wp_rules ff_rules split: option.splits)

lemma wp_osRemoveAll_ff [ff_rules]:
  "fault_free s \<Longrightarrow> wp (osRemoveAll p) Q E s = Q () (s\<lparr>files := del (below p) (files s)\<rparr>)"
  by (simp add: osRemoveAll_def wp_rules ff_rules)

lemma wp_osTruncate_ff [ff_rules]:
  "fault_free s \<Longrightarrow> wp (osTruncate p n) Q E s = (case look s p of None \<Rightarrow> E (Sentinel ErrNotExist) s
     | Some Dir \<Rightarrow> E (Msg ''is a directory'') s
     | Some (File b) \<Rightarrow> Q () (s\<lparr>files := put p (File (take n b @ replicate (n - length b) (CHR 0x00))) (files s)\<rparr>))"
  by (auto simp: osTruncate_def wp_rules ff_rules split: option.splits node.splits)

lemma wp_osCreateExcl_ff [ff_rules]:
  "fault_free s \<Longrightarrow> wp (osCreateExcl p) Q E s =
     (if look s p \<noteq> None then E (Sentinel ErrExist) s else Q () (s\<lparr>files := put p (File []) (files s)\<rparr>))"
  by (simp add: osCreateExcl_def wp_rules ff_rules)

lemma wp_osCreateTrunc_ff [ff_rules]:
  "fault_free s \<Longrightarrow> wp (osCreateTrunc p) Q E s =
     (if look s p = Some Dir then E (Msg ''is a directory'') s else Q () (s\<lparr>files := put p (File []) (files s)\<rparr>))"
  by (simp add: osCreateTrunc_def wp_rules ff_rules)

lemma wp_osOpenAppend_ff [ff_rules]:
  "fault_free s \<Longrightarrow> wp (osOpenAppend p) Q E s = (case look s p of
       None \<Rightarrow> Q () (s\<lparr>files := put p (File []) (files s)\<rparr>)
     | Some Dir \<Rightarrow> E (Msg ''is a directory'') s | Some (File b) \<Rightarrow> Q () s)"
  by (auto simp: osOpenAppend_def wp_rules ff_rules split: option.splits node.splits)

lemma wp_transfer_ff [ff_rules]:
  "fault_free s \<Longrightarrow> wp (transfer p b) Q E s = Q () (s\<lparr>files := put p (File b) (files s)\<rparr>)"
  by (simp add: transfer_def wp_def)

lemma wp_osWriteFile_ff [ff_rules]:
  "fault_free s \<Longrightarrow> wp (osWriteFile p b) Q E s = (if look s p = Some Dir then E (Msg ''is a directory'') s
     else Q () (s\<lparr>files := put p (File b) (put p (File []) (files s))\<rparr>))"
  by (simp add: osWriteFile_def wp_rules ff_rules)

section \<open>Predicates that do not look at the files\<close>

definition files_blind :: "('z fsys_scheme \<Rightarrow> bool) \<Rightarrow> bool" where
  "files_blind I \<longleftrightarrow> outcome_blind I \<and> (\<forall>s fs. I (s\<lparr>files := fs\<rparr>) = I s)"

lemma files_blind_outcome: "files_blind I \<Longrightarrow> outcome_blind I"
  by (simp add: files_blind_def)

lemma keeps_modify_files: "files_blind I \<Longrightarrow> keeps I (modify (\<lambda>s. s\<lparr>files := f s\<rparr>))"
  by (simp add: files_blind_def keeps_def modify_def)

lemma files_ops_keep [keeps_rules]:
  assumes "files_blind I"
  shows "keeps I (osStat p)" "keeps I (osOpen p)" "keeps I (osReadFile p)" "keeps I (osMkdirAll p)"
    "keeps I (osRemove p)" "keeps I (osRemoveAll p)" "keeps I (osRename p q)" "keeps I (osTruncate p n)"
    "keeps I (osCreateExcl p)" "keeps I (osCreateTrunc p)" "keeps I (osOpenAppend p)" "keeps I (osTemp nd d pre suf)"
  using assms unfolding osStat_def osOpen_def osReadFile_def osMkdirAll_def osRemove_def osRemoveAll_def osRename_def
    osTruncate_def osCreateExcl_def osCreateTrunc_def osOpenAppend_def osTemp_def
  by (auto intro!: keeps_rules keeps_modify_files files_blind_outcome split: node.splits option.splits)

lemma transfer_keeps [keeps_rules]: "files_blind I \<Longrightarrow> keeps I (transfer p b)"
  by (auto simp: keeps_def transfer_def files_blind_def next_outcome_blind split: prod.splits outcome.splits)

lemma osWriteFile_keeps [keeps_rules]: "files_blind I \<Longrightarrow> keeps I (osWriteFile p b)"
  unfolding osWriteFile_def by (intro keeps_rules)

section \<open>Programs that change only some paths\<close>

definition onlyIn :: "string set \<Rightarrow> 'z fsys_scheme \<Rightarrow> 'z fsys_scheme \<Rightarrow> bool" where
  "onlyIn P s t \<longleftrightarrow> (\<exists>rs fs. t = s\<lparr>outcomes := rs, files := fs\<rparr> \<and> (\<forall>q. q \<notin> P \<longrightarrow> map_of fs q = look s q))"

lemma onlyIn_refl [simp]: "onlyIn P s s"
  unfolding onlyIn_def by (intro exI [of _ "outcomes s"] exI [of _ "files s"]) simp

lemma onlyIn_outcomes: "onlyIn P s t \<Longrightarrow> onlyIn P s (t\<lparr>outcomes := rs\<rparr>)"
proof -
  assume "onlyIn P s t"
  then obtain rs' fs where t: "t = s\<lparr>outcomes := rs', files := fs\<rparr>" "\<forall>q. q \<notin> P \<longrightarrow> map_of fs q = look s q"
    by (auto simp: onlyIn_def)
  then show ?thesis unfolding onlyIn_def by (intro exI [of _ rs] exI [of _ fs]) simp
qed

lemma onlyIn_files:
  assumes "onlyIn P s t" and "\<And>q. q \<notin> P \<Longrightarrow> map_of fs q = look t q"
  shows "onlyIn P s (t\<lparr>files := fs\<rparr>)"
proof -
  from assms(1) obtain rs gs where t: "t = s\<lparr>outcomes := rs, files := gs\<rparr>" "\<forall>q. q \<notin> P \<longrightarrow> map_of gs q = look s q"
    by (auto simp: onlyIn_def)
  with assms(2) show ?thesis unfolding onlyIn_def by (intro exI [of _ rs] exI [of _ fs]) simp
qed

lemma keeps_only_modify:
  "(\<And>t q. q \<notin> P \<Longrightarrow> map_of (f t) q = look t q) \<Longrightarrow> keeps (onlyIn P s) (modify (\<lambda>t. t\<lparr>files := f t\<rparr>))"
  by (simp add: keeps_def modify_def onlyIn_files)

lemma onlyIn_next: "onlyIn P s t \<Longrightarrow> next_outcome t = (r, t') \<Longrightarrow> onlyIn P s t'"
  by (auto simp: next_outcome_def split: list.splits intro: onlyIn_outcomes)

lemma only_call [keeps_rules]: "keeps (onlyIn P s) call" "keeps (onlyIn P s) ctxCheck"
  unfolding keeps_def call_def ctxCheck_def
  by (auto dest: onlyIn_next split: prod.splits outcome.splits)

lemma only_reads [keeps_rules]:
  "keeps (onlyIn P s) (osStat p)" "keeps (onlyIn P s) (osOpen p)" "keeps (onlyIn P s) (osReadFile p)"
  unfolding osStat_def osOpen_def osReadFile_def by (auto intro!: keeps_rules split: node.splits option.splits)

lemma only_writes [keeps_rules]:
  assumes "p \<in> P"
  shows "keeps (onlyIn P s) (osRemove p)" "keeps (onlyIn P s) (osTruncate p n)" "keeps (onlyIn P s) (osCreateExcl p)"
    "keeps (onlyIn P s) (osCreateTrunc p)" "keeps (onlyIn P s) (osOpenAppend p)"
  using assms unfolding osRemove_def osTruncate_def osCreateExcl_def osCreateTrunc_def osOpenAppend_def
  by (auto intro!: keeps_rules keeps_only_modify split: node.splits option.splits)

lemma only_transfer [keeps_rules]: "p \<in> P \<Longrightarrow> keeps (onlyIn P s) (transfer p b)"
  unfolding keeps_def transfer_def
  by (auto split: prod.splits outcome.splits dest: onlyIn_next intro!: onlyIn_files)

lemma only_writeFile [keeps_rules]: "p \<in> P \<Longrightarrow> keeps (onlyIn P s) (osWriteFile p b)"
  unfolding osWriteFile_def by (intro keeps_rules)

end
