(* ===== verification/Types.thy ===== *)
theory Types
  imports Files
begin

text \<open>
  The data model: the structs of \<open>internal/model/types.go\<close> and the parameter structs of the
  store.  Go's \<open>int\<close> and \<open>int64\<close> fields are integers here; the places where the width matters
  write the wrap-around out.  Timestamps are the text the database keeps.
\<close>

record VM =
  vmUUID :: string
  vmName :: string
  vmState :: string
  vmPrivateIP :: string
  vmVCPUs :: int
  vmMemoryMinMiB :: int
  vmMemoryMaxMiB :: int
  vmDiskBytes :: int
  vmDefaultHTTPPort :: int
  vmIdleSleepAfterSeconds :: int
  vmLastStartedAt :: string
  vmLastActivityAt :: string
  vmStoppedAt :: string
  vmArchivedDiskPath :: string
  vmBaseImageID :: string
  vmKernelID :: string
  vmBaseImageMetadata :: string
  vmAutoWake :: bool
  vmPublicHTTP :: bool

record Route =
  routeName :: string
  routeVMUUID :: string
  routeVMName :: string
  routePort :: int
  routeIsDefault :: bool

record Snapshot =
  snapName :: string
  snapSourceVMUUID :: string
  snapSourceVM :: string
  snapStatePath :: string
  snapMemPath :: string
  snapDiskPath :: string
  snapBaseImageID :: string
  snapKernelID :: string
  snapBaseImageMetadata :: string
  snapCreatedAt :: string

record MemoryHotplugUsage =
  muTotalMiB :: int
  muRequestedMiB :: int
  muPluggedMiB :: int
  muEffectiveMiB :: int

text \<open>The load averages of a guest report are carried as text.\<close>

record GuestMemoryReport =
  grReportedAt :: string
  grTotalMiB :: int
  grAvailableMiB :: int
  grFreeMiB :: int
  grBuffersMiB :: int
  grCachedMiB :: int
  grSwapTotalMiB :: int
  grSwapFreeMiB :: int
  grRootDiskTotalBytes :: nat
  grRootDiskFreeBytes :: nat
  grLoad1 :: string
  grLoad5 :: string
  grLoad15 :: string
  grLastTargetMiB :: int

record CreateVMParams =
  cpName :: string
  cpPrivateIP :: string
  cpVCPUs :: int
  cpMemoryMinMiB :: int
  cpMemoryMaxMiB :: int
  cpDiskBytes :: int
  cpDefaultHTTPPort :: int
  cpIdleSleepAfterSeconds :: int
  cpBaseImageID :: string
  cpKernelID :: string
  cpBaseImageMetadata :: string
  cpAutoWake :: bool
  cpAutoWakeSet :: bool
  cpPublicHTTP :: bool

record UpdateVMParams =
  upDefaultHTTPPort :: "int option"
  upIdleSleepAfterSeconds :: "int option"
  upAutoWake :: "bool option"
  upPublicHTTP :: "bool option"

record CreateRouteParams =
  crName :: string
  crVMUUID :: string
  crPort :: int
  crIsDefault :: bool

record CreateSnapshotParams =
  csName :: string
  csSourceVMUUID :: string
  csSourceVM :: string
  csStatePath :: string
  csMemPath :: string
  csDiskPath :: string
  csBaseImageID :: string
  csKernelID :: string
  csBaseImageMetadata :: string

end
