(* ===== verification/Store.thy ===== *)
theory Store
  imports Types
begin

text \<open>
  The metadata store of \<open>internal/store\<close>: the tables of
  \<open>migrations/000001_initial_schema.up.sql\<close> as lists of rows, and one program per method of
  \<open>Store\<close>.  A SQL statement is one call that may fail; a failed statement, like a transaction
  that is not committed, changes nothing.  The constraints of the schema (primary keys,
  \<open>unique\<close>, \<open>check\<close>, the foreign key with \<open>on delete cascade\<close>) are checked where the
  statement is executed.  The columns \<open>created_at\<close> and \<open>updated_at\<close> of \<open>vms\<close>, which no query
  reads, are left out.

  \<open>uuid.Parse\<close> and \<open>uuid.NewString\<close> are library functions: the first is the parameter
  \<open>uuidParses\<close> (it succeeds), the second the argument \<open>newUUID\<close>.

  Shown here: the table invariant \<open>wfStore\<close> is kept by every method under every pattern of
  failures; what each lookup returns after each update; that the \<open>LIKE\<close> pattern made by
  \<open>GlobToLike\<close> matches what the glob means.
\<close>

section \<open>Tables\<close>

record vmRow =
  cUuid :: string
  cName :: string
  cState :: string
  cPrivateIP :: "string option"
  cVcpus :: int
  cMemoryMinMib :: int
  cMemoryMaxMib :: int
  cDiskBytes :: int
  cDefaultHttpPort :: int
  cIdleSleepAfterSeconds :: int
  cLastStartedAt :: string
  cLastActivityAt :: string
  cStoppedAt :: string
  cArchivedDiskPath :: string
  cBaseImageId :: string
  cKernelId :: string
  cBaseImageMetadata :: string
  cAutoWake :: int
  cPublicHttp :: int

record routeRow =
  rName :: string
  rVmUuid :: string
  rPort :: int
  rIsDefault :: int

record snapshotRow =
  sName :: string
  sSourceVmUuid :: "string option"
  sSourceVm :: "string option"
  sStatePath :: string
  sMemPath :: string
  sDiskPath :: string
  sBaseImageId :: string
  sKernelId :: string
  sBaseImageMetadata :: string
  sCreatedAt :: string

record store = fsys +
  vmsT :: "vmRow list"
  routesT :: "routeRow list"
  snapshotsT :: "snapshotRow list"
  protectionsT :: "string list"

text \<open>\<open>coalesce(column, '')\<close>\<close>

definition coalesce :: "string option \<Rightarrow> string" where
  "coalesce c = (case c of None \<Rightarrow> [] | Some v \<Rightarrow> v)"

definition boolToInt :: "bool \<Rightarrow> int" where
  "boolToInt v = (if v then 1 else 0)"

definition boolInt :: "bool \<Rightarrow> int" where
  "boolInt value = (if value then 1 else 0)"

definition scanVM :: "vmRow \<Rightarrow> VM" where
  "scanVM r = \<lparr>
     vmUUID = cUuid r, vmName = cName r, vmState = cState r, vmPrivateIP = coalesce (cPrivateIP r),
     vmVCPUs = cVcpus r, vmMemoryMinMiB = cMemoryMinMib r, vmMemoryMaxMiB = cMemoryMaxMib r,
     vmDiskBytes = cDiskBytes r, vmDefaultHTTPPort = cDefaultHttpPort r,
     vmIdleSleepAfterSeconds = cIdleSleepAfterSeconds r, vmLastStartedAt = cLastStartedAt r,
     vmLastActivityAt = cLastActivityAt r, vmStoppedAt = cStoppedAt r,
     vmArchivedDiskPath = cArchivedDiskPath r, vmBaseImageID = cBaseImageId r,
     vmKernelID = cKernelId r, vmBaseImageMetadata = cBaseImageMetadata r,
     vmAutoWake = (cAutoWake r \<noteq> 0), vmPublicHTTP = (cPublicHttp r \<noteq> 0)\<rparr>"

definition scanSnapshot :: "snapshotRow \<Rightarrow> Snapshot" where
  "scanSnapshot r = \<lparr>
     snapName = sName r, snapSourceVMUUID = coalesce (sSourceVmUuid r),
     snapSourceVM = coalesce (sSourceVm r), snapStatePath = sStatePath r, snapMemPath = sMemPath r,
     snapDiskPath = sDiskPath r, snapBaseImageID = sBaseImageId r, snapKernelID = sKernelId r,
     snapBaseImageMetadata = sBaseImageMetadata r, snapCreatedAt = sCreatedAt r\<rparr>"

text \<open>A row of \<open>routes join vms on vms.uuid = routes.vm_uuid\<close>\<close>

definition scanRoute :: "routeRow \<Rightarrow> vmRow \<Rightarrow> Route" where
  "scanRoute r v = \<lparr>routeName = rName r, routeVMUUID = rVmUuid r, routeVMName = cName v,
     routePort = rPort r, routeIsDefault = (rIsDefault r \<noteq> 0)\<rparr>"

section \<open>Statements\<close>

definition query :: "('z store_scheme \<Rightarrow> 'a) \<Rightarrow> ('z store_scheme, 'a) prog" where
  "query f = bind call (\<lambda>_. gets f)"

definition exec :: "('z store_scheme \<Rightarrow> 'z store_scheme) \<Rightarrow> ('z store_scheme, unit) prog" where
  "exec f = bind call (\<lambda>_. modify f)"

text \<open>\<open>update vms set ... where uuid = ?\<close> followed by the check of \<open>RowsAffected\<close>\<close>

definition updateVMRow :: "string \<Rightarrow> ('z store_scheme \<Rightarrow> vmRow \<Rightarrow> vmRow) \<Rightarrow> ('z store_scheme, unit) prog" where
  "updateVMRow u f =
     bind (query (\<lambda>s. list_ex (\<lambda>r. cUuid r = u) (vmsT s))) (\<lambda>rows.
     bind (modify (\<lambda>s. s\<lparr>vmsT := map (\<lambda>r. if cUuid r = u then f s r else r) (vmsT s)\<rparr>)) (\<lambda>_.
     bind call (\<lambda>_.
     if \<not> rows then throw (Wrap ''vm'' (Sentinel ErrNotFound)) else ret ())))"

section \<open>Virtual machines\<close>

definition GetVM :: "string \<Rightarrow> ('z store_scheme, VM) prog" where
  "GetVM u = bind (query (\<lambda>s. find (\<lambda>r. cUuid r = u) (vmsT s))) (\<lambda>row.
     case row of None \<Rightarrow> throw (Sentinel ErrNotFound) | Some r \<Rightarrow> ret (scanVM r))"

definition GetVMByName :: "string \<Rightarrow> ('z store_scheme, VM) prog" where
  "GetVMByName n = bind (query (\<lambda>s. find (\<lambda>r. cName r = n) (vmsT s))) (\<lambda>row.
     case row of None \<Rightarrow> throw (Sentinel ErrNotFound) | Some r \<Rightarrow> ret (scanVM r))"

definition GetVMByPrivateIP :: "string \<Rightarrow> ('z store_scheme, VM) prog" where
  "GetVMByPrivateIP ip = bind (query (\<lambda>s. find (\<lambda>r. cPrivateIP r = Some ip) (vmsT s))) (\<lambda>row.
     case row of None \<Rightarrow> throw (Sentinel ErrNotFound) | Some r \<Rightarrow> ret (scanVM r))"

definition vmRowOf :: "string \<Rightarrow> string \<Rightarrow> CreateVMParams \<Rightarrow> vmRow" where
  "vmRowOf now u p = \<lparr>
     cUuid = u, cName = cpName p, cState = ''stopped'', cPrivateIP = Some (cpPrivateIP p),
     cVcpus = cpVCPUs p, cMemoryMinMib = cpMemoryMinMiB p, cMemoryMaxMib = cpMemoryMaxMiB p,
     cDiskBytes = cpDiskBytes p, cDefaultHttpPort = cpDefaultHTTPPort p,
     cIdleSleepAfterSeconds = cpIdleSleepAfterSeconds p, cLastStartedAt = [], cLastActivityAt = [],
     cStoppedAt = now, cArchivedDiskPath = [], cBaseImageId = cpBaseImageID p,
     cKernelId = cpKernelID p, cBaseImageMetadata = cpBaseImageMetadata p,
     cAutoWake = boolToInt (cpAutoWake p), cPublicHttp = boolToInt (cpPublicHTTP p)\<rparr>"

definition CreateVM :: "(string \<Rightarrow> bool) \<Rightarrow> string \<Rightarrow> CreateVMParams \<Rightarrow> ('z store_scheme, VM) prog" where
  "CreateVM uuidParses newUUID p =
     (if uuidParses (cpName p) then throw (Msg ''vm name must not be UUID-shaped'') else
      bind call (\<lambda>_.
      bind (query (\<lambda>s. list_ex (\<lambda>r. rName r = cpName p) (routesT s))) (\<lambda>routeExists.
      if routeExists then throw (Wrap ''route reserves VM name'' (Sentinel StoreErrAlreadyExists)) else
      bind (query (\<lambda>s. list_ex (\<lambda>r. cUuid r = newUUID \<or> cName r = cpName p) (vmsT s))) (\<lambda>conflict.
      if conflict then throw (Msg ''UNIQUE constraint failed: vms'') else
      bind (exec (\<lambda>s. s\<lparr>vmsT := vmsT s @ [vmRowOf (sqlnow s) newUUID p]\<rparr>)) (\<lambda>_.
      GetVM newUUID)))))"

fun likeMatch :: "string \<Rightarrow> string \<Rightarrow> bool" where
  "likeMatch [] s = (s = [])"
| "likeMatch (p # ps) [] = (p = CHR ''%'' \<and> likeMatch ps [])"
| "likeMatch (p # ps) (c # s) =
     (if p = CHR ''%'' then likeMatch ps (c # s) \<or> likeMatch (p # ps) s
      else if p = CHR ''_'' then likeMatch ps s
      else if p = CHR 92 then
        (case ps of [] \<Rightarrow> False | q # qs \<Rightarrow> asciiLower q = asciiLower c \<and> likeMatch qs s)
      else asciiLower p = asciiLower c \<and> likeMatch ps s)"

fun GlobToLike :: "string \<Rightarrow> string" where
  "GlobToLike [] = []"
| "GlobToLike (r # rest) =
     (if r = CHR ''*'' then CHR ''%'' # GlobToLike rest
      else if r = CHR ''?'' then CHR ''_'' # GlobToLike rest
      else if r = CHR ''%'' \<or> r = CHR ''_'' \<or> r = CHR 92 then CHR 92 # r # GlobToLike rest
      else r # GlobToLike rest)"

definition ListVMsMatching :: "string list \<Rightarrow> ('z store_scheme, VM list) prog" where
  "ListVMsMatching namePatterns = query (\<lambda>s. map scanVM (sort_key cName
     (if namePatterns = [] then vmsT s
      else filter (\<lambda>r. list_ex (\<lambda>p. likeMatch (GlobToLike p) (cName r)) namePatterns) (vmsT s))))"

definition ListVMs :: "('z store_scheme, VM list) prog" where
  "ListVMs = ListVMsMatching []"

definition CountVMs :: "('z store_scheme, int) prog" where
  "CountVMs = query (\<lambda>s. int (length (vmsT s)))"

definition SetVMState :: "string \<Rightarrow> string \<Rightarrow> ('z store_scheme, unit) prog" where
  "SetVMState u st = updateVMRow u (\<lambda>s r. r\<lparr>
     cState := st,
     cLastStartedAt := (if st = ''running'' then sqlnow s else cLastStartedAt r),
     cLastActivityAt := (if st = ''running'' then sqlnow s else cLastActivityAt r),
     cStoppedAt := (if st = ''stopped'' then sqlnow s else [])\<rparr>)"

definition TouchVMActivity :: "string \<Rightarrow> ('z store_scheme, unit) prog" where
  "TouchVMActivity u = updateVMRow u (\<lambda>s r. r\<lparr>cLastActivityAt := sqlnow s\<rparr>)"

definition SetVMArchivedDiskPath :: "string \<Rightarrow> string \<Rightarrow> ('z store_scheme, unit) prog" where
  "SetVMArchivedDiskPath u path = updateVMRow u (\<lambda>s r. r\<lparr>cArchivedDiskPath := path\<rparr>)"

definition orElse :: "'a option \<Rightarrow> 'a \<Rightarrow> 'a" where
  "orElse z d = (case z of None \<Rightarrow> d | Some v \<Rightarrow> v)"

definition UpdateVM :: "string \<Rightarrow> UpdateVMParams \<Rightarrow> ('z store_scheme, VM) prog" where
  "UpdateVM u p =
     bind (GetVM u) (\<lambda>vm.
     let port = orElse (upDefaultHTTPPort p) (vmDefaultHTTPPort vm);
         idle = orElse (upIdleSleepAfterSeconds p) (vmIdleSleepAfterSeconds vm);
         autoWake = orElse (upAutoWake p) (vmAutoWake vm);
         publicHTTP = orElse (upPublicHTTP p) (vmPublicHTTP vm) in
     bind (updateVMRow u (\<lambda>s r. r\<lparr>cDefaultHttpPort := port, cIdleSleepAfterSeconds := idle,
             cAutoWake := boolToInt autoWake, cPublicHttp := boolToInt publicHTTP\<rparr>)) (\<lambda>_.
     GetVM u))"

definition DeleteVM :: "string \<Rightarrow> ('z store_scheme, unit) prog" where
  "DeleteVM u =
     bind (query (\<lambda>s. list_ex (\<lambda>r. cUuid r = u) (vmsT s))) (\<lambda>rows.
     bind (modify (\<lambda>s. s\<lparr>vmsT := filter (\<lambda>r. cUuid r \<noteq> u) (vmsT s),
                          routesT := filter (\<lambda>r. rVmUuid r \<noteq> u) (routesT s)\<rparr>)) (\<lambda>_.
     bind call (\<lambda>_.
     if \<not> rows then throw (Wrap ''vm'' (Sentinel ErrNotFound)) else ret ())))"

section \<open>Routes\<close>

definition joinRoute :: "'z store_scheme \<Rightarrow> routeRow \<Rightarrow> Route option" where
  "joinRoute s r = map_option (scanRoute r) (find (\<lambda>v. cUuid v = rVmUuid r) (vmsT s))"

definition GetRoute :: "string \<Rightarrow> ('z store_scheme, Route) prog" where
  "GetRoute n = bind (query (\<lambda>s. Option.bind (find (\<lambda>r. rName r = n) (routesT s)) (joinRoute s))) (\<lambda>row.
     case row of None \<Rightarrow> throw (Sentinel ErrNotFound) | Some r \<Rightarrow> ret r)"

definition CreateRoute :: "CreateRouteParams \<Rightarrow> ('z store_scheme, Route) prog" where
  "CreateRoute p =
     bind call (\<lambda>_.
     bind (query (\<lambda>s. list_ex (\<lambda>r. cName r = crName p) (vmsT s))) (\<lambda>vmExists.
     if vmExists then throw (Wrap ''VM reserves route name'' (Sentinel StoreErrAlreadyExists)) else
     bind (query (\<lambda>s. list_ex (\<lambda>r. cUuid r = crVMUUID p) (vmsT s))) (\<lambda>vmExists.
     if \<not> vmExists then throw (Wrap ''vm'' (Sentinel ErrNotFound)) else
     bind (query (\<lambda>s. list_ex (\<lambda>r. rName r = crName p) (routesT s) \<or>
             crIsDefault p \<and> list_ex (\<lambda>r. rVmUuid r = crVMUUID p \<and> rIsDefault r = 1) (routesT s))) (\<lambda>conflict.
     if conflict then throw (Msg ''UNIQUE constraint failed: routes'') else
     if \<not> (1 \<le> crPort p \<and> crPort p \<le> 65535) then throw (Msg ''CHECK constraint failed: port'') else
     bind (exec (\<lambda>s. s\<lparr>routesT := routesT s @ [\<lparr>rName = crName p, rVmUuid = crVMUUID p,
             rPort = crPort p, rIsDefault = boolInt (crIsDefault p)\<rparr>]\<rparr>)) (\<lambda>_.
     GetRoute (crName p))))))"

definition ListRoutes :: "('z store_scheme, Route list) prog" where
  "ListRoutes = query (\<lambda>s. List.map_filter (joinRoute s) (sort_key rName (routesT s)))"

definition DeleteRoute :: "string \<Rightarrow> ('z store_scheme, unit) prog" where
  "DeleteRoute n =
     bind (query (\<lambda>s. list_ex (\<lambda>r. rName r = n) (routesT s))) (\<lambda>rows.
     bind (modify (\<lambda>s. s\<lparr>routesT := filter (\<lambda>r. rName r \<noteq> n) (routesT s)\<rparr>)) (\<lambda>_.
     bind call (\<lambda>_.
     if \<not> rows then throw (Wrap ''route'' (Sentinel ErrNotFound)) else ret ())))"

definition DeleteRoutesForVM :: "string \<Rightarrow> ('z store_scheme, unit) prog" where
  "DeleteRoutesForVM u = exec (\<lambda>s. s\<lparr>routesT := filter (\<lambda>r. rVmUuid r \<noteq> u) (routesT s)\<rparr>)"

definition VMExists :: "string \<Rightarrow> ('z store_scheme, bool) prog" where
  "VMExists n = query (\<lambda>s. list_ex (\<lambda>r. cName r = n) (vmsT s))"

definition RouteExists :: "string \<Rightarrow> ('z store_scheme, bool) prog" where
  "RouteExists n = query (\<lambda>s. list_ex (\<lambda>r. rName r = n) (routesT s))"

section \<open>Snapshots\<close>

definition GetSnapshot :: "string \<Rightarrow> ('z store_scheme, Snapshot) prog" where
  "GetSnapshot n = bind (query (\<lambda>s. find (\<lambda>r. sName r = n) (snapshotsT s))) (\<lambda>row.
     case row of None \<Rightarrow> throw (Sentinel ErrNotFound) | Some r \<Rightarrow> ret (scanSnapshot r))"

definition snapshotRowOf :: "string \<Rightarrow> CreateSnapshotParams \<Rightarrow> snapshotRow" where
  "snapshotRowOf now p = \<lparr>sName = csName p, sSourceVmUuid = Some (csSourceVMUUID p),
     sSourceVm = Some (csSourceVM p), sStatePath = csStatePath p, sMemPath = csMemPath p,
     sDiskPath = csDiskPath p, sBaseImageId = csBaseImageID p, sKernelId = csKernelID p,
     sBaseImageMetadata = csBaseImageMetadata p, sCreatedAt = now\<rparr>"

definition CreateSnapshot :: "CreateSnapshotParams \<Rightarrow> ('z store_scheme, Snapshot) prog" where
  "CreateSnapshot p =
     bind (query (\<lambda>s. list_ex (\<lambda>r. sName r = csName p) (snapshotsT s))) (\<lambda>conflict.
     if conflict then throw (Msg ''UNIQUE constraint failed: snapshots.name'') else
     bind (modify (\<lambda>s. s\<lparr>snapshotsT := snapshotsT s @ [snapshotRowOf (sqlnow s) p]\<rparr>)) (\<lambda>_.
     GetSnapshot (csName p)))"

definition ListSnapshots :: "('z store_scheme, Snapshot list) prog" where
  "ListSnapshots = query (\<lambda>s. map scanSnapshot (sort_key sName (snapshotsT s)))"

definition SnapshotExists :: "string \<Rightarrow> ('z store_scheme, bool) prog" where
  "SnapshotExists n = query (\<lambda>s. list_ex (\<lambda>r. sName r = n) (snapshotsT s))"

definition DeleteSnapshot :: "string \<Rightarrow> ('z store_scheme, unit) prog" where
  "DeleteSnapshot n =
     bind (query (\<lambda>s. list_ex (\<lambda>r. sName r = n) (snapshotsT s))) (\<lambda>rows.
     bind (modify (\<lambda>s. s\<lparr>snapshotsT := filter (\<lambda>r. sName r \<noteq> n) (snapshotsT s)\<rparr>)) (\<lambda>_.
     bind call (\<lambda>_.
     if \<not> rows then throw (Wrap ''snapshot'' (Sentinel ErrNotFound)) else ret ())))"

section \<open>Protected host names\<close>

definition NormalizeHostname :: "string \<Rightarrow> string" where
  "NormalizeHostname hostname = trimSuffix (toLower (trimSpace hostname)) ''.''"

definition ProtectRouteHostname :: "string \<Rightarrow> ('z store_scheme, unit) prog" where
  "ProtectRouteHostname hostname = (let h = NormalizeHostname hostname in
     exec (\<lambda>s. if h \<in> set (protectionsT s) then s else s\<lparr>protectionsT := protectionsT s @ [h]\<rparr>))"

definition UnprotectRouteHostname :: "string \<Rightarrow> ('z store_scheme, unit) prog" where
  "UnprotectRouteHostname hostname = (let h = NormalizeHostname hostname in
     exec (\<lambda>s. s\<lparr>protectionsT := filter (\<lambda>x. x \<noteq> h) (protectionsT s)\<rparr>))"

definition IsRouteHostnameProtected :: "string \<Rightarrow> ('z store_scheme, bool) prog" where
  "IsRouteHostnameProtected hostname = (let h = NormalizeHostname hostname in
     query (\<lambda>s. list_ex (\<lambda>x. x = h) (protectionsT s)))"

definition ListRouteProtections :: "('z store_scheme, string list) prog" where
  "ListRouteProtections = query (\<lambda>s. sort (protectionsT s))"

section \<open>The table invariant\<close>

text \<open>
  Keys are unique, every route belongs to a virtual machine, ports are ports, a machine has at
  most one default route, and no route has the name of a machine (both become host names below
  the base domain).
\<close>

definition wfStore :: "'z store_scheme \<Rightarrow> bool" where
  "wfStore s \<longleftrightarrow>
     distinct (map cUuid (vmsT s)) \<and> distinct (map cName (vmsT s)) \<and>
     distinct (map rName (routesT s)) \<and> distinct (map sName (snapshotsT s)) \<and>
     distinct (protectionsT s) \<and>
     (\<forall>r \<in> set (routesT s). rVmUuid r \<in> cUuid ` set (vmsT s) \<and> 1 \<le> rPort r \<and> rPort r \<le> 65535 \<and>
        rName r \<notin> cName ` set (vmsT s) \<and> (rIsDefault r = 0 \<or> rIsDefault r = 1)) \<and>
     distinct (map rVmUuid (filter (\<lambda>r. rIsDefault r = 1) (routesT s)))"

subsection \<open>Rules for statements\<close>

lemma wp_call_frame:
  assumes "\<And>rs. Q () (s\<lparr>outcomes := rs\<rparr>)" and "\<And>e rs. E e (s\<lparr>outcomes := rs\<rparr>)"
  shows "wp call Q E s"
  using assms by (intro wp_callI) (auto dest: meta_spec [of _ "outcomes s"])

lemma wp_query_frame:
  assumes "\<And>rs. Q (f (s\<lparr>outcomes := rs\<rparr>)) (s\<lparr>outcomes := rs\<rparr>)" and "\<And>e rs. E e (s\<lparr>outcomes := rs\<rparr>)"
  shows "wp (query f) Q E s"
  unfolding query_def wp_bind by (rule wp_call_frame) (auto simp: wp_gets assms)

lemma wp_exec_frame:
  assumes "\<And>rs. Q () (f (s\<lparr>outcomes := rs\<rparr>))" and "\<And>e rs. E e (s\<lparr>outcomes := rs\<rparr>)"
  shows "wp (exec f) Q E s"
  unfolding exec_def wp_bind by (rule wp_call_frame) (auto simp: wp_modify assms)

lemma wp_updateVMRow:
  assumes "\<And>rs rs'. list_ex (\<lambda>r. cUuid r = u) (vmsT s) \<Longrightarrow>
      Q () (s\<lparr>outcomes := rs', vmsT := map (\<lambda>r. if cUuid r = u then f (s\<lparr>outcomes := rs\<rparr>) r else r) (vmsT s)\<rparr>)"
    and "\<And>e rs. E e (s\<lparr>outcomes := rs\<rparr>)"
    and "\<And>e rs rs'. E e (s\<lparr>outcomes := rs', vmsT := map (\<lambda>r. if cUuid r = u then f (s\<lparr>outcomes := rs\<rparr>) r else r) (vmsT s)\<rparr>)"
  shows "wp (updateVMRow u f) Q E s"
  unfolding updateVMRow_def wp_bind
proof (rule wp_query_frame, unfold wp_modify)
  fix rs
  let ?t = "\<lambda>rs'. s\<lparr>outcomes := rs', vmsT := map (\<lambda>r. if cUuid r = u then f (s\<lparr>outcomes := rs\<rparr>) r else r) (vmsT s)\<rparr>"
  have swap: "(s\<lparr>outcomes := rs\<rparr>)\<lparr>vmsT := x\<rparr>\<lparr>outcomes := rs'\<rparr> = s\<lparr>outcomes := rs', vmsT := x\<rparr>" for rs' x by simp
  show "wp call (\<lambda>_. wp (if \<not> list_ex (\<lambda>r. cUuid r = u) (vmsT (s\<lparr>outcomes := rs\<rparr>))
        then throw (Wrap ''vm'' (Sentinel ErrNotFound)) else ret ()) Q E) E
      (s\<lparr>outcomes := rs\<rparr>\<lparr>vmsT := map (\<lambda>r. if cUuid r = u then f (s\<lparr>outcomes := rs\<rparr>) r else r) (vmsT (s\<lparr>outcomes := rs\<rparr>))\<rparr>)"
    by (rule wp_call_frame; unfold swap) (auto simp: wp_rules intro: assms)
qed (rule assms)

lemma wp_GetVM:
  assumes "\<And>rs r. find (\<lambda>r. cUuid r = u) (vmsT s) = Some r \<Longrightarrow> Q (scanVM r) (s\<lparr>outcomes := rs\<rparr>)"
    and "\<And>e rs. E e (s\<lparr>outcomes := rs\<rparr>)"
  shows "wp (GetVM u) Q E s"
  unfolding GetVM_def wp_bind by (rule wp_query_frame) (auto simp: wp_rules intro: assms split: option.splits)

lemma keeps_modify: "(\<And>s. I s \<Longrightarrow> I (f s)) \<Longrightarrow> keeps I (modify f)"
  by (simp add: keeps_def modify_def)

lemma keeps_query [keeps_rules]: "outcome_blind I \<Longrightarrow> keeps I (query f)"
  unfolding query_def by (intro keeps_rules)

lemma keeps_exec: "outcome_blind I \<Longrightarrow> (\<And>s. I s \<Longrightarrow> I (f s)) \<Longrightarrow> keeps I (exec f)"
  unfolding exec_def by (intro keeps_rules keeps_modify)

lemma keeps_updateVMRow:
  assumes "outcome_blind I"
    and "\<And>s. I s \<Longrightarrow> I (s\<lparr>vmsT := map (\<lambda>r. if cUuid r = u then f s r else r) (vmsT s)\<rparr>)"
  shows "keeps I (updateVMRow u f)"
  unfolding updateVMRow_def using assms by (intro keeps_rules keeps_modify)

lemma keeps_wpI: "(\<And>s. I s \<Longrightarrow> wp m (\<lambda>_. I) (\<lambda>_. I) s) \<Longrightarrow> keeps I m"
  by (force simp: keeps_def wp_def split: prod.splits sum.splits)

lemma query_fault_free [simp]: "fault_free s \<Longrightarrow> query f s = (Inr (f s), s)"
  by (simp add: query_def bind_def gets_def)

lemma exec_fault_free [simp]: "fault_free s \<Longrightarrow> exec f s = (Inr (), f s)"
  by (simp add: exec_def bind_def modify_def)

lemma updateVMRow_fault_free:
  "fault_free s \<Longrightarrow> updateVMRow u f s =
     (if list_ex (\<lambda>r. cUuid r = u) (vmsT s) then Inr () else Inl (Wrap ''vm'' (Sentinel ErrNotFound)),
      s\<lparr>vmsT := map (\<lambda>r. if cUuid r = u then f s r else r) (vmsT s)\<rparr>)"
  by (simp add: updateVMRow_def bind_def modify_def ret_def throw_def)

subsection \<open>Every method keeps the invariant\<close>

lemma wfStore_blind [simp]: "outcome_blind wfStore"
  by (simp add: outcome_blind_def wfStore_def)

lemma wfStore_outcomes [simp]: "wfStore (s\<lparr>outcomes := rs\<rparr>) = wfStore s"
  by (simp add: wfStore_def)

lemma map_if_key: "(\<And>r. g (f r) = g r) \<Longrightarrow> map g (map (\<lambda>r. if P r then f r else r) xs) = map g xs"
  by (induction xs) auto

lemma wfStore_update_rows:
  assumes "wfStore s" and uu: "\<And>r. cUuid (f r) = cUuid r" and nn: "\<And>r. cName (f r) = cName r"
  shows "wfStore (s\<lparr>vmsT := map (\<lambda>r. if cUuid r = u then f r else r) (vmsT s)\<rparr>)"
proof -
  let ?g = "\<lambda>r. if cUuid r = u then f r else r"
  have m: "map cUuid (map ?g (vmsT s)) = map cUuid (vmsT s)" "map cName (map ?g (vmsT s)) = map cName (vmsT s)"
    by (rule map_if_key, rule uu) (rule map_if_key, rule nn)
  then have "cUuid ` set (map ?g (vmsT s)) = cUuid ` set (vmsT s)"
    "cName ` set (map ?g (vmsT s)) = cName ` set (vmsT s)"
    by (metis set_map)+
  with m assms(1) show ?thesis by (simp add: wfStore_def del: map_map set_map)
qed

lemma keeps_wfStore_updateVMRow:
  assumes "\<And>s r. cUuid (f s r) = cUuid r" and "\<And>s r. cName (f s r) = cName r"
  shows "keeps wfStore (updateVMRow u f)"
  using assms by (intro keeps_updateVMRow wfStore_update_rows wfStore_blind)

lemma GetVM_keeps [keeps_rules]: "outcome_blind I \<Longrightarrow> keeps I (GetVM u)"
  unfolding GetVM_def by (intro keeps_rules)

lemma GetVMByName_keeps [keeps_rules]: "outcome_blind I \<Longrightarrow> keeps I (GetVMByName n)"
  unfolding GetVMByName_def by (intro keeps_rules)

lemma GetVMByPrivateIP_keeps [keeps_rules]: "outcome_blind I \<Longrightarrow> keeps I (GetVMByPrivateIP ip)"
  unfolding GetVMByPrivateIP_def by (intro keeps_rules)

lemma GetRoute_keeps [keeps_rules]: "outcome_blind I \<Longrightarrow> keeps I (GetRoute n)"
  unfolding GetRoute_def by (intro keeps_rules)

lemma GetSnapshot_keeps [keeps_rules]: "outcome_blind I \<Longrightarrow> keeps I (GetSnapshot n)"
  unfolding GetSnapshot_def by (intro keeps_rules)

lemma reads_keep [keeps_rules]:
  "outcome_blind I \<Longrightarrow> keeps I (ListVMsMatching ps)" "outcome_blind I \<Longrightarrow> keeps I ListVMs"
  "outcome_blind I \<Longrightarrow> keeps I CountVMs" "outcome_blind I \<Longrightarrow> keeps I ListRoutes"
  "outcome_blind I \<Longrightarrow> keeps I (VMExists n)" "outcome_blind I \<Longrightarrow> keeps I (RouteExists n)"
  "outcome_blind I \<Longrightarrow> keeps I ListSnapshots" "outcome_blind I \<Longrightarrow> keeps I (SnapshotExists n)"
  "outcome_blind I \<Longrightarrow> keeps I (IsRouteHostnameProtected h)" "outcome_blind I \<Longrightarrow> keeps I ListRouteProtections"
  unfolding ListVMsMatching_def ListVMs_def CountVMs_def ListRoutes_def VMExists_def RouteExists_def
    ListSnapshots_def SnapshotExists_def IsRouteHostnameProtected_def ListRouteProtections_def Let_def
  by (intro keeps_query; assumption)+

lemma SetVMState_wf [keeps_rules]: "keeps wfStore (SetVMState u st)"
  unfolding SetVMState_def by (rule keeps_wfStore_updateVMRow) simp_all

lemma TouchVMActivity_wf [keeps_rules]: "keeps wfStore (TouchVMActivity u)"
  unfolding TouchVMActivity_def by (rule keeps_wfStore_updateVMRow) simp_all

lemma SetVMArchivedDiskPath_wf [keeps_rules]: "keeps wfStore (SetVMArchivedDiskPath u p)"
  unfolding SetVMArchivedDiskPath_def by (rule keeps_wfStore_updateVMRow) simp_all

lemma UpdateVM_wf [keeps_rules]: "keeps wfStore (UpdateVM u p)"
  unfolding UpdateVM_def Let_def
  by (intro keeps_rules keeps_wfStore_updateVMRow wfStore_blind) simp_all

lemma wfStore_insertVM:
  assumes "wfStore s" and "\<not> list_ex (\<lambda>r. rName r = cName v) (routesT s)"
    and "\<not> list_ex (\<lambda>r. cUuid r = cUuid v \<or> cName r = cName v) (vmsT s)"
  shows "wfStore (s\<lparr>vmsT := vmsT s @ [v]\<rparr>)"
  using assms by (auto simp: wfStore_def list_ex_iff)

lemma CreateVM_wf [keeps_rules]: "keeps wfStore (CreateVM uuidParses newUUID p)"
proof (rule keeps_wpI)
  fix s :: "'a store_scheme" assume wf: "wfStore s"
  have get: "wfStore t \<Longrightarrow> wp (GetVM u) (\<lambda>_. wfStore) (\<lambda>_. wfStore) t" for u and t :: "'a store_scheme"
    by (rule keeps_wp) (intro keeps_rules wfStore_blind)
  have ins: "wfStore (s\<lparr>outcomes := rs, vmsT := vmsT s @ [vmRowOf (sqlnow s) newUUID p]\<rparr>)"
    if "\<not> list_ex (\<lambda>r. rName r = cpName p) (routesT s)"
      "\<not> list_ex (\<lambda>r. cUuid r = newUUID \<or> cName r = cpName p) (vmsT s)" for rs
    using wfStore_insertVM [of "s\<lparr>outcomes := rs\<rparr>" "vmRowOf (sqlnow s) newUUID p"] that wf
    by (simp add: vmRowOf_def)
  show "wp (CreateVM uuidParses newUUID p) (\<lambda>_. wfStore) (\<lambda>_. wfStore) s"
    unfolding CreateVM_def using wf ins
    by (auto simp: wp_rules intro!: wp_call_frame wp_query_frame wp_exec_frame get)
qed

lemma DeleteVM_wf [keeps_rules]: "keeps wfStore (DeleteVM u)"
  unfolding DeleteVM_def
proof (intro keeps_rules keeps_modify wfStore_blind)
  fix s :: "'a store_scheme" assume "wfStore s"
  then show "wfStore (s\<lparr>vmsT := filter (\<lambda>r. cUuid r \<noteq> u) (vmsT s), routesT := filter (\<lambda>r. rVmUuid r \<noteq> u) (routesT s)\<rparr>)"
    using distinct_map_filter [of rVmUuid "filter (\<lambda>r. rIsDefault r = 1) (routesT s)" "\<lambda>r. rVmUuid r \<noteq> u"]
    by (auto simp: wfStore_def distinct_map_filter conj_commute)
qed

lemma wfStore_insertRoute:
  assumes "wfStore s" and "\<not> list_ex (\<lambda>v. cName v = rName r) (vmsT s)"
    and "list_ex (\<lambda>v. cUuid v = rVmUuid r) (vmsT s)" and "1 \<le> rPort r" and "rPort r \<le> 65535"
    and "\<not> (list_ex (\<lambda>q. rName q = rName r) (routesT s) \<or>
           rIsDefault r = 1 \<and> list_ex (\<lambda>q. rVmUuid q = rVmUuid r \<and> rIsDefault q = 1) (routesT s))"
    and "rIsDefault r = 0 \<or> rIsDefault r = 1"
  shows "wfStore (s\<lparr>routesT := routesT s @ [r]\<rparr>)"
  using assms by (auto simp: wfStore_def list_ex_iff intro: rev_image_eqI)

lemma CreateRoute_wf [keeps_rules]: "keeps wfStore (CreateRoute p)"
proof (rule keeps_wpI)
  fix s :: "'a store_scheme" assume wf: "wfStore s"
  let ?r = "\<lparr>rName = crName p, rVmUuid = crVMUUID p, rPort = crPort p, rIsDefault = boolInt (crIsDefault p)\<rparr>"
  have get: "wfStore t \<Longrightarrow> wp (GetRoute n) (\<lambda>_. wfStore) (\<lambda>_. wfStore) t" for n and t :: "'a store_scheme"
    by (rule keeps_wp) (intro keeps_rules wfStore_blind)
  have ins: "wfStore (s\<lparr>outcomes := rs, routesT := routesT s @ [?r]\<rparr>)"
    if "\<not> list_ex (\<lambda>v. cName v = crName p) (vmsT s)" "list_ex (\<lambda>v. cUuid v = crVMUUID p) (vmsT s)"
      "\<not> (list_ex (\<lambda>q. rName q = crName p) (routesT s) \<or>
          crIsDefault p \<and> list_ex (\<lambda>q. rVmUuid q = crVMUUID p \<and> rIsDefault q = 1) (routesT s))"
      "1 \<le> crPort p" "crPort p \<le> 65535" for rs
    using wfStore_insertRoute [of "s\<lparr>outcomes := rs\<rparr>" ?r] that wf by (simp add: boolInt_def split: if_splits)
  show "wp (CreateRoute p) (\<lambda>_. wfStore) (\<lambda>_. wfStore) s"
    unfolding CreateRoute_def using wf ins
    by (auto simp: wp_rules intro!: wp_call_frame wp_query_frame wp_exec_frame get)
qed

lemma wfStore_filter_routes: "wfStore s \<Longrightarrow> wfStore (s\<lparr>routesT := filter P (routesT s)\<rparr>)"
  using distinct_map_filter [of rVmUuid "filter (\<lambda>r. rIsDefault r = 1) (routesT s)" P]
  by (auto simp: wfStore_def distinct_map_filter conj_commute)

lemma DeleteRoute_wf [keeps_rules]: "keeps wfStore (DeleteRoute n)"
  unfolding DeleteRoute_def
  by (intro keeps_rules keeps_modify wfStore_blind wfStore_filter_routes)

lemma DeleteRoutesForVM_wf [keeps_rules]: "keeps wfStore (DeleteRoutesForVM u)"
  unfolding DeleteRoutesForVM_def by (intro keeps_exec wfStore_blind wfStore_filter_routes)

lemma CreateSnapshot_wf [keeps_rules]: "keeps wfStore (CreateSnapshot p)"
proof (rule keeps_wpI)
  fix s :: "'a store_scheme" assume wf: "wfStore s"
  have get: "wfStore t \<Longrightarrow> wp (GetSnapshot n) (\<lambda>_. wfStore) (\<lambda>_. wfStore) t" for n and t :: "'a store_scheme"
    by (rule keeps_wp) (intro keeps_rules wfStore_blind)
  have ins: "wfStore (s\<lparr>outcomes := rs, snapshotsT := snapshotsT s @ [snapshotRowOf (sqlnow s) p]\<rparr>)"
    if "\<not> list_ex (\<lambda>r. sName r = csName p) (snapshotsT s)" for rs
    using that wf by (auto simp: wfStore_def list_ex_iff snapshotRowOf_def)
  show "wp (CreateSnapshot p) (\<lambda>_. wfStore) (\<lambda>_. wfStore) s"
    unfolding CreateSnapshot_def using wf ins
    by (auto simp: wp_rules intro!: wp_query_frame get)
qed

lemma DeleteSnapshot_wf [keeps_rules]: "keeps wfStore (DeleteSnapshot n)"
  unfolding DeleteSnapshot_def
  by (intro keeps_rules keeps_modify wfStore_blind) (auto simp: wfStore_def distinct_map_filter)

lemma ProtectRouteHostname_wf [keeps_rules]: "keeps wfStore (ProtectRouteHostname h)"
  unfolding ProtectRouteHostname_def Let_def
  by (intro keeps_exec wfStore_blind) (auto simp: wfStore_def)

lemma UnprotectRouteHostname_wf [keeps_rules]: "keeps wfStore (UnprotectRouteHostname h)"
  unfolding UnprotectRouteHostname_def Let_def
  by (intro keeps_exec wfStore_blind) (auto simp: wfStore_def)

text \<open>
  C8: Every writing method of the store keeps the table invariant, whatever its arguments and
  whichever of its statements the database driver fails: unique machine UUIDs and names, unique
  route and snapshot names, every route owned by an existing machine with a port in range, at most
  one default route per machine, and no route that shares its name with a machine.
\<close>

theorem store_methods_keep_wfStore:
  "keeps wfStore (CreateVM uuidParses newUUID cp) \<and> keeps wfStore (UpdateVM u up) \<and>
   keeps wfStore (SetVMState u st) \<and> keeps wfStore (TouchVMActivity u) \<and>
   keeps wfStore (SetVMArchivedDiskPath u path) \<and> keeps wfStore (Store.DeleteVM u) \<and>
   keeps wfStore (CreateRoute rp) \<and> keeps wfStore (DeleteRoute n) \<and> keeps wfStore (DeleteRoutesForVM u) \<and>
   keeps wfStore (CreateSnapshot sp) \<and> keeps wfStore (DeleteSnapshot n) \<and>
   keeps wfStore (ProtectRouteHostname h) \<and> keeps wfStore (UnprotectRouteHostname h)"
  by (intro conjI keeps_rules)

section \<open>Lookup after update\<close>

text \<open>
  The contract of a table: reading a key returns what the abstract content holds and changes
  nothing; deleting a present key removes exactly that key.
\<close>

locale keyed_table =
  fixes content :: "'z store_scheme \<Rightarrow> string \<Rightarrow> 'v option"
    and get :: "string \<Rightarrow> ('z store_scheme, 'v) prog"
    and del :: "string \<Rightarrow> ('z store_scheme, unit) prog"
    and missing :: err
  assumes get_ok: "fault_free s \<Longrightarrow> get k s = (case content s k of None \<Rightarrow> Inl (Sentinel ErrNotFound) | Some v \<Rightarrow> Inr v, s)"
    and del_ok: "fault_free s \<Longrightarrow> wfStore s \<Longrightarrow> content s k = Some v \<Longrightarrow>
      \<exists>t. del k s = (Inr (), t) \<and> fault_free t \<and> content t = (content s)(k := None)"
    and del_missing: "fault_free s \<Longrightarrow> wfStore s \<Longrightarrow> content s k = None \<Longrightarrow> fst (del k s) = Inl missing"
    and del_wf: "keeps wfStore (del k)"
begin

lemma get_after_del:
  assumes "fault_free s" and "wfStore s" and "content s k = Some v"
  shows "\<exists>t. del k s = (Inr (), t) \<and> wfStore t \<and> get k t = (Inl (Sentinel ErrNotFound), t) \<and>
     fst (del k t) = Inl missing \<and> (\<forall>j. j \<noteq> k \<longrightarrow> fst (get j t) = fst (get j s))"
proof -
  obtain t where t: "del k s = (Inr (), t)" "fault_free t" "content t = (content s)(k := None)"
    using del_ok [OF assms] by blast
  have wf: "wfStore t" using keepsD [OF del_wf assms(2), of k] t(1) by simp
  with t assms(1) show ?thesis by (auto simp: get_ok del_missing)
qed

end

lemma find_filter_ne: "find (\<lambda>r. key r = j) (filter (\<lambda>r. key r \<noteq> k) rows) = (if j = k then None else find (\<lambda>r. key r = j) rows)"
  by (induction rows) auto

lemma find_append: "find P (xs @ ys) = (case find P xs of None \<Rightarrow> find P ys | Some x \<Rightarrow> Some x)"
  by (induction xs) auto

lemma list_ex_find: "list_ex P xs \<longleftrightarrow> find P xs \<noteq> None"
  by (induction xs) auto

definition vmContent :: "'z store_scheme \<Rightarrow> string \<Rightarrow> VM option" where
  "vmContent s u = map_option scanVM (find (\<lambda>r. cUuid r = u) (vmsT s))"

definition routeContent :: "'z store_scheme \<Rightarrow> string \<Rightarrow> Route option" where
  "routeContent s n = Option.bind (find (\<lambda>r. rName r = n) (routesT s)) (joinRoute s)"

definition snapshotContent :: "'z store_scheme \<Rightarrow> string \<Rightarrow> Snapshot option" where
  "snapshotContent s n = map_option scanSnapshot (find (\<lambda>r. sName r = n) (snapshotsT s))"

lemma GetVM_fault_free:
  "fault_free s \<Longrightarrow> GetVM u s = (case vmContent s u of None \<Rightarrow> Inl (Sentinel ErrNotFound) | Some v \<Rightarrow> Inr v, s)"
  by (auto simp: GetVM_def bind_def ret_def throw_def vmContent_def split: option.splits)

lemma GetRoute_fault_free:
  "fault_free s \<Longrightarrow> GetRoute n s = (case routeContent s n of None \<Rightarrow> Inl (Sentinel ErrNotFound) | Some v \<Rightarrow> Inr v, s)"
  by (auto simp: GetRoute_def bind_def ret_def throw_def routeContent_def split: option.splits)

lemma GetSnapshot_fault_free:
  "fault_free s \<Longrightarrow> GetSnapshot n s = (case snapshotContent s n of None \<Rightarrow> Inl (Sentinel ErrNotFound) | Some v \<Rightarrow> Inr v, s)"
  by (auto simp: GetSnapshot_def bind_def ret_def throw_def snapshotContent_def split: option.splits)

interpretation vms: keyed_table vmContent GetVM Store.DeleteVM "Wrap ''vm'' (Sentinel ErrNotFound)"
proof unfold_locales
  fix s :: "'a store_scheme" and k v
  assume "fault_free s" "vmContent s k = Some v"
  then show "\<exists>t. Store.DeleteVM k s = (Inr (), t) \<and> fault_free t \<and> vmContent t = (vmContent s)(k := None)"
    by (auto simp: DeleteVM_def bind_def modify_def ret_def throw_def vmContent_def list_ex_find
        find_filter_ne fun_eq_iff)
next
  fix k show "keeps wfStore (Store.DeleteVM k)" by (rule DeleteVM_wf)
qed (auto simp: GetVM_fault_free DeleteVM_def bind_def modify_def ret_def throw_def vmContent_def list_ex_find)

interpretation snapshots: keyed_table snapshotContent GetSnapshot Store.DeleteSnapshot "Wrap ''snapshot'' (Sentinel ErrNotFound)"
proof unfold_locales
  fix s :: "'a store_scheme" and k v
  assume "fault_free s" "snapshotContent s k = Some v"
  then show "\<exists>t. Store.DeleteSnapshot k s = (Inr (), t) \<and> fault_free t \<and> snapshotContent t = (snapshotContent s)(k := None)"
    by (auto simp: DeleteSnapshot_def bind_def modify_def ret_def throw_def snapshotContent_def list_ex_find
        find_filter_ne fun_eq_iff)
next
  fix k show "keeps wfStore (Store.DeleteSnapshot k)" by (rule DeleteSnapshot_wf)
qed (auto simp: GetSnapshot_fault_free DeleteSnapshot_def bind_def modify_def ret_def throw_def snapshotContent_def
      list_ex_find)

text \<open>Under the invariant the join of a route with its machine never loses the route.\<close>

lemma routeContent_wf:
  assumes "wfStore s"
  shows "routeContent s n = None \<longleftrightarrow> find (\<lambda>r. rName r = n) (routesT s) = None"
proof (cases "find (\<lambda>r. rName r = n) (routesT s)")
  case (Some r)
  then have "r \<in> set (routesT s)" by (metis find_Some_iff nth_mem)
  with assms have "rVmUuid r \<in> cUuid ` set (vmsT s)" by (simp add: wfStore_def)
  then have "find (\<lambda>v. cUuid v = rVmUuid r) (vmsT s) \<noteq> None" by (auto simp: find_None_iff)
  with Some show ?thesis by (simp add: routeContent_def joinRoute_def)
qed (simp add: routeContent_def)

lemma joinRoute_routesT [simp]: "joinRoute (s\<lparr>routesT := rs\<rparr>) = joinRoute s"
  by (simp add: joinRoute_def fun_eq_iff)

interpretation routes: keyed_table routeContent GetRoute DeleteRoute "Wrap ''route'' (Sentinel ErrNotFound)"
proof unfold_locales
  fix s :: "'a store_scheme" and k v
  assume "fault_free s" "wfStore s" "routeContent s k = Some v"
  moreover from calculation have "find (\<lambda>r. rName r = k) (routesT s) \<noteq> None" by (metis option.distinct(1) routeContent_wf)
  ultimately show "\<exists>t. DeleteRoute k s = (Inr (), t) \<and> fault_free t \<and> routeContent t = (routeContent s)(k := None)"
    by (auto simp: DeleteRoute_def bind_def modify_def ret_def throw_def routeContent_def list_ex_find
        find_filter_ne fun_eq_iff)
next
  fix k show "keeps wfStore (DeleteRoute k)" by (rule DeleteRoute_wf)
qed (auto simp: GetRoute_fault_free DeleteRoute_def bind_def modify_def ret_def throw_def
      list_ex_find routeContent_wf)

section \<open>What the writing methods return\<close>

lemma CreateVM_fault_free:
  assumes "fault_free s"
  shows "CreateVM uuidParses u p s =
     (if uuidParses (cpName p) then (Inl (Msg ''vm name must not be UUID-shaped''), s)
      else if list_ex (\<lambda>r. rName r = cpName p) (routesT s)
        then (Inl (Wrap ''route reserves VM name'' (Sentinel StoreErrAlreadyExists)), s)
      else if list_ex (\<lambda>r. cUuid r = u \<or> cName r = cpName p) (vmsT s)
        then (Inl (Msg ''UNIQUE constraint failed: vms''), s)
      else (Inr (scanVM (vmRowOf (sqlnow s) u p)), s\<lparr>vmsT := vmsT s @ [vmRowOf (sqlnow s) u p]\<rparr>))"
proof -
  have "vmContent (s\<lparr>vmsT := vmsT s @ [v]\<rparr>) (cUuid v) = Some (scanVM v)"
    if "\<not> list_ex (\<lambda>r. cUuid r = cUuid v) (vmsT s)" for v
    using that by (auto simp: vmContent_def list_ex_find find_append)
  from this [of "vmRowOf (sqlnow s) u p"] assms show ?thesis
    by (auto simp: CreateVM_def bind_def throw_def GetVM_fault_free vmRowOf_def list_ex_iff)
qed

lemma CreateRoute_fault_free:
  assumes "fault_free s" and "wfStore s" and "\<not> list_ex (\<lambda>v. cName v = crName p) (vmsT s)"
    and "vmContent s (crVMUUID p) = Some vm" and "\<not> list_ex (\<lambda>r. rName r = crName p) (routesT s)"
    and "crIsDefault p \<Longrightarrow> \<not> list_ex (\<lambda>r. rVmUuid r = crVMUUID p \<and> rIsDefault r = 1) (routesT s)"
    and "1 \<le> crPort p" and "crPort p \<le> 65535"
  shows "\<exists>t. CreateRoute p s = (Inr \<lparr>routeName = crName p, routeVMUUID = crVMUUID p, routeVMName = vmName vm,
            routePort = crPort p, routeIsDefault = crIsDefault p\<rparr>, t) \<and>
     routesT t = routesT s @ [\<lparr>rName = crName p, rVmUuid = crVMUUID p, rPort = crPort p, rIsDefault = boolInt (crIsDefault p)\<rparr>] \<and>
     vmsT t = vmsT s"
proof -
  have "list_ex (\<lambda>v. cUuid v = crVMUUID p) (vmsT s)"
    using assms(4) by (auto simp: vmContent_def list_ex_find)
  with assms show ?thesis
    by (auto simp: CreateRoute_def bind_def throw_def GetRoute_fault_free routeContent_def list_ex_find find_append
        joinRoute_def scanRoute_def vmContent_def scanVM_def boolInt_def)
qed

section \<open>Name patterns\<close>

text \<open>The strings a glob denotes, letters compared as SQLite's \<open>LIKE\<close> compares them.\<close>

fun globLang :: "string \<Rightarrow> string set" where
  "globLang [] = {[]}"
| "globLang (p # ps) =
     (if p = CHR ''*'' then {u @ v | u v. v \<in> globLang ps}
      else if p = CHR ''?'' then {c # v | c v. v \<in> globLang ps}
      else {c # v | c v. asciiLower c = asciiLower p \<and> v \<in> globLang ps})"

lemma globLang_star_Cons:
  "c # s \<in> globLang (CHR ''*'' # ps) \<longleftrightarrow> c # s \<in> globLang ps \<or> s \<in> globLang (CHR ''*'' # ps)"
  by (auto simp: Cons_eq_append_conv)

lemma likeMatch_percent:
  assumes "\<And>t. likeMatch q t \<longleftrightarrow> t \<in> globLang ps"
  shows "likeMatch (CHR ''%'' # q) s \<longleftrightarrow> s \<in> globLang (CHR ''*'' # ps)"
proof (induction s)
  case Nil
  show ?case using assms by simp
next
  case (Cons c s)
  show ?case unfolding globLang_star_Cons using assms Cons by simp
qed

text \<open>
  C25: The \<open>LIKE\<close> pattern that \<open>GlobToLike\<close> makes of a name pattern selects exactly the names the
  glob denotes: \<open>*\<close> any string, \<open>?\<close> one character, every other character (the wildcards and the
  escape character of \<open>LIKE\<close> included) itself, up to the case of letters.
\<close>

theorem GlobToLike_correct: "likeMatch (GlobToLike p) s \<longleftrightarrow> s \<in> globLang p"
proof (induction p arbitrary: s)
  case (Cons p ps)
  consider "p = CHR ''*''" | "p \<noteq> CHR ''*''" by blast
  then show ?case
  proof cases
    case 1
    with likeMatch_percent [OF Cons.IH] show ?thesis by simp
  next
    case 2
    with Cons.IH show ?thesis by (cases s) (auto simp: eq_commute)
  qed
qed simp

section \<open>Round trips\<close>

lemma GetVMByName_fault_free:
  "fault_free s \<Longrightarrow> GetVMByName n s =
     (case find (\<lambda>r. cName r = n) (vmsT s) of None \<Rightarrow> Inl (Sentinel ErrNotFound) | Some r \<Rightarrow> Inr (scanVM r), s)"
  by (auto simp: GetVMByName_def bind_def ret_def throw_def split: option.splits)

lemma filter_key_fresh: "\<not> list_ex (\<lambda>r. key r = k) xs \<Longrightarrow> filter (\<lambda>r. key r \<noteq> k) xs = xs"
  by (induction xs) auto

lemma wfStore_route_owner: "wfStore s \<Longrightarrow> \<not> list_ex (\<lambda>r. cUuid r = u) (vmsT s) \<Longrightarrow> \<not> list_ex (\<lambda>r. rVmUuid r = u) (routesT s)"
  by (fastforce simp: wfStore_def list_ex_iff)

text \<open>
  C26: When no statement fails and the name is free, \<open>CreateVM\<close> returns the machine it was asked for,
  stopped and under the fresh UUID.  It can then be read back by UUID and by name, no other machine
  reads differently, and \<open>DeleteVM\<close> takes the tables back to what they were.
\<close>

theorem CreateVM_roundtrip:
  assumes "fault_free s" and "wfStore s" and "\<not> uuidParses (cpName p)"
    and "\<not> list_ex (\<lambda>r. rName r = cpName p) (routesT s)"
    and "\<not> list_ex (\<lambda>r. cUuid r = u \<or> cName r = cpName p) (vmsT s)"
  shows "\<exists>vm t t'. CreateVM uuidParses u p s = (Inr vm, t) \<and>
     vmUUID vm = u \<and> vmName vm = cpName p \<and> vmState vm = ''stopped'' \<and> vmPrivateIP vm = cpPrivateIP p \<and>
     vmAutoWake vm = cpAutoWake p \<and> vmPublicHTTP vm = cpPublicHTTP p \<and>
     GetVM u t = (Inr vm, t) \<and> GetVMByName (cpName p) t = (Inr vm, t) \<and>
     (\<forall>v. v \<noteq> u \<longrightarrow> fst (GetVM v t) = fst (GetVM v s)) \<and>
     Store.DeleteVM u t = (Inr (), t') \<and> vmsT t' = vmsT s \<and> routesT t' = routesT s"
proof -
  let ?r = "vmRowOf (sqlnow s) u p" and ?t = "s\<lparr>vmsT := vmsT s @ [vmRowOf (sqlnow s) u p]\<rparr>"
  have r: "cUuid ?r = u" "cName ?r = cpName p" by (simp_all add: vmRowOf_def)
  have fresh: "\<not> list_ex (\<lambda>r. cUuid r = u) (vmsT s)" "\<not> list_ex (\<lambda>r. cName r = cpName p) (vmsT s)"
    using assms(5) by (auto simp: list_ex_iff)
  have c: "CreateVM uuidParses u p s = (Inr (scanVM ?r), ?t)"
    using assms by (simp add: CreateVM_fault_free)
  have g: "GetVM u ?t = (Inr (scanVM ?r), ?t)" "GetVMByName (cpName p) ?t = (Inr (scanVM ?r), ?t)"
    using assms(1) fresh r
    by (simp_all add: GetVM_fault_free GetVMByName_fault_free vmContent_def find_append list_ex_find)
  have o: "fst (GetVM v ?t) = fst (GetVM v s)" if "v \<noteq> u" for v
    using that assms(1) r by (auto simp: GetVM_fault_free vmContent_def find_append split: option.splits)
  have d: "Store.DeleteVM u ?t = (Inr (), ?t\<lparr>vmsT := vmsT s, routesT := routesT s\<rparr>)"
    using assms(1) r filter_key_fresh [OF fresh(1)] filter_key_fresh [OF wfStore_route_owner [OF assms(2) fresh(1)]]
    by (simp add: DeleteVM_def bind_def modify_def ret_def)
  show ?thesis
    by (intro exI conjI, rule c) (simp_all add: g o d, simp_all add: scanVM_def vmRowOf_def coalesce_def boolToInt_def)
qed

definition emptyStore :: store where
  "emptyStore = \<lparr>outcomes = [], sqlnow = ''2026-01-01T00:00:00.000Z'', clock = 0, seed = 0,
     files = [], vmsT = [], routesT = [],
     snapshotsT = [], protectionsT = []\<rparr>"

definition sampleParams :: CreateVMParams where
  "sampleParams = \<lparr>cpName = ''dev'', cpPrivateIP = ''fd00::1'', cpVCPUs = 2, cpMemoryMinMiB = 512,
     cpMemoryMaxMiB = 1024, cpDiskBytes = 1073741824, cpDefaultHTTPPort = 8080, cpIdleSleepAfterSeconds = 0,
     cpBaseImageID = [], cpKernelID = [], cpBaseImageMetadata = [], cpAutoWake = True,
     cpAutoWakeSet = True, cpPublicHTTP = False\<rparr>"

lemma CreateVM_roundtrip_witness:
  "\<exists>vm t. CreateVM (\<lambda>_. False) ''u1'' sampleParams emptyStore = (Inr vm, t) \<and> vmName vm = ''dev'' \<and>
     GetVM ''u1'' t = (Inr vm, t)"
  using CreateVM_roundtrip [of emptyStore "\<lambda>_. False" sampleParams "''u1''"]
  by (fastforce simp: emptyStore_def sampleParams_def wfStore_def)

text \<open>
  After \<open>DeleteVM\<close> of a stored machine the store is still well formed, the machine is not found,
  deleting it again reports that, and every other machine reads as before.
\<close>

theorem DeleteVM_then_lookup:
  assumes "fault_free s" and "wfStore s" and "vmContent s u = Some vm"
  shows "\<exists>t. Store.DeleteVM u s = (Inr (), t) \<and> wfStore t \<and> GetVM u t = (Inl (Sentinel ErrNotFound), t) \<and>
     fst (Store.DeleteVM u t) = Inl (Wrap ''vm'' (Sentinel ErrNotFound)) \<and>
     (\<forall>j. j \<noteq> u \<longrightarrow> fst (GetVM j t) = fst (GetVM j s))"
  using assms by (rule vms.get_after_del)

lemma DeleteVM_then_lookup_witness:
  "\<exists>t. Store.DeleteVM ''u1'' (emptyStore\<lparr>vmsT := [vmRowOf [] ''u1'' sampleParams]\<rparr>) = (Inr (), t) \<and>
     GetVM ''u1'' t = (Inl (Sentinel ErrNotFound), t)"
  using DeleteVM_then_lookup [of "emptyStore\<lparr>vmsT := [vmRowOf [] ''u1'' sampleParams]\<rparr>" "''u1''"]
  by (fastforce simp: emptyStore_def sampleParams_def wfStore_def vmContent_def vmRowOf_def)

text \<open>
  C27: A host name is protected after \<open>ProtectRouteHostname\<close> in every spelling that normalises to the
  same name and keeps its status otherwise; after \<open>UnprotectRouteHostname\<close> no spelling of it is protected.
\<close>

theorem hostname_protection:
  assumes "fault_free s"
  shows "fst (bind (ProtectRouteHostname h) (\<lambda>_. IsRouteHostnameProtected k) s) =
       Inr (NormalizeHostname k = NormalizeHostname h \<or> fst (IsRouteHostnameProtected k s) = Inr True) \<and>
     fst (bind (UnprotectRouteHostname h) (\<lambda>_. IsRouteHostnameProtected k) s) =
       Inr (NormalizeHostname k \<noteq> NormalizeHostname h \<and> fst (IsRouteHostnameProtected k s) = Inr True)"
  using assms
  by (auto simp: bind_def ProtectRouteHostname_def UnprotectRouteHostname_def IsRouteHostnameProtected_def Let_def
      list_ex_iff)

lemma hostname_protection_witness:
  "fst (bind (ProtectRouteHostname '' App.Example.com.'') (\<lambda>_. IsRouteHostnameProtected ''app.example.com'') emptyStore) = Inr True"
proof -
  have "NormalizeHostname ''app.example.com'' = NormalizeHostname '' App.Example.com.''" by code_simp
  then show ?thesis
    using hostname_protection [of emptyStore "'' App.Example.com.''" "''app.example.com''"]
    by (simp add: emptyStore_def)
qed

end
