(* ===== verification/Base64.thy ===== *)
theory Base64
  imports GoLib
begin

text \<open>
  \<open>base64.RawURLEncoding\<close> of the standard library: the URL-safe alphabet, no padding.  The decoder
  skips line ends and, like Go's non-strict decoder, ignores the unused bits of the last character.
  Shown here: decoding inverts encoding, and an encoding has no dot in it.
\<close>

definition b64Char :: "nat \<Rightarrow> char" where
  "b64Char n = char_of (if n < 26 then n + 65 else if n < 52 then n + 71 else if n < 62 then n - 4
     else if n = 62 then 45 else 95)"

definition b64Val :: "char \<Rightarrow> nat option" where
  "b64Val c = (let n = (of_char c :: nat) in
     if 65 \<le> n \<and> n \<le> 90 then Some (n - 65)
     else if 97 \<le> n \<and> n \<le> 122 then Some (n - 71)
     else if 48 \<le> n \<and> n \<le> 57 then Some (n + 4)
     else if n = 45 then Some 62 else if n = 95 then Some 63 else None)"

fun b64Digits :: "nat list \<Rightarrow> nat list" where
  "b64Digits [] = []"
| "b64Digits [a] = [a div 4, a mod 4 * 16]"
| "b64Digits [a, b] = [a div 4, a mod 4 * 16 + b div 16, b mod 16 * 4]"
| "b64Digits (a # b # c # r) =
     a div 4 # (a mod 4 * 16 + b div 16) # (b mod 16 * 4 + c div 64) # (c mod 64) # b64Digits r"

fun b64Bytes :: "nat list \<Rightarrow> nat list option" where
  "b64Bytes [] = Some []"
| "b64Bytes [x] = None"
| "b64Bytes [x, y] = Some [x * 4 + y div 16]"
| "b64Bytes [x, y, z] = Some [x * 4 + y div 16, y mod 16 * 16 + z div 4]"
| "b64Bytes (x # y # z # w # r) =
     map_option (\<lambda>t. (x * 4 + y div 16) # (y mod 16 * 16 + z div 4) # (z mod 4 * 64 + w) # t) (b64Bytes r)"

definition b64Encode :: "string \<Rightarrow> string" where
  "b64Encode s = map b64Char (b64Digits (map of_char s))"

definition b64Decode :: "string \<Rightarrow> string option" where
  "b64Decode s = Option.bind (those (map b64Val (filter (\<lambda>c. c \<noteq> CHR 0x0A \<and> c \<noteq> CHR 0x0D) s)))
     (\<lambda>ds. map_option (map char_of) (b64Bytes ds))"

lemma of_char_b64Char:
  "n < 64 \<Longrightarrow> (of_char (b64Char n) :: nat) =
     (if n < 26 then n + 65 else if n < 52 then n + 71 else if n < 62 then n - 4 else if n = 62 then 45 else 95)"
  by (simp add: b64Char_def)

lemma b64Val_Char: "n < 64 \<Longrightarrow> b64Val (b64Char n) = Some n"
  by (auto simp: b64Val_def of_char_b64Char Let_def)

lemma b64Char_other:
  assumes "n < 64"
  shows "b64Char n \<noteq> CHR 0x0A" "b64Char n \<noteq> CHR 0x0D" "b64Char n \<noteq> CHR ''.''"
  using b64Val_Char [OF assms] by (auto simp: b64Val_def)

lemma b64Digits_range: "(\<forall>b \<in> set bs. b < 256) \<Longrightarrow> d \<in> set (b64Digits bs) \<Longrightarrow> d < 64"
proof (induction bs rule: b64Digits.induct)
  case (2 a)
  then show ?case by auto
next
  case (3 a b)
  have "a mod 4 \<le> 3" "b div 16 \<le> 15" using 3 by auto
  with 3 show ?case by (auto simp: less_mult_imp_div_less)
next
  case (4 a b c r)
  have "a mod 4 \<le> 3" "b div 16 \<le> 15" "b mod 16 \<le> 15" "c div 64 \<le> 3" using 4 by auto
  with 4 show ?case by (auto simp: less_mult_imp_div_less)
qed simp

lemma b64_glue:
  fixes a b c :: nat
  shows "b < 256 \<Longrightarrow> a div 4 * 4 + (a mod 4 * 16 + b div 16) div 16 = a"
    and "b < 256 \<Longrightarrow> c < 256 \<Longrightarrow> (a mod 4 * 16 + b div 16) mod 16 * 16 + (b mod 16 * 4 + c div 64) div 4 = b"
    and "c < 256 \<Longrightarrow> (b mod 16 * 4 + c div 64) mod 4 * 64 + c mod 64 = c"
proof -
  have b: "b div 16 < 16" if "b < 256" using that by (simp add: less_mult_imp_div_less)
  have c: "c div 64 < 4" if "c < 256" using that by (simp add: less_mult_imp_div_less)
  show "a div 4 * 4 + (a mod 4 * 16 + b div 16) div 16 = a" if "b < 256"
    using b [OF that] by simp
  show "(a mod 4 * 16 + b div 16) mod 16 * 16 + (b mod 16 * 4 + c div 64) div 4 = b" if "b < 256" "c < 256"
    using b [OF that(1)] c [OF that(2)] by simp
  show "(b mod 16 * 4 + c div 64) mod 4 * 64 + c mod 64 = c" if "c < 256"
    using c [OF that] by simp
qed

lemma b64Bytes_Digits: "(\<forall>b \<in> set bs. b < 256) \<Longrightarrow> b64Bytes (b64Digits bs) = Some bs"
proof (induction bs rule: b64Digits.induct)
  case (3 a b)
  then show ?case using b64_glue(1) [of b a] b64_glue(2) [of b 0 a] by simp
next
  case (4 a b c r)
  then have "b64Bytes (b64Digits r) = Some r" "b < 256" "c < 256" by auto
  then show ?case by (simp add: b64_glue)
qed auto

lemma those_map_Some: "(\<forall>x \<in> set xs. f (g x) = Some x) \<Longrightarrow> those (map f (map g xs)) = Some xs"
  by (induction xs) auto

lemma map_char_of_of_char [simp]: "map char_of (map (of_char :: char \<Rightarrow> nat) s) = s"
  by (induction s) auto

lemma of_char_bytes: "\<forall>b \<in> set (map (of_char :: char \<Rightarrow> nat) s). b < 256"
  using of_char_mod_256 by auto

lemma b64Encode_chars: "c \<in> set (b64Encode s) \<Longrightarrow> c \<noteq> CHR 0x0A \<and> c \<noteq> CHR 0x0D \<and> c \<noteq> CHR ''.''"
  unfolding b64Encode_def using b64Digits_range [OF of_char_bytes] b64Char_other by fastforce

lemma b64_roundtrip [simp]: "b64Decode (b64Encode s) = Some s"
proof -
  let ?ds = "b64Digits (map (of_char :: char \<Rightarrow> nat) s)"
  have "filter (\<lambda>c. c \<noteq> CHR 0x0A \<and> c \<noteq> CHR 0x0D) (b64Encode s) = map b64Char ?ds"
    unfolding b64Encode_def using b64Encode_chars [of _ s] by (auto simp: filter_id_conv b64Encode_def)
  moreover have "those (map b64Val (map b64Char ?ds)) = Some ?ds"
    using b64Digits_range [OF of_char_bytes] b64Val_Char by (intro those_map_Some) blast
  ultimately show ?thesis
    using b64Bytes_Digits [OF of_char_bytes, of s] unfolding b64Decode_def
    by (metis Option.bind.bind_lunit map_char_of_of_char option.simps(9))
qed

end
