(* ===== verification/Sha256.thy ===== *)
theory Sha256
  imports GoLib
begin

text \<open>
  SHA-256 (FIPS 180-4) and HMAC (FIPS 198-1) on byte strings: what \<open>crypto/sha256\<close> and
  \<open>crypto/hmac\<close> of the standard library compute.  Words are \<open>32 word\<close>, whose addition wraps.
\<close>

unbundle bit_operations_syntax

type_synonym word32 = "32 word"

text \<open>
  The constants are the first 32 bits of the fractional parts of roots of the first primes: cube
  roots for the rounds, square roots for the initial state.  \<open>rootFloor k n\<close> is the integer part of
  the \<open>k\<close>-th root of a number below \<open>2 ^ (40 * k)\<close>, found bit by bit.
\<close>

definition rootFloor :: "nat \<Rightarrow> nat \<Rightarrow> nat" where
  "rootFloor k n = fold (\<lambda>b r. if (r + 2 ^ b) ^ k \<le> n then r + 2 ^ b else r) (rev [0..<40]) 0"

definition firstPrimes :: "nat list" where
  "firstPrimes = filter (\<lambda>p. list_all (\<lambda>d. p mod d \<noteq> 0) [2..<p]) [2..<312]"

definition fractionBits :: "nat \<Rightarrow> nat \<Rightarrow> word32" where
  "fractionBits k p = word_of_nat (rootFloor k (p * 2 ^ (32 * k)))"

definition roundK :: "word32 list" where
  "roundK = map (fractionBits 3) firstPrimes"

record hashState =
  hA :: word32  hB :: word32  hC :: word32  hD :: word32
  hE :: word32  hF :: word32  hG :: word32  hH :: word32

definition initialHash :: hashState where
  "initialHash = \<lparr>hA = fractionBits 2 2, hB = fractionBits 2 3, hC = fractionBits 2 5, hD = fractionBits 2 7,
     hE = fractionBits 2 11, hF = fractionBits 2 13, hG = fractionBits 2 17, hH = fractionBits 2 19\<rparr>"

definition hashRound :: "word32 \<times> word32 \<Rightarrow> hashState \<Rightarrow> hashState" where
  "hashRound kw h = (case kw of (k, w) \<Rightarrow>
     let e = hE h; a = hA h;
         s1 = word_rotr 6 e XOR word_rotr 11 e XOR word_rotr 25 e;
         ch = (e AND hF h) XOR (NOT e AND hG h);
         t1 = hH h + s1 + ch + k + w;
         s0 = word_rotr 2 a XOR word_rotr 13 a XOR word_rotr 22 a;
         maj = (a AND hB h) XOR (a AND hC h) XOR (hB h AND hC h) in
     \<lparr>hA = t1 + s0 + maj, hB = a, hC = hB h, hD = hC h, hE = hD h + t1, hF = e, hG = hF h, hH = hG h\<rparr>)"

text \<open>The message schedule, newest word first.\<close>

primrec extendSchedule :: "nat \<Rightarrow> word32 list \<Rightarrow> word32 list" where
  "extendSchedule 0 ws = ws"
| "extendSchedule (Suc n) ws =
     (let x = ws ! 14; y = ws ! 1;
          s0 = word_rotr 7 x XOR word_rotr 18 x XOR drop_bit 3 x;
          s1 = word_rotr 17 y XOR word_rotr 19 y XOR drop_bit 10 y in
      extendSchedule n ((ws ! 15 + s0 + ws ! 6 + s1) # ws))"

fun wordsBE :: "string \<Rightarrow> word32 list" where
  "wordsBE (a # b # c # d # r) =
     word_of_nat (((of_char a * 256 + of_char b) * 256 + of_char c) * 256 + of_char d) # wordsBE r"
| "wordsBE r = []"

definition bytesBE :: "word32 \<Rightarrow> string" where
  "bytesBE w = (let n = unat w in
     [char_of (n div 16777216), char_of (n div 65536 mod 256), char_of (n div 256 mod 256), char_of (n mod 256)])"

definition hashBlock :: "hashState \<Rightarrow> string \<Rightarrow> hashState" where
  "hashBlock h b =
     (let r = fold hashRound (zip roundK (rev (extendSchedule 48 (rev (wordsBE b))))) h in
      \<lparr>hA = hA h + hA r, hB = hB h + hB r, hC = hC h + hC r, hD = hD h + hD r,
       hE = hE h + hE r, hF = hF h + hF r, hG = hG h + hG r, hH = hH h + hH r\<rparr>)"

definition padMessage :: "string \<Rightarrow> string" where
  "padMessage m =
     (let n = length m; bits = 8 * n in
      m @ [CHR 0x80] @ replicate ((119 - n mod 64) mod 64) (CHR 0x00) @
      bytesBE (word_of_nat (bits div 2 ^ 32)) @ bytesBE (word_of_nat bits))"

fun hashBlocks :: "hashState \<Rightarrow> string \<Rightarrow> hashState" where
  "hashBlocks h m = (if length m < 64 then h else hashBlocks (hashBlock h (take 64 m)) (drop 64 m))"

declare hashBlocks.simps [simp del]

definition sha256 :: "string \<Rightarrow> string" where
  "sha256 m = (let h = hashBlocks initialHash (padMessage m) in
     concat (map bytesBE [hA h, hB h, hC h, hD h, hE h, hF h, hG h, hH h]))"

definition xorBytes :: "nat \<Rightarrow> string \<Rightarrow> string" where
  "xorBytes n s = map (\<lambda>c. char_of ((of_char c :: nat) XOR n)) s"

definition hmacSHA256 :: "string \<Rightarrow> string \<Rightarrow> string" where
  "hmacSHA256 key m =
     (let k0 = (if length key > 64 then sha256 key else key);
          k = k0 @ replicate (64 - length k0) (CHR 0x00) in
      sha256 (xorBytes 0x5c k @ sha256 (xorBytes 0x36 k @ m)))"

lemma length_bytesBE [simp]: "length (bytesBE w) = 4"
  by (simp add: bytesBE_def Let_def)

lemma length_sha256 [simp]: "length (sha256 m) = 32"
  by (simp add: sha256_def Let_def)

lemma length_hmacSHA256 [simp]: "length (hmacSHA256 k m) = 32"
  by (simp add: hmacSHA256_def Let_def)

lemma padMessage_blocks: "length (padMessage m) mod 64 = 0"
proof -
  define r where "r = length m mod 64"
  have "r < 64" by (simp add: r_def)
  then have p: "(119 - r) mod 64 = (if r \<le> 55 then 55 - r else 119 - r)"
    by (cases "r \<le> 55") (simp_all add: le_mod_geq)
  have "(r + 9 + (119 - r) mod 64) mod 64 = 0"
    using \<open>r < 64\<close> unfolding p by auto
  moreover have "length (padMessage m) = length m + 9 + (119 - r) mod 64"
    by (simp add: padMessage_def Let_def r_def)
  ultimately show ?thesis
    unfolding r_def by (metis mod_add_left_eq)
qed

end
