(* ===== verification/Routeauth.thy ===== *)
theory Routeauth
  imports Store Base64 Sha256
begin

text \<open>
  Route authorisation, \<open>internal/routeauth\<close>: the signing key with its life across daemon restarts,
  signed tokens, the cookie that carries one and the signed URL.  A \<open>time.Time\<close> is a number of
  nanoseconds since the Unix epoch.

  Shown here: a token is accepted for the host and the time it was made for and for nothing else,
  an accepted token carries the signature of the key, and the key survives \<open>Save\<close> and \<open>Load\<close>.
\<close>

section \<open>State\<close>

record auth = store +
  keyPath :: string
  authKey :: string
  entropy :: string             \<comment> \<open>the bytes \<open>crypto/rand\<close> delivers next\<close>

definition CookieName :: string where
  "CookieName = ''firedoze_route_auth''"

definition KeySize :: nat where
  "KeySize = 32"

definition KeyPath :: "string \<Rightarrow> string" where
  "KeyPath stateDir = pathJoin [stateDir, ''route_auth.key'']"

text \<open>The argument is the value of \<open>RUNTIME_DIRECTORY\<close>.\<close>

definition RuntimeKeyPath :: "string \<Rightarrow> string" where
  "RuntimeKeyPath env =
     (let runtimeDir = (if env = [] then ''/run/firedoze'' else env) in
      case cut runtimeDir (CHR '':'') of (first, _, ok) \<Rightarrow>
        pathJoin [if ok then first else runtimeDir, ''route_auth.key''])"

definition randRead :: "nat \<Rightarrow> ('z auth_scheme, string) prog" where
  "randRead n = bind call (\<lambda>_. bind (gets entropy) (\<lambda>e.
     bind (modify (\<lambda>s. s\<lparr>entropy := drop n e\<rparr>)) (\<lambda>_.
     ret (take n (e @ replicate n (CHR 0x00))))))"

section \<open>The key\<close>

definition loadOrGenerateKey :: "string \<Rightarrow> ('z auth_scheme, string \<times> bool) prog" where
  "loadOrGenerateKey path = bind (attempt (osReadFile path)) (\<lambda>r.
     case r of
       Inr key \<Rightarrow> if length key \<noteq> KeySize then throw (Msg ''key has the wrong number of bytes'') else ret (key, True)
     | Inl err \<Rightarrow> if \<not> isNotExist err then throw err
         else bind (randRead KeySize) (\<lambda>key. ret (key, False)))"

definition Load :: "('z auth_scheme, unit) prog" where
  "Load = bind (gets keyPath) (\<lambda>path.
     bind (loadOrGenerateKey path) (\<lambda>(key, loaded).
     bind (modify (\<lambda>s. s\<lparr>authKey := key\<rparr>)) (\<lambda>_.
     if loaded then
       bind (attempt (osRemove path)) (\<lambda>r.
       case r of Inl err \<Rightarrow> if \<not> isNotExist err then throw err else ret () | Inr _ \<Rightarrow> ret ())
     else ret ())))"

definition Save :: "('z auth_scheme, unit) prog" where
  "Save = bind (gets keyPath) (\<lambda>path. bind (gets authKey) (\<lambda>key.
     if length key \<noteq> KeySize then throw (Msg ''route auth key has the wrong number of bytes'') else
     bind (osMkdirAll (pathDir path)) (\<lambda>_.
     osWriteFile path key)))"

definition keyBytes :: "('z auth_scheme, string) prog" where
  "keyBytes = bind (gets authKey) (\<lambda>k.
     if length k = KeySize then ret k else
     bind (gets keyPath) (\<lambda>path.
     bind (loadOrGenerateKey path) (\<lambda>(key, _).
     bind (modify (\<lambda>s. s\<lparr>authKey := key\<rparr>)) (\<lambda>_. ret key))))"

section \<open>Tokens\<close>

definition nanosecond :: int where
  "nanosecond = 1000000000"

text \<open>\<open>time.Unix(sec, 0)\<close>: a \<open>time.Time\<close> counts from the year 1 in an \<open>int64\<close>.\<close>

definition timeUnix :: "int \<Rightarrow> int" where
  "timeUnix sec = (wrap64 (sec + 62135596800) - 62135596800) * nanosecond"

definition sign :: "string \<Rightarrow> string \<Rightarrow> string" where
  "sign key message = b64Encode (hmacSHA256 key message)"

definition validSignature :: "string \<Rightarrow> string \<Rightarrow> string \<Rightarrow> bool" where
  "validSignature key message encodedSignature = (case b64Decode encodedSignature of
      None \<Rightarrow> False | Some got \<Rightarrow> got = hmacSHA256 key message)"

definition encodePart :: "string \<Rightarrow> string" where
  "encodePart value = b64Encode value"

definition decodePart :: "string \<Rightarrow> string option" where
  "decodePart value = b64Decode value"

definition Token :: "string \<Rightarrow> int \<Rightarrow> ('z auth_scheme, string) prog" where
  "Token host expires = bind keyBytes (\<lambda>key.
     let hostPart = encodePart host;
         expiryPart = encodePart (itoa (expires div nanosecond));
         message = hostPart @ ''.'' @ expiryPart in
     ret (message @ ''.'' @ sign key message))"

definition Validate :: "string \<Rightarrow> string \<Rightarrow> ('z auth_scheme, int option) prog" where
  "Validate token host = bind (attempt keyBytes) (\<lambda>r.
     case r of Inl err \<Rightarrow> ret None
     | Inr key \<Rightarrow> bind (gets clock) (\<lambda>now. ret (
         case split token (CHR ''.'') of
           [p0, p1, p2] \<Rightarrow>
             (case decodePart p0 of
                None \<Rightarrow> None
              | Some tokenHost \<Rightarrow>
                  if tokenHost \<noteq> host then None else
                  (case decodePart p1 of
                     None \<Rightarrow> None
                   | Some expiryText \<Rightarrow>
                       (case parseInt expiryText of
                          None \<Rightarrow> None
                        | Some expiryUnix \<Rightarrow>
                            let expires = timeUnix expiryUnix in
                            if now > expires then None
                            else if \<not> validSignature key (p0 @ ''.'' @ p1) p2 then None
                            else Some expires)))
         | _ \<Rightarrow> None)))"

section \<open>Cookie and signed URL\<close>

record Cookie =
  ckName :: string
  ckValue :: string
  ckPath :: string
  ckExpires :: int
  ckMaxAge :: int               \<comment> \<open>whole seconds; the rounding of \<open>float64\<close> is left out\<close>
  ckSecure :: bool
  ckHttpOnly :: bool

text \<open>\<open>r.Cookie(CookieName)\<close> on the request's cookies, name and value, in order.\<close>

definition Approved :: "(string \<times> string) list \<Rightarrow> string \<Rightarrow> ('z auth_scheme, bool) prog" where
  "Approved cookies host = (case find (\<lambda>c. fst c = CookieName) cookies of
      None \<Rightarrow> ret False
    | Some c \<Rightarrow> bind (Validate (snd c) host) (\<lambda>v. ret (v \<noteq> None)))"

definition SetCookie :: "string \<Rightarrow> int \<Rightarrow> ('z auth_scheme, Cookie) prog" where
  "SetCookie host expires = bind (Token host expires) (\<lambda>token.
     bind (gets clock) (\<lambda>now.
     let maxAge = (if expires \<le> now then 0 else (expires - now) div nanosecond) in
     ret \<lparr>ckName = CookieName, ckValue = token, ckPath = ''/'', ckExpires = expires, ckMaxAge = maxAge,
       ckSecure = True, ckHttpOnly = True\<rparr>))"

text \<open>The hosts that reach this function are host names, which a URL does not escape.\<close>

definition SignedURL :: "string \<Rightarrow> int \<Rightarrow> ('z auth_scheme, string) prog" where
  "SignedURL host ttl =
     (if ttl \<le> 0 then throw (Msg ''ttl must be positive'') else
      bind (gets clock) (\<lambda>now.
      bind (Token host (now + ttl)) (\<lambda>token.
      ret (''https://'' @ host @ ''/_firedoze/auth?token='' @ token))))"

section \<open>Encodings without a separator\<close>

text \<open>What the token format needs of the encoding of its parts.\<close>

locale separated_codec =
  fixes enc :: "string \<Rightarrow> string" and dec :: "string \<Rightarrow> string option" and sep :: char
  assumes dec_enc: "dec (enc v) = Some v"
    and no_sep: "sep \<notin> set (enc v)"
begin

lemma enc_inj: "enc u = enc v \<Longrightarrow> u = v"
  using dec_enc by (metis option.inject)

lemma split_three: "split (enc u @ [sep] @ enc v @ [sep] @ enc w) sep = [enc u, enc v, enc w]"
  using no_sep by (simp add: split_append_sep split_plain)

lemma split_three_iff: "split t sep = [u, v, w] \<longleftrightarrow> t = u @ [sep] @ v @ [sep] @ w \<and> sep \<notin> set u \<and> sep \<notin> set v \<and> sep \<notin> set w"
proof
  assume s: "split t sep = [u, v, w]"
  then have "t = join [u, v, w] [sep]" using join_split [of t sep] by simp
  moreover have "sep \<notin> set x" if "x \<in> {u, v, w}" for x
    using that s split_parts [of x t sep] by auto
  ultimately show "t = u @ [sep] @ v @ [sep] @ w \<and> sep \<notin> set u \<and> sep \<notin> set v \<and> sep \<notin> set w" by simp
qed (simp add: split_append_sep split_plain)

end

interpretation b64: separated_codec b64Encode b64Decode "CHR ''.''"
  by unfold_locales (auto dest: b64Encode_chars)

section \<open>Keys\<close>

lemma keyBytes_loaded: "length (authKey s) = KeySize \<Longrightarrow> keyBytes s = (Inr (authKey s), s)"
  by (simp add: keyBytes_def bind_def gets_def ret_def)

lemma Token_loaded:
  "length (authKey s) = KeySize \<Longrightarrow> Token host expires s =
     (Inr (encodePart host @ ''.'' @ encodePart (itoa (expires div nanosecond)) @ ''.'' @
        sign (authKey s) (encodePart host @ ''.'' @ encodePart (itoa (expires div nanosecond)))), s)"
  by (simp add: Token_def bind_def keyBytes_loaded ret_def Let_def)

lemma keyBytes_length:
  assumes "keyBytes s = (Inr k, t)"
  shows "length k = KeySize \<and> authKey t = k"
proof -
  have "wp keyBytes (\<lambda>k t. length k = KeySize \<and> authKey t = k) (\<lambda>_ _. True) s"
    unfolding keyBytes_def loadOrGenerateKey_def
    by (auto simp: wp_rules randRead_def split: sum.splits prod.splits intro!: wp_osReadFile wp_call_other)
  then show ?thesis using assms by (rule wpD_Inr)
qed

section \<open>What a token proves\<close>

lemma timeUnix_exact: "0 \<le> sec \<Longrightarrow> sec < 2 ^ 62 \<Longrightarrow> timeUnix sec = sec * nanosecond"
  by (simp add: timeUnix_def wrap64_id)

lemma validSignature_sign [simp]: "validSignature key m (sign key m)"
  by (simp add: validSignature_def sign_def)

text \<open>What the parts of an accepted token are.\<close>

lemma Validate_Some:
  assumes "Validate token host s = (Inr (Some e), t)"
  shows "\<exists>p0 p1 p2 tx sec. token = p0 @ ''.'' @ p1 @ ''.'' @ p2 \<and> split token (CHR ''.'') = [p0, p1, p2] \<and>
     decodePart p0 = Some host \<and> decodePart p1 = Some tx \<and> parseInt tx = Some sec \<and> e = timeUnix sec \<and>
     clock t \<le> e \<and> length (authKey t) = KeySize \<and> b64Decode p2 = Some (hmacSHA256 (authKey t) (p0 @ ''.'' @ p1))"
proof -
  from assms obtain key where k: "keyBytes s = (Inr key, t)"
    by (auto simp: Validate_def bind_def attempt_def gets_def ret_def split: prod.splits sum.splits)
  with keyBytes_length have "length key = KeySize" "authKey t = key" by auto
  moreover from assms k obtain p0 p1 p2 where sp: "split token (CHR ''.'') = [p0, p1, p2]"
    by (auto simp: Validate_def bind_def attempt_def gets_def ret_def split: list.splits)
  moreover from sp have "token = p0 @ ''.'' @ p1 @ ''.'' @ p2" unfolding b64.split_three_iff by simp
  ultimately show ?thesis
    using assms k by (auto simp: Validate_def bind_def attempt_def gets_def ret_def validSignature_def Let_def
        split: option.splits if_splits)
qed

lemma Validate_made:
  assumes "length (authKey t) = KeySize" and "0 \<le> sec" and "sec < 2 ^ 62"
  shows "Validate (encodePart host @ ''.'' @ encodePart (itoa sec) @ ''.'' @
       sign (authKey t) (encodePart host @ ''.'' @ encodePart (itoa sec))) h t =
     (Inr (if h = host \<and> clock t \<le> sec * nanosecond then Some (sec * nanosecond) else None), t)"
proof -
  let ?p0 = "encodePart host" and ?p1 = "encodePart (itoa sec)"
  let ?sg = "sign (authKey t) (?p0 @ ''.'' @ ?p1)"
  have sp: "split (?p0 @ ''.'' @ ?p1 @ ''.'' @ ?sg) (CHR ''.'') = [?p0, ?p1, ?sg]"
    using b64.split_three by (simp add: encodePart_def sign_def)
  have d: "decodePart ?p0 = Some host" "decodePart ?p1 = Some (itoa sec)"
    by (simp_all add: encodePart_def decodePart_def)
  have "parseInt (itoa sec) = Some sec" using assms(2,3) by (intro parseInt_itoa) simp_all
  with d sp show ?thesis
    using timeUnix_exact [OF assms(2,3)] keyBytes_loaded [OF assms(1)]
    by (auto simp: Validate_def bind_def attempt_def gets_def ret_def Let_def)
qed

text \<open>
  C10: With the key loaded, the token that \<open>Token\<close> makes for a host and an expiry time is accepted by
  \<open>Validate\<close> exactly for that host and exactly until the expiry second, and the expiry it reports
  is the one the token was made for, to the second.
\<close>

theorem token_valid_iff:
  assumes "length (authKey s) = KeySize" and "authKey t = authKey s"
    and "0 \<le> expires" and "expires div nanosecond < 2 ^ 62"
  shows "\<exists>tok. Token host expires s = (Inr tok, s) \<and>
     Validate tok h t =
       (Inr (if h = host \<and> clock t \<le> expires div nanosecond * nanosecond
             then Some (expires div nanosecond * nanosecond) else None), t)"
proof -
  have "0 \<le> expires div nanosecond" using assms(3) by (simp add: nanosecond_def pos_imp_zdiv_nonneg_iff)
  with Token_loaded [OF assms(1), of host expires] Validate_made [of t "expires div nanosecond" host h] assms
  show ?thesis by simp
qed

definition sampleAuth :: auth where
  "sampleAuth = store.extend emptyStore
     (auth.fields ''/run/firedoze/route_auth.key'' (replicate 32 (CHR ''k'')) [])"

lemma sampleAuth_simps [simp]:
  "authKey sampleAuth = replicate 32 (CHR ''k'')" "keyPath sampleAuth = ''/run/firedoze/route_auth.key''"
  "outcomes sampleAuth = []" "clock sampleAuth = 0" "files sampleAuth = []"
  by (simp_all add: sampleAuth_def emptyStore_def store.defs auth.defs)

lemma token_valid_iff_witness:
  "\<exists>tok. Token ''a.example.com'' 5000000000 sampleAuth = (Inr tok, sampleAuth) \<and>
     Validate tok ''a.example.com'' sampleAuth = (Inr (Some 5000000000), sampleAuth) \<and>
     Validate tok ''b.example.com'' sampleAuth = (Inr None, sampleAuth)"
proof -
  note tv = token_valid_iff [of sampleAuth sampleAuth 5000000000 "''a.example.com''"]
  show ?thesis
    using tv [of "''a.example.com''"] tv [of "''b.example.com''"] by (auto simp: KeySize_def nanosecond_def)
qed

text \<open>
  C9: A token is bound to one host and one expiry time: whenever \<open>Validate\<close> accepts it for two hosts,
  in whatever states, the hosts are equal and so are the expiry times.  An accepted token has not
  expired and carries a signature that decodes to the HMAC-SHA256 of its first two parts under the
  manager's 32-byte key.
\<close>

theorem Validate_binds_host:
  assumes "Validate token host s = (Inr (Some e), t)"
  shows "(Validate token host' s' = (Inr (Some e'), t') \<longrightarrow> host' = host \<and> e' = e) \<and>
     clock t \<le> e \<and> length (authKey t) = 32 \<and>
     (\<exists>p0 p1 p2. token = p0 @ ''.'' @ p1 @ ''.'' @ p2 \<and> decodePart p0 = Some host \<and>
        b64Decode p2 = Some (hmacSHA256 (authKey t) (p0 @ ''.'' @ p1)))"
proof -
  obtain p0 p1 p2 tx sec where p: "token = p0 @ ''.'' @ p1 @ ''.'' @ p2" "split token (CHR ''.'') = [p0, p1, p2]"
    "decodePart p0 = Some host" "decodePart p1 = Some tx" "parseInt tx = Some sec" "e = timeUnix sec" "clock t \<le> e"
    "length (authKey t) = KeySize" "b64Decode p2 = Some (hmacSHA256 (authKey t) (p0 @ ''.'' @ p1))"
    using Validate_Some [OF assms] by blast
  have "host' = host \<and> e' = e" if "Validate token host' s' = (Inr (Some e'), t')"
    using Validate_Some [OF that] p(2-6) by auto
  with p show ?thesis by (auto simp: KeySize_def)
qed

lemma Validate_binds_host_witness:
  "\<exists>tok. Validate tok ''a.example.com'' sampleAuth = (Inr (Some 5000000000), sampleAuth) \<and>
     Validate tok ''b.example.com'' sampleAuth \<noteq> (Inr (Some 5000000000), sampleAuth)"
proof -
  obtain tok where "Validate tok ''a.example.com'' sampleAuth = (Inr (Some 5000000000), sampleAuth)"
    using Validate_made [of sampleAuth 5 "''a.example.com''" "''a.example.com''"]
    by (auto simp: KeySize_def nanosecond_def)
  with Validate_binds_host [OF this, of "''b.example.com''" sampleAuth 5000000000 sampleAuth]
  show ?thesis by auto
qed

section \<open>The key across a restart\<close>

lemma Save_writes_key:
  "wp Save (\<lambda>_ t. look t (keyPath s) = Some (File (authKey s)) \<and> length (authKey s) = KeySize \<and> keyPath t = keyPath s)
     (\<lambda>_ _. True) s"
  unfolding Save_def by (auto simp: wp_rules intro!: wp_osMkdirAll wp_osWriteFile)

lemma Load_reads_key:
  assumes "look s (keyPath s) = Some (File k)"
  shows "wp Load (\<lambda>_ t. authKey t = k \<and> look t (keyPath s) = None) (\<lambda>_ _. True) s"
  unfolding Load_def loadOrGenerateKey_def randRead_def using assms
  by (auto simp: wp_rules isNotExist_def split: sum.splits intro!: wp_osReadFile wp_osRemove)

text \<open>
  C28: Whatever calls fail: when \<open>Save\<close> reports success and a new process, which starts without a key,
  then reports success from \<open>Load\<close>, it has the same key, and the key file is gone.
\<close>

theorem key_survives_restart:
  assumes "Save s = (Inr (), t)" and "Load (t\<lparr>authKey := [], outcomes := rs\<rparr>) = (Inr (), u)"
  shows "authKey u = authKey s \<and> length (authKey u) = 32 \<and> look u (keyPath s) = None"
proof -
  have t: "look t (keyPath s) = Some (File (authKey s))" "length (authKey s) = KeySize" "keyPath t = keyPath s"
    using wpD_Inr [OF Save_writes_key assms(1)] by auto
  then have "look (t\<lparr>authKey := [], outcomes := rs\<rparr>) (keyPath (t\<lparr>authKey := [], outcomes := rs\<rparr>)) = Some (File (authKey s))"
    by simp
  from wpD_Inr [OF Load_reads_key [OF this] assms(2)] t show ?thesis by (simp add: KeySize_def)
qed

lemma key_survives_restart_witness:
  "\<exists>t u. Save sampleAuth = (Inr (), t) \<and> Load (t\<lparr>authKey := [], outcomes := []\<rparr>) = (Inr (), u) \<and>
     authKey u = replicate 32 (CHR ''k'')"
proof -
  have a: "ancestors (pathDir ''/run/firedoze/route_auth.key'') = [''/run'', ''/run/firedoze'']" by code_simp
  define t where "t = sampleAuth\<lparr>files := put ''/run/firedoze/route_auth.key'' (File (replicate 32 (CHR ''k'')))
     (put ''/run/firedoze/route_auth.key'' (File []) (mkdirs [''/run'', ''/run/firedoze''] []))\<rparr>"
  have sv: "Save sampleAuth = (Inr (), t)"
    by (rule wp_eqI) (simp add: Save_def wp_rules ff_rules KeySize_def a t_def map_of_mkdirs)
  have "\<exists>u. Load (t\<lparr>authKey := [], outcomes := []\<rparr>) = (Inr (), u)"
    by (rule exI, rule wp_eqI) (simp add: Load_def loadOrGenerateKey_def wp_rules ff_rules t_def KeySize_def)
  with key_survives_restart [OF sv] sv show ?thesis by (metis sampleAuth_simps(1))
qed

end
