(* ===== verification/Memory.thy ===== *)
theory Memory
  imports Types
begin

text \<open>
  Memory sizing of \<open>internal/firecracker/manager.go\<close>: the range a machine may be created with, how
  much of it is boot memory and how much is hot-plugged on this host, and the request made for a
  target.  Go's \<open>int\<close> is 64 bits wide; sums that can leave that range are wrapped.

  Shown here: the plan for a host covers the machine's range exactly and fits the host's physical
  addresses, and a request meets its target within one 128 MiB slot.
\<close>

section \<open>Ranges\<close>

definition validateMemoryHotplugRange :: "int \<Rightarrow> int \<Rightarrow> err + unit" where
  "validateMemoryHotplugRange minMiB maxMiB =
     (if minMiB \<le> 0 \<or> maxMiB \<le> 0 then Inl (Msg ''memory_min_mib and memory_max_mib must be positive'')
      else let delta = maxMiB - minMiB in
        if delta = 0 then Inr ()
        else if delta < 128 \<or> delta mod 128 \<noteq> 0
          then Inl (Msg ''memory_max_mib - memory_min_mib must be zero or a positive multiple of 128'')
        else Inr ())"

section \<open>Physical addresses\<close>

definition firecrackerVirtioMemBaseAddress :: "64 word" where
  "firecrackerVirtioMemBaseAddress = push_bit 30 512"

text \<open>\<open>bits.Len64\<close>\<close>

fun bitLen :: "nat \<Rightarrow> nat" where
  "bitLen n = (if n = 0 then 0 else Suc (bitLen (n div 2)))"

declare bitLen.simps [simp del]

definition requiredVirtioMemPhysicalAddressBits :: "int \<Rightarrow> nat" where
  "requiredVirtioMemPhysicalAddressBits hotplugMiB =
     (if hotplugMiB \<le> 0 then 0
      else bitLen (unat (firecrackerVirtioMemBaseAddress + push_bit 20 (word_of_int hotplugMiB) - 1)))"

text \<open>The size given by \<open><n> bits physical\<close> in one line of \<open>/proc/cpuinfo\<close>.\<close>

fun physicalBitsIn :: "string list \<Rightarrow> int option" where
  "physicalBitsIn (a # b # c # rest) =
     (if trimSuffix c '','' = ''physical'' \<and> b = ''bits'' then
        (case parseInt a of
           Some v \<Rightarrow> if v > 0 then Some v else physicalBitsIn (b # c # rest)
         | None \<Rightarrow> physicalBitsIn (b # c # rest))
      else physicalBitsIn (b # c # rest))"
| "physicalBitsIn fs = None"

fun firstSome :: "('a \<Rightarrow> 'b option) \<Rightarrow> 'a list \<Rightarrow> 'b option" where
  "firstSome f [] = None"
| "firstSome f (x # xs) = (case f x of Some y \<Rightarrow> Some y | None \<Rightarrow> firstSome f xs)"

definition parsePhysicalAddressBits :: "string \<Rightarrow> int option" where
  "parsePhysicalAddressBits data = firstSome
     (\<lambda>line. if contains line ''address sizes'' then physicalBitsIn (goFields line) else None)
     (split data (CHR 0x0A))"

definition hostPhysicalAddressBits :: "('z fsys_scheme, int option) prog" where
  "hostPhysicalAddressBits = bind (attempt (osReadFile ''/proc/cpuinfo'')) (\<lambda>r.
     case r of Inl e \<Rightarrow> ret None | Inr data \<Rightarrow> ret (parsePhysicalAddressBits data))"

section \<open>The plan for a machine on this host\<close>

definition virtioMemSupportedForRange :: "int \<Rightarrow> int \<Rightarrow> ('z fsys_scheme, bool) prog" where
  "virtioMemSupportedForRange minMiB maxMiB =
     (if validateMemoryHotplugRange minMiB maxMiB \<noteq> Inr () then ret False
      else if maxMiB = minMiB then ret False
      else bind hostPhysicalAddressBits (\<lambda>r.
        case r of None \<Rightarrow> ret True
        | Some physicalBits \<Rightarrow> ret (physicalBits \<ge> int (requiredVirtioMemPhysicalAddressBits (maxMiB - minMiB)))))"

definition virtioMemUsableForVM :: "VM \<Rightarrow> ('z fsys_scheme, bool) prog" where
  "virtioMemUsableForVM vm =
     (if vmMemoryMaxMiB vm \<le> vmMemoryMinMiB vm then ret False
      else virtioMemSupportedForRange (vmMemoryMinMiB vm) (vmMemoryMaxMiB vm))"

record memoryHotplugConfig =
  mhTotalSizeMiB :: int
  mhSlotSizeMiB :: int
  mhBlockSizeMiB :: int

record hostMemoryConfig =
  hmBootMiB :: int
  hmHotplug :: "memoryHotplugConfig option"
  hmDegraded :: bool

definition memoryConfigForHost :: "VM \<Rightarrow> ('z fsys_scheme, hostMemoryConfig) prog" where
  "memoryConfigForHost vm =
     bind (fromSum (validateMemoryHotplugRange (vmMemoryMinMiB vm) (vmMemoryMaxMiB vm))) (\<lambda>_.
     if vmMemoryMaxMiB vm \<le> vmMemoryMinMiB vm
     then ret \<lparr>hmBootMiB = vmMemoryMaxMiB vm, hmHotplug = None, hmDegraded = False\<rparr>
     else bind (virtioMemUsableForVM vm) (\<lambda>usable.
       if \<not> usable then ret \<lparr>hmBootMiB = vmMemoryMaxMiB vm, hmHotplug = None, hmDegraded = True\<rparr>
       else ret \<lparr>hmBootMiB = vmMemoryMinMiB vm,
           hmHotplug = Some \<lparr>mhTotalSizeMiB = vmMemoryMaxMiB vm - vmMemoryMinMiB vm, mhSlotSizeMiB = 128, mhBlockSizeMiB = 2\<rparr>,
           hmDegraded = False\<rparr>))"

section \<open>The request for a target\<close>

text \<open>Go's \<open>/\<close> on \<open>int\<close> rounds towards zero.\<close>

definition goQuot :: "int \<Rightarrow> int \<Rightarrow> int" where
  "goQuot a b = (if a < 0 then - (- a div b) else a div b)"

definition requestedMiB :: "VM \<Rightarrow> int \<Rightarrow> int" where
  "requestedMiB vm target =
     (let lo = vmMemoryMinMiB vm; hi = vmMemoryMaxMiB vm;
          t1 = (if target < lo then lo else target);
          t2 = (if t1 > hi then hi else t1);
          r0 = wrap64 (t2 - lo);
          r1 = (if r0 < 0 then 0 else r0);
          r2 = (if r1 > 0 then wrap64 (goQuot (wrap64 (r1 + 127)) 128 * 128) else r1);
          maxRequested = wrap64 (hi - lo) in
      if r2 > maxRequested then maxRequested else r2)"

section \<open>Lemmas\<close>

lemma validRange_iff:
  "validateMemoryHotplugRange lo hi = Inr () \<longleftrightarrow> 0 < lo \<and> 0 < hi \<and> (hi = lo \<or> 128 \<le> hi - lo \<and> (hi - lo) mod 128 = 0)"
  by (auto simp: validateMemoryHotplugRange_def Let_def)

lemma bitLen_bound: "n < 2 ^ bitLen n"
proof (induction n rule: bitLen.induct)
  case (1 n)
  show ?case
  proof (cases "n = 0")
    case False
    with 1 have "n div 2 < 2 ^ bitLen (n div 2)" by simp
    then have "n < 2 * 2 ^ bitLen (n div 2)" by linarith
    with False show ?thesis by (subst bitLen.simps) simp
  qed (simp add: bitLen.simps [of 0])
qed

lemma bitLen_le: "n < 2 ^ k \<Longrightarrow> bitLen n \<le> k"
proof (induction k arbitrary: n)
  case 0
  then show ?case by (simp add: bitLen.simps)
next
  case (Suc k)
  then have "n div 2 < 2 ^ k" by (simp add: less_mult_imp_div_less mult.commute)
  with Suc.IH show ?case by (subst bitLen.simps) simp
qed

text \<open>The end of the hot-plug region, as a number, when it does not leave the 64-bit address space.\<close>

lemma hotplugEnd_unat:
  assumes "0 < d" and "d < 2 ^ 43"
  shows "unat (firecrackerVirtioMemBaseAddress + push_bit 20 (word_of_int d) - 1) = 2 ^ 39 + nat d * 2 ^ 20 - 1"
proof -
  have b: "unat firecrackerVirtioMemBaseAddress = 2 ^ 39"
    by (simp add: firecrackerVirtioMemBaseAddress_def push_bit_eq_mult)
  have d: "unat (word_of_int d :: 64 word) = nat d"
    using assms by (simp add: unat_eq_nat_uint uint_word_of_int)
  have nd: "nat d < 2 ^ 43" using assms by (simp add: nat_less_iff)
  have p: "unat (push_bit 20 (word_of_int d) :: 64 word) = nat d * 2 ^ 20"
  proof -
    have "unat (word_of_int d :: 64 word) * unat (2 ^ 20 :: 64 word) < 2 ^ LENGTH(64)"
      using d nd by simp
    then have "unat (word_of_int d * 2 ^ 20 :: 64 word) = nat d * 2 ^ 20"
      using d by (simp add: unat_mult_lem [THEN iffD1])
    then show ?thesis by (simp add: push_bit_eq_mult)
  qed
  have s: "unat (firecrackerVirtioMemBaseAddress + push_bit 20 (word_of_int d)) = 2 ^ 39 + nat d * 2 ^ 20"
    using b p nd by (subst unat_add_lem [THEN iffD1]) simp_all
  then have "1 \<le> firecrackerVirtioMemBaseAddress + push_bit 20 (word_of_int d)"
    by (simp add: word_le_nat_alt)
  then show ?thesis using s by (simp add: unat_sub)
qed

lemma required_bits_fit:
  assumes "0 < d" and "d < 2 ^ 43" and "int (requiredVirtioMemPhysicalAddressBits d) \<le> b"
  shows "2 ^ 39 + d * 2 ^ 20 \<le> 2 ^ nat b"
proof -
  let ?e = "2 ^ 39 + nat d * 2 ^ 20 - 1 :: nat"
  have "requiredVirtioMemPhysicalAddressBits d = bitLen ?e"
    using assms by (simp add: requiredVirtioMemPhysicalAddressBits_def hotplugEnd_unat)
  with assms(3) have "bitLen ?e \<le> nat b" by linarith
  then have "?e < 2 ^ nat b" using bitLen_bound [of ?e] power_increasing [of "bitLen ?e" "nat b" "2 :: nat"] by linarith
  then have "2 ^ 39 + nat d * 2 ^ 20 \<le> (2 :: nat) ^ nat b" by linarith
  then have "int (2 ^ 39 + nat d * 2 ^ 20) \<le> int (2 ^ nat b)" by (rule of_nat_mono)
  with assms(1) show ?thesis by simp
qed

lemma virtioMemUsable_wp:
  "wp (virtioMemUsableForVM vm) (\<lambda>u t. u \<longrightarrow> vmMemoryMinMiB vm < vmMemoryMaxMiB vm) (\<lambda>_ _. False) s"
  unfolding virtioMemUsableForVM_def virtioMemSupportedForRange_def hostPhysicalAddressBits_def
  by (auto simp: wp_rules split: option.splits sum.splits intro!: wp_osReadFile)

text \<open>
  C29: Whatever calls fail, the memory plan \<open>memoryConfigForHost\<close> returns for a machine of less than
  \<open>2\<^sup>4\<^sup>3\<close> MiB adds up to the machine's maximum: either all of it is boot memory, or boot memory is the
  minimum and the hot-plug region is the rest, a positive multiple of the 128 MiB slot.  When no call
  fails and \<open>/proc/cpuinfo\<close> gives the physical address width, the hot-plug region, which starts at
  512 GiB, ends within it; where the width is not known the code does not check that, and nothing is
  claimed.
\<close>

theorem memory_plan_covers_range:
  assumes "memoryConfigForHost vm s = (Inr c, t)" and "vmMemoryMaxMiB vm < 2 ^ 43"
  shows "hmBootMiB c + (case hmHotplug c of None \<Rightarrow> 0 | Some h \<Rightarrow> mhTotalSizeMiB h) = vmMemoryMaxMiB vm \<and>
     (\<forall>h. hmHotplug c = Some h \<longrightarrow> hmBootMiB c = vmMemoryMinMiB vm \<and> 0 < mhTotalSizeMiB h \<and>
        mhTotalSizeMiB h mod mhSlotSizeMiB h = 0 \<and>
        (\<forall>data b. fault_free s \<longrightarrow> look s ''/proc/cpuinfo'' = Some (File data) \<longrightarrow>
           parsePhysicalAddressBits data = Some b \<longrightarrow> 2 ^ 39 + mhTotalSizeMiB h * 2 ^ 20 \<le> 2 ^ nat b))"
proof -
  let ?lo = "vmMemoryMinMiB vm" and ?hi = "vmMemoryMaxMiB vm"
  have v: "validateMemoryHotplugRange ?lo ?hi = Inr ()"
    using assms(1) by (auto simp: memoryConfigForHost_def bind_def fromSum_def split: sum.splits)
  have total: "wp (memoryConfigForHost vm) (\<lambda>c t. c = \<lparr>hmBootMiB = ?hi, hmHotplug = None, hmDegraded = hmDegraded c\<rparr> \<or>
      ?lo < ?hi \<and> c = \<lparr>hmBootMiB = ?lo, hmHotplug = Some \<lparr>mhTotalSizeMiB = ?hi - ?lo, mhSlotSizeMiB = 128, mhBlockSizeMiB = 2\<rparr>,
        hmDegraded = False\<rparr>) (\<lambda>_ _. True) s"
    unfolding memoryConfigForHost_def
    by (auto simp: wp_rules v intro!: wp_mono [OF virtioMemUsable_wp])
  have fits: "2 ^ 39 + (?hi - ?lo) * 2 ^ 20 \<le> 2 ^ nat b"
    if "hmHotplug c \<noteq> None" "fault_free s" "look s ''/proc/cpuinfo'' = Some (File data)" "parsePhysicalAddressBits data = Some b" for data b
  proof -
    have "wp (memoryConfigForHost vm) (\<lambda>c t. hmHotplug c \<noteq> None \<longrightarrow> ?lo < ?hi \<and>
        int (requiredVirtioMemPhysicalAddressBits (?hi - ?lo)) \<le> b) (\<lambda>_ _. True) s"
      unfolding memoryConfigForHost_def virtioMemUsableForVM_def virtioMemSupportedForRange_def hostPhysicalAddressBits_def
      using that by (auto simp: wp_rules ff_rules v)
    from wpD_Inr [OF this assms(1)] that(1) have "?lo < ?hi" "int (requiredVirtioMemPhysicalAddressBits (?hi - ?lo)) \<le> b" by auto
    moreover have "?hi - ?lo < 2 ^ 43" using v assms(2) by (auto simp: validRange_iff)
    ultimately show ?thesis by (intro required_bits_fit) auto
  qed
  from wpD_Inr [OF total assms(1)] consider "hmBootMiB c = ?hi" "hmHotplug c = None"
    | "?lo < ?hi" "hmBootMiB c = ?lo"
      "hmHotplug c = Some \<lparr>mhTotalSizeMiB = ?hi - ?lo, mhSlotSizeMiB = 128, mhBlockSizeMiB = 2\<rparr>"
    by (metis hostMemoryConfig.select_convs(1,2))
  then show ?thesis
  proof cases
    case 2
    moreover have "(?hi - ?lo) mod 128 = 0" using v by (auto simp: validRange_iff)
    ultimately show ?thesis using fits by simp
  qed simp
qed

text \<open>
  C30: For a machine with a valid memory range, the amount \<open>setVMMemoryTarget\<close> asks Firecracker to plug
  is a multiple of 128 MiB within the hot-plug region, and together with the boot memory it meets the
  target, clamped to the machine's range, by less than one slot.
\<close>

theorem requestedMiB_meets_target:
  assumes "validateMemoryHotplugRange (vmMemoryMinMiB vm) (vmMemoryMaxMiB vm) = Inr ()" and "vmMemoryMaxMiB vm < 2 ^ 62"
  shows "let r = requestedMiB vm target; clamped = max (vmMemoryMinMiB vm) (min target (vmMemoryMaxMiB vm)) in
     0 \<le> r \<and> r \<le> vmMemoryMaxMiB vm - vmMemoryMinMiB vm \<and> r mod 128 = 0 \<and>
     clamped \<le> vmMemoryMinMiB vm + r \<and> vmMemoryMinMiB vm + r < clamped + 128"
proof -
  let ?lo = "vmMemoryMinMiB vm" and ?hi = "vmMemoryMaxMiB vm"
  define x where "x = max ?lo (min target ?hi) - ?lo"
  define d where "d = ?hi - ?lo"
  have lo: "0 < ?lo" "?lo \<le> ?hi" "d mod 128 = 0" using assms(1) by (auto simp: validRange_iff d_def)
  have x: "0 \<le> x" "x \<le> d" "d < 2 ^ 62" using lo assms(2) by (auto simp: x_def d_def)
  define r where "r = (x + 127) div 128 * 128"
  have "r = x + 127 - (x + 127) mod 128" unfolding r_def by (simp add: minus_mod_eq_div_mult)
  moreover have "0 \<le> (x + 127) mod 128" "(x + 127) mod 128 < 128" by simp_all
  ultimately have r: "x \<le> r" "r < x + 128" by linarith+
  have r0: "r mod 128 = 0" by (simp add: r_def)
  obtain k where k: "d = 128 * k" using lo(3) by (metis mod_0_imp_dvd dvdE)
  define q where "q = (x + 127) div 128"
  have rq: "r = 128 * q" by (simp add: r_def q_def)
  then have "q < k + 1" using k r x by linarith
  then have "r \<le> d" using k rq by linarith
  moreover have "requestedMiB vm target = r"
  proof -
    have "(if (if target < ?lo then ?lo else target) > ?hi then ?hi else if target < ?lo then ?lo else target) - ?lo = x"
      using lo by (auto simp: x_def)
    moreover have "wrap64 x = x" "wrap64 (x + 127) = x + 127" "wrap64 d = d" "wrap64 r = r"
      using x r by (simp_all add: wrap64_id)
    ultimately show ?thesis
      using x r \<open>r \<le> d\<close> by (simp add: requestedMiB_def Let_def goQuot_def r_def d_def)
  qed
  moreover have "0 \<le> r" "max ?lo (min target ?hi) = ?lo + x" using x(1) r(1) by (simp_all add: x_def)
  ultimately show ?thesis using r r0 x by (simp add: Let_def d_def)
qed

text \<open>A machine for the witnesses.\<close>

definition sampleVM :: VM where
  "sampleVM = \<lparr>vmUUID = ''u1'', vmName = ''dev'', vmState = ''stopped'', vmPrivateIP = ''fd7a:115c:a1e0::3'',
     vmVCPUs = 1, vmMemoryMinMiB = 384, vmMemoryMaxMiB = 1024, vmDiskBytes = 536870912, vmDefaultHTTPPort = 8080,
     vmIdleSleepAfterSeconds = 0, vmLastStartedAt = [], vmLastActivityAt = [], vmStoppedAt = [], vmArchivedDiskPath = [],
     vmBaseImageID = [], vmKernelID = [], vmBaseImageMetadata = [], vmAutoWake = True, vmPublicHTTP = True\<rparr>"

lemma requestedMiB_meets_target_witness: "384 + requestedMiB sampleVM 500 \<ge> 500 \<and> requestedMiB sampleVM 500 = 128"
proof -
  have "validateMemoryHotplugRange (vmMemoryMinMiB sampleVM) (vmMemoryMaxMiB sampleVM) = Inr ()"
    by (simp add: sampleVM_def validRange_iff)
  from requestedMiB_meets_target [OF this, of 500] show ?thesis
    by (simp add: Let_def sampleVM_def) presburger
qed

definition sampleCPU :: fsys where
  "sampleCPU = \<lparr>outcomes = [], sqlnow = [], clock = 0, seed = 0,
     files = [(''/proc/cpuinfo'', File ''address sizes : 46 bits physical, 48 bits virtual'')]\<rparr>"

lemma memory_plan_covers_range_witness:
  "\<exists>c. memoryConfigForHost sampleVM sampleCPU = (Inr c, sampleCPU) \<and> hmBootMiB c = 384 \<and>
     hmBootMiB c + (case hmHotplug c of None \<Rightarrow> 0 | Some h \<Rightarrow> mhTotalSizeMiB h) = 1024"
proof -
  let ?c = "\<lparr>hmBootMiB = 384, hmHotplug = Some \<lparr>mhTotalSizeMiB = 640, mhSlotSizeMiB = 128, mhBlockSizeMiB = 2\<rparr>, hmDegraded = False\<rparr>"
  have p: "parsePhysicalAddressBits ''address sizes : 46 bits physical, 48 bits virtual'' = Some 46"
    by (simp add: parsePhysicalAddressBits_def split_def goFields_def isSpace_def hasPrefix_def trimSuffix_def
        hasSuffix_def parseInt_def digitVal_def Let_def)
  have r: "requiredVirtioMemPhysicalAddressBits 640 \<le> 46"
    using hotplugEnd_unat [of 640] by (simp add: requiredVirtioMemPhysicalAddressBits_def bitLen_le)
  have "memoryConfigForHost sampleVM sampleCPU = (Inr ?c, sampleCPU)"
    by (rule wp_eqI) (simp add: memoryConfigForHost_def virtioMemUsableForVM_def virtioMemSupportedForRange_def
      hostPhysicalAddressBits_def sampleVM_def sampleCPU_def wp_rules ff_rules validRange_iff [THEN iffD2] p r)
  with memory_plan_covers_range [of sampleVM sampleCPU ?c sampleCPU] show ?thesis by (simp add: sampleVM_def)
qed

end
