(* ===== verification/Net_IP.thy ===== *)
theory Net_IP
  imports GoLib
begin

text \<open>
  IP addresses and networks as Go's \<open>net\<close> package has them.  An address is the number of its
  16-byte form; an IPv4 address is the IPv4-mapped address \<open>::ffff:a.b.c.d\<close>, and \<open>To4\<close> recognises it.
  Parsing follows \<open>netip.ParseAddr\<close> without zones, printing follows RFC 5952.

  Shown here: parsing inverts printing, and what membership in a network means.
\<close>

type_synonym ip = nat

definition ipBound :: nat where
  "ipBound = 2 ^ 128"

section \<open>Text\<close>

definition hexVal :: "char \<Rightarrow> nat option" where
  "hexVal c = (let n = (of_char c :: nat) in
     if 48 \<le> n \<and> n \<le> 57 then Some (n - 48)
     else if 97 \<le> n \<and> n \<le> 102 then Some (n - 87)
     else if 65 \<le> n \<and> n \<le> 70 then Some (n - 55) else None)"

fun hexNat :: "nat \<Rightarrow> string \<Rightarrow> nat option" where
  "hexNat n [] = Some n"
| "hexNat n (c # s) = (case hexVal c of None \<Rightarrow> None | Some d \<Rightarrow> hexNat (16 * n + d) s)"

definition hexChar :: "nat \<Rightarrow> char" where
  "hexChar d = char_of (if d < 10 then 48 + d else 87 + d)"

fun natHex :: "nat \<Rightarrow> string" where
  "natHex n = (if n < 16 then [hexChar n] else natHex (n div 16) @ [hexChar (n mod 16)])"

declare natHex.simps [simp del]

definition parseOctet :: "string \<Rightarrow> nat option" where
  "parseOctet s =
     (if s = [] \<or> 3 < length s \<or> 1 < length s \<and> hd s = CHR ''0'' then None
      else case decNat 0 s of None \<Rightarrow> None | Some n \<Rightarrow> if n \<le> 255 then Some n else None)"

definition parseIPv4 :: "string \<Rightarrow> nat option" where
  "parseIPv4 s = (case split s (CHR ''.'') of
      [a, b, c, d] \<Rightarrow>
        (case (parseOctet a, parseOctet b, parseOctet c, parseOctet d) of
           (Some w, Some x, Some y, Some z) \<Rightarrow> Some (((w * 256 + x) * 256 + y) * 256 + z)
         | _ \<Rightarrow> None)
    | _ \<Rightarrow> None)"

definition parseGroup :: "string \<Rightarrow> nat option" where
  "parseGroup s = (if s = [] \<or> 4 < length s then None else hexNat 0 s)"

text \<open>The groups of a colon-separated part; the last one may be a dotted IPv4 address.\<close>

fun parseGroups :: "string list \<Rightarrow> nat list option" where
  "parseGroups [] = Some []"
| "parseGroups [g] =
     (if CHR ''.'' \<in> set g
      then (case parseIPv4 g of None \<Rightarrow> None | Some v \<Rightarrow> Some [v div 65536, v mod 65536])
      else map_option (\<lambda>v. [v]) (parseGroup g))"
| "parseGroups (g # gs) =
     (case parseGroup g of None \<Rightarrow> None | Some v \<Rightarrow> map_option (\<lambda>vs. v # vs) (parseGroups gs))"

text \<open>What is before and after the first double colon.\<close>

fun cutEllipsis :: "string \<Rightarrow> (string \<times> string) option" where
  "cutEllipsis (a # b # r) =
     (if a = CHR '':'' \<and> b = CHR '':'' then Some ([], r)
      else map_option (\<lambda>(x, y). (a # x, y)) (cutEllipsis (b # r)))"
| "cutEllipsis r = None"

definition colonParts :: "string \<Rightarrow> string list" where
  "colonParts s = (if s = [] then [] else split s (CHR '':''))"

definition groupsVal :: "nat list \<Rightarrow> nat" where
  "groupsVal gs = foldl (\<lambda>a g. a * 65536 + g) 0 gs"

definition parseIPv6 :: "string \<Rightarrow> nat option" where
  "parseIPv6 s = (case cutEllipsis s of
      None \<Rightarrow> (case parseGroups (split s (CHR '':'')) of
          None \<Rightarrow> None | Some gs \<Rightarrow> if length gs = 8 then Some (groupsVal gs) else None)
    | Some (l, r) \<Rightarrow>
        if list_ex (\<lambda>g. CHR ''.'' \<in> set g) (colonParts l) then None else
        (case (parseGroups (colonParts l), parseGroups (colonParts r)) of
           (Some xs, Some ys) \<Rightarrow>
             if length xs + length ys < 8
             then Some (groupsVal (xs @ replicate (8 - (length xs + length ys)) 0 @ ys)) else None
         | _ \<Rightarrow> None))"

definition embed4 :: "nat \<Rightarrow> ip" where
  "embed4 v = 65535 * 2 ^ 32 + v"

definition To4 :: "ip \<Rightarrow> nat option" where
  "To4 p = (if p div 2 ^ 32 = 65535 then Some (p mod 2 ^ 32) else None)"

text \<open>\<open>net.ParseIP\<close>: None for nil.\<close>

definition ParseIP :: "string \<Rightarrow> ip option" where
  "ParseIP s = (if CHR '':'' \<in> set s then parseIPv6 s else map_option embed4 (parseIPv4 s))"

definition ipv4String :: "nat \<Rightarrow> string" where
  "ipv4String v = join (map natDec [v div 2 ^ 24 mod 256, v div 2 ^ 16 mod 256, v div 2 ^ 8 mod 256, v mod 256]) ''.''"

definition groupsOf :: "ip \<Rightarrow> nat list" where
  "groupsOf p = map (\<lambda>i. p div 65536 ^ (7 - i) mod 65536) [0..<8]"

text \<open>Start and length of the first longest run of at least two zero groups.\<close>

definition zeroRun :: "nat list \<Rightarrow> nat \<Rightarrow> nat" where
  "zeroRun gs i = length (takeWhile (\<lambda>g. g = 0) (drop i gs))"

definition bestRun :: "nat list \<Rightarrow> nat \<times> nat" where
  "bestRun gs = fold (\<lambda>i (s, l). if l < zeroRun gs i \<and> 2 \<le> zeroRun gs i then (i, zeroRun gs i) else (s, l))
     [0..<length gs] (0, 0)"

definition ipv6String :: "ip \<Rightarrow> string" where
  "ipv6String p =
     (let gs = groupsOf p; (s, l) = bestRun gs in
      if l = 0 then join (map natHex gs) '':''
      else join (map natHex (take s gs)) '':'' @ ''::'' @ join (map natHex (drop (s + l) gs)) '':'')"

text \<open>\<open>net.IP.String\<close>\<close>

definition ipString :: "ip \<Rightarrow> string" where
  "ipString p = (case To4 p of Some v \<Rightarrow> ipv4String v | None \<Rightarrow> ipv6String p)"

section \<open>Networks\<close>

record IPNet =
  netIP :: ip                   \<comment> \<open>masked\<close>
  netOnes :: nat                \<comment> \<open>leading one bits of the mask\<close>
  netIs4 :: bool                \<comment> \<open>a 4-byte mask\<close>

definition netWidth :: "bool \<Rightarrow> nat" where
  "netWidth is4 = (if is4 then 32 else 128)"

definition maskIP :: "ip \<Rightarrow> nat \<Rightarrow> bool \<Rightarrow> ip" where
  "maskIP p ones is4 = p div 2 ^ (netWidth is4 - ones) * 2 ^ (netWidth is4 - ones)"

definition ParseCIDR :: "string \<Rightarrow> (ip \<times> IPNet) option" where
  "ParseCIDR s = (case cut s (CHR ''/'') of (addr, bits, found) \<Rightarrow>
     if \<not> found then None else
     (case (ParseIP addr, if bits = [] then None else decNat 0 bits) of
        (Some p, Some n) \<Rightarrow>
          let is4 = (CHR '':'' \<notin> set addr) in
          if netWidth is4 < n then None
          else Some (p, \<lparr>netIP = maskIP p n is4, netOnes = n, netIs4 = is4\<rparr>)
      | _ \<Rightarrow> None))"

definition netContains :: "IPNet \<Rightarrow> ip \<Rightarrow> bool" where
  "netContains n p \<longleftrightarrow>
     (To4 p \<noteq> None) = (netIs4 n \<or> To4 (netIP n) \<noteq> None) \<and> maskIP p (netOnes n) (netIs4 n) = netIP n"

definition netString :: "IPNet \<Rightarrow> string" where
  "netString n = ipString (netIP n) @ ''/'' @
     natDec (if \<not> netIs4 n \<and> To4 (netIP n) \<noteq> None then netOnes n - 96 else netOnes n)"

section \<open>Parsing inverts printing\<close>

lemma of_char_hexChar: "d < 16 \<Longrightarrow> (of_char (hexChar d) :: nat) = (if d < 10 then 48 + d else 87 + d)"
  by (simp add: hexChar_def)

lemma hexVal_hexChar [simp]: "d < 16 \<Longrightarrow> hexVal (hexChar d) = Some d"
  by (auto simp: hexVal_def of_char_hexChar Let_def)

lemma hexNat_append: "hexNat n (s @ t) = (case hexNat n s of None \<Rightarrow> None | Some m \<Rightarrow> hexNat m t)"
  by (induction s arbitrary: n) (auto split: option.splits)

lemma natHex_nonempty [simp]: "natHex n \<noteq> []"
  by (subst natHex.simps) simp

lemma hexNat_natHex [simp]: "hexNat 0 (natHex n) = Some n"
proof (induction n rule: natHex.induct)
  case (1 n)
  show ?case
  proof (cases "n < 16")
    case True
    then show ?thesis by (simp add: natHex.simps [of n])
  next
    case False
    with "1.IH" have "hexNat 0 (natHex (n div 16)) = Some (n div 16)" by simp
    with False show ?thesis by (simp add: natHex.simps [of n] hexNat_append)
  qed
qed

lemma natHex_chars: "c \<in> set (natHex n) \<Longrightarrow> c \<noteq> CHR '':'' \<and> c \<noteq> CHR ''.''"
proof (induction n rule: natHex.induct)
  case (1 n)
  have h: "hexChar d \<noteq> CHR '':'' \<and> hexChar d \<noteq> CHR ''.''" if "d < 16" for d
    using hexVal_hexChar [OF that] by (auto simp: hexVal_def)
  from 1 show ?case
    by (cases "n < 16") (auto simp: natHex.simps [of n] h)
qed

lemma length_natHex: "n < 16 ^ Suc k \<Longrightarrow> length (natHex n) \<le> Suc k"
proof (induction k arbitrary: n)
  case 0
  then show ?case by (simp add: natHex.simps [of n])
next
  case (Suc k)
  then have "n div 16 < 16 ^ Suc k" by (simp add: less_mult_imp_div_less mult.commute)
  with Suc.IH show ?case by (subst natHex.simps) auto
qed

lemma parseGroup_natHex: "n < 65536 \<Longrightarrow> parseGroup (natHex n) = Some n"
  using length_natHex [of n 3] by (simp add: parseGroup_def)

lemma parseGroups_natHex: "\<forall>g \<in> set gs. g < 65536 \<Longrightarrow> parseGroups (map natHex gs) = Some gs"
proof (induction gs)
  case (Cons g gs)
  have "CHR ''.'' \<notin> set (natHex g)" using natHex_chars by blast
  with Cons show ?case by (cases gs) (auto simp: parseGroup_natHex)
qed simp

text \<open>A colon-separated list of non-empty parts has no double colon of its own.\<close>

definition plainParts :: "string list \<Rightarrow> bool" where
  "plainParts ws \<longleftrightarrow> (\<forall>w \<in> set ws. w \<noteq> [] \<and> CHR '':'' \<notin> set w)"

lemma cutEllipsis_step: "a \<noteq> CHR '':'' \<Longrightarrow> cutEllipsis (a # r) = map_option (\<lambda>(x, y). (a # x, y)) (cutEllipsis r)"
  by (cases r) auto

lemma cutEllipsis_word:
  "CHR '':'' \<notin> set w \<Longrightarrow> cutEllipsis (w @ r) = map_option (\<lambda>(x, y). (w @ x, y)) (cutEllipsis r)"
  by (cases "cutEllipsis r"; induction w) (auto simp: cutEllipsis_step)

lemma cutEllipsis_colon:
  "r \<noteq> [] \<Longrightarrow> hd r \<noteq> CHR '':'' \<Longrightarrow> cutEllipsis (CHR '':'' # r) = map_option (\<lambda>(x, y). (CHR '':'' # x, y)) (cutEllipsis r)"
  by (cases r) auto

lemma plain_join_hd: "plainParts (w # ws) \<Longrightarrow> join (w # ws) '':'' @ r \<noteq> [] \<and> hd (join (w # ws) '':'' @ r) \<noteq> CHR '':''"
  by (cases ws; cases w) (auto simp: plainParts_def)

lemma cutEllipsis_join:
  "plainParts ws \<Longrightarrow> cutEllipsis (join ws '':'' @ ''::'' @ r) = Some (join ws '':'', r)"
proof (induction ws rule: induct_list012)
  case (2 w)
  then show ?case by (simp add: plainParts_def cutEllipsis_word)
next
  case (3 w v ws)
  then have "cutEllipsis (join (v # ws) '':'' @ ''::'' @ r) = Some (join (v # ws) '':'', r)"
    by (simp add: plainParts_def)
  moreover have "CHR '':'' \<notin> set w" "plainParts (v # ws)" using 3 by (auto simp: plainParts_def)
  ultimately show ?case
    using plain_join_hd [of v ws "''::'' @ r"] by (simp add: cutEllipsis_word cutEllipsis_colon)
qed simp

lemma cutEllipsis_none: "plainParts ws \<Longrightarrow> cutEllipsis (join ws '':'') = None"
proof (induction ws rule: induct_list012)
  case (2 w)
  then show ?case using cutEllipsis_word [of w "[]"] by (simp add: plainParts_def)
next
  case (3 w v ws)
  then have "cutEllipsis (join (v # ws) '':'') = None" by (simp add: plainParts_def)
  moreover have "CHR '':'' \<notin> set w" "plainParts (v # ws)" using 3 by (auto simp: plainParts_def)
  ultimately show ?case
    using plain_join_hd [of v ws "[]"] by (simp add: cutEllipsis_word cutEllipsis_colon)
qed simp

lemma plainParts_natHex [simp]: "plainParts (map natHex gs)"
  using natHex_chars by (auto simp: plainParts_def)

lemma colonParts_join: "plainParts ws \<Longrightarrow> colonParts (join ws '':'') = ws"
proof (cases ws)
  case (Cons w vs)
  assume p: "plainParts ws"
  then have "join ws '':'' \<noteq> []" using plain_join_hd [of w vs "[]"] Cons by simp
  then show ?thesis using p Cons split_join [of ws "CHR '':''"] by (auto simp: colonParts_def plainParts_def)
qed (simp add: colonParts_def)

text \<open>The run that is abbreviated consists of zeros.\<close>

lemma takeWhile_zero: "takeWhile (\<lambda>g. g = 0) gs = replicate (length (takeWhile (\<lambda>g. g = 0) gs)) (0 :: nat)"
  by (induction gs) auto

lemma bestRun_zeros:
  assumes "bestRun gs = (s, l)" and "l \<noteq> 0"
  shows "take s gs @ replicate l 0 @ drop (s + l) gs = gs"
proof -
  have "fold (\<lambda>i (s, l). if l < zeroRun gs i \<and> 2 \<le> zeroRun gs i then (i, zeroRun gs i) else (s, l)) is (0, 0) = (s, l)
      \<Longrightarrow> l = 0 \<or> l = zeroRun gs s" for "is" s l
    by (induction "is" arbitrary: s l rule: rev_induct) (auto split: if_splits prod.splits)
  with assms have l: "l = zeroRun gs s" by (auto simp: bestRun_def)
  have "drop s gs = replicate l 0 @ drop l (drop s gs)"
    using takeWhile_zero [of "drop s gs"] unfolding l zeroRun_def
    by (metis append_take_drop_id takeWhile_eq_take)
  then have "replicate l 0 @ drop (s + l) gs = drop s gs" by (simp add: add.commute)
  then show ?thesis by simp
qed

lemma groupsOf_props [simp]: "length (groupsOf p) = 8" "\<forall>g \<in> set (groupsOf p). g < 65536"
  by (auto simp: groupsOf_def)

lemma groupsVal_groupsOf:
  assumes "p < ipBound"
  shows "groupsVal (groupsOf p) = p"
proof -
  define q where "q k = p div 65536 ^ k" for k
  have step: "q (Suc k) * 65536 + q k mod 65536 = q k" for k
    by (simp only: q_def power_Suc2 div_mult2_eq div_mult_mod_eq)
  have top: "q 7 mod 65536 = q 7"
    using assms by (intro mod_less) (simp add: q_def ipBound_def less_mult_imp_div_less)
  have steps: "q 7 * 65536 + q 6 mod 65536 = q 6" "q 6 * 65536 + q 5 mod 65536 = q 5"
    "q 5 * 65536 + q 4 mod 65536 = q 4" "q 4 * 65536 + q 3 mod 65536 = q 3"
    "q 3 * 65536 + q 2 mod 65536 = q 2" "q 1 * 65536 + q 0 mod 65536 = q 0"
    using step [of 6] step [of 5] step [of 4] step [of 3] step [of 2] step [of 0] by simp_all
  have step1: "q 2 * 65536 + q 1 mod 65536 = q 1" using step [of 1] by (simp add: numeral_2_eq_2)
  have "groupsOf p = map (\<lambda>i. q (7 - i) mod 65536) [0..<8]"
    by (simp only: groupsOf_def q_def)
  also have "\<dots> = [q 7 mod 65536, q 6 mod 65536, q 5 mod 65536, q 4 mod 65536, q 3 mod 65536, q 2 mod 65536,
      q 1 mod 65536, q 0 mod 65536]"
    by (simp add: upt_conv_Cons)
  finally have "groupsVal (groupsOf p) = q 0"
    by (simp only: groupsVal_def foldl_Cons foldl_Nil top mult_0 add_0 steps step1)
  then show ?thesis by (simp add: q_def)
qed

lemma parseIPv6_String:
  assumes "p < ipBound"
  shows "parseIPv6 (ipv6String p) = Some p"
proof -
  obtain s l where r: "bestRun (groupsOf p) = (s, l)" by fastforce
  let ?gs = "groupsOf p"
  have small: "\<forall>g \<in> set (take s ?gs). g < 65536" "\<forall>g \<in> set (drop (s + l) ?gs). g < 65536"
    using groupsOf_props(2) [of p] in_set_takeD in_set_dropD by metis+
  show ?thesis
  proof (cases "l = 0")
    case True
    have "split (join (map natHex ?gs) '':'') (CHR '':'') = map natHex ?gs"
      using natHex_chars groupsOf_props(1) [of p] by (intro split_join) (auto simp del: groupsOf_props)
    with True r show ?thesis
      by (simp add: ipv6String_def parseIPv6_def cutEllipsis_none parseGroups_natHex groupsVal_groupsOf assms)
  next
    case False
    have z: "take s ?gs @ replicate l 0 @ drop (s + l) ?gs = ?gs" using r False by (rule bestRun_zeros)
    then have "length (take s ?gs) + l + length (drop (s + l) ?gs) = 8"
      by (metis add.assoc groupsOf_props(1) length_append length_replicate)
    then have len: "length (take s ?gs) + length (drop (s + l) ?gs) < 8"
      "8 - (length (take s ?gs) + length (drop (s + l) ?gs)) = l" using False by linarith+
    have "\<not> list_ex (\<lambda>g. CHR ''.'' \<in> set g) (map natHex (take s ?gs))"
      using natHex_chars by (auto simp: list_ex_iff)
    with False r len z small show ?thesis
      by (simp add: ipv6String_def Let_def parseIPv6_def cutEllipsis_join [simplified] colonParts_join parseGroups_natHex
          groupsVal_groupsOf assms del: length_take length_drop)
  qed
qed

lemma natDec_small:
  "n < 256 \<Longrightarrow> length (natDec n) \<le> 3 \<and> (1 < length (natDec n) \<longrightarrow> hd (natDec n) \<noteq> CHR ''0'')"
proof -
  assume n: "n < 256"
  have d: "digitChar d \<noteq> CHR ''0''" if "d \<noteq> 0" "d < 10" for d
    using that of_char_digitChar [of d] by auto
  consider "n < 10" | "10 \<le> n" "n < 100" | "100 \<le> n" by linarith
  then show ?thesis
  proof cases
    case 2
    then have "n div 10 < 10" "n div 10 \<noteq> 0" by (simp_all add: less_mult_imp_div_less)
    with 2 d show ?thesis by (simp add: natDec.simps [of n] natDec.simps [of "n div 10"])
  next
    case 3
    then have "n div 100 < 10" "n div 100 \<noteq> 0" "\<not> n div 10 < 10" using n by linarith+
    with 3 d show ?thesis
      by (simp add: natDec.simps [of n] natDec.simps [of "n div 10"] natDec.simps [of "n div 100"] flip: div_mult2_eq)
  qed (simp add: natDec.simps [of n])
qed

lemma parseOctet_natDec: "n < 256 \<Longrightarrow> parseOctet (natDec n) = Some n"
  using natDec_small [of n] by (auto simp: parseOctet_def)

lemma natDec_chars: "c \<in> set (natDec n) \<Longrightarrow> c \<noteq> CHR ''.'' \<and> c \<noteq> CHR '':'' \<and> c \<noteq> CHR ''/''"
  using natDec_digits [of c n] by auto

lemma parseIPv4_octets:
  assumes "a < 256" "b < 256" "c < 256" "d < 256"
  shows "parseIPv4 (join (map natDec [a, b, c, d]) ''.'') = Some (((a * 256 + b) * 256 + c) * 256 + d)"
proof -
  have "split (join (map natDec [a, b, c, d]) ''.'') (CHR ''.'') = map natDec [a, b, c, d]"
    using natDec_chars by (intro split_join) auto
  then show ?thesis using assms by (simp add: parseIPv4_def parseOctet_natDec)
qed

lemma octets_value:
  assumes "v < 2 ^ 32"
  shows "((v div 2 ^ 24 mod 256 * 256 + v div 2 ^ 16 mod 256) * 256 + v div 2 ^ 8 mod 256) * 256 + v mod 256 = (v :: nat)"
proof -
  have "v div 2 ^ 24 mod 256 = v div 2 ^ 24" using assms by (intro mod_less) (simp add: less_mult_imp_div_less)
  moreover have "v div 2 ^ 24 * 256 + v div 2 ^ 16 mod 256 = v div 2 ^ 16"
    using div_mult_mod_eq [of "v div 2 ^ 16" 256] by (simp add: flip: div_mult2_eq)
  moreover have "v div 2 ^ 16 * 256 + v div 2 ^ 8 mod 256 = v div 2 ^ 8"
    using div_mult_mod_eq [of "v div 2 ^ 8" 256] by (simp add: flip: div_mult2_eq)
  moreover have "v div 2 ^ 8 * 256 + v mod 256 = v" by simp
  ultimately show ?thesis by metis
qed

lemma parseIPv4_String: "v < 2 ^ 32 \<Longrightarrow> parseIPv4 (ipv4String v) = Some v"
  unfolding ipv4String_def using octets_value [of v]
  by (subst parseIPv4_octets) (simp_all only: mod_less_divisor zero_less_numeral)

lemma To4_embed:
  assumes "To4 p = Some v"
  shows "v < 2 ^ 32 \<and> embed4 v = p"
proof -
  from assms have "p div 2 ^ 32 = 65535" "v = p mod 2 ^ 32" by (auto simp: To4_def split: if_splits)
  moreover have "p div 2 ^ 32 * 2 ^ 32 + p mod 2 ^ 32 = p" by (rule div_mult_mod_eq)
  ultimately show ?thesis unfolding embed4_def by simp
qed

lemma ipv4String_no_colon: "CHR '':'' \<notin> set (ipv4String v)"
  using natDec_chars by (auto simp: ipv4String_def)

lemma ipv6String_colon: "CHR '':'' \<in> set (ipv6String p)"
proof -
  obtain a b gs where "groupsOf p = a # b # gs"
    using groupsOf_props(1) [of p] by (metis (no_types, opaque_lifting) Suc_length_conv numeral_eq_Suc pred_numeral_simps(2))
  then show ?thesis by (cases "bestRun (groupsOf p)") (auto simp: ipv6String_def Let_def)
qed

theorem ParseIP_String:
  assumes "p < ipBound"
  shows "ParseIP (ipString p) = Some p"
proof (cases "To4 p")
  case None
  then show ?thesis
    using parseIPv6_String [OF assms] ipv6String_colon [of p] by (simp add: ParseIP_def ipString_def)
next
  case (Some v)
  then show ?thesis
    using To4_embed [OF Some] parseIPv4_String [of v] ipv4String_no_colon [of v]
    by (simp add: ParseIP_def ipString_def)
qed

lemma ipString_inj: "p < ipBound \<Longrightarrow> q < ipBound \<Longrightarrow> ipString p = ipString q \<Longrightarrow> p = q"
  by (metis ParseIP_String option.inject)

section \<open>Evaluation on literals\<close>

lemma replicate_numeral: "replicate (numeral k) x = x # replicate (pred_numeral k) x"
  by (simp add: numeral_eq_Suc)

lemmas eval_net = ParseCIDR_def cut_def ParseIP_def parseIPv4_def parseIPv6_def split_def parseOctet_def Let_def
  digitVal_def netWidth_def maskIP_def embed4_def parseGroup_def hexVal_def colonParts_def groupsVal_def To4_def
  replicate_numeral

end
