(* ===== verification/Config.thy ===== *)
theory Config
  imports Files Net_IP
begin

text \<open>
  The configuration, \<open>internal/config/config.go\<close>: the records, the defaults, the defaults derived
  from other settings, and validation.  The TOML decoder is a library: \<open>unmarshal\<close> decodes a file
  into a configuration that starts from the defaults, \<open>unmarshalFirewall\<close> decodes the two
  \<open>host_firewall\<close> keys on their own.

  Shown here: what a validated configuration guarantees, that the defaults are valid, and where the
  derived DNS address lies.
\<close>

section \<open>Records\<close>

record CaddyConfig =
  caddyHTTPPort :: int
  caddyHTTPSPort :: int
  caddyInternalProxyPort :: int
  caddyTLSMode :: string

record WGPeer =
  peerName :: string
  peerPublicKey :: string
  peerAllowedIPs :: "string list"

record WireGuardConfig =
  wgInterface :: string
  wgListenPort :: int
  wgAddress :: string
  wgEndpoint :: string
  wgPrivateKeyFile :: string
  wgPeers :: "WGPeer list"

record HostFirewallConfig =
  hfEnabled :: bool
  hfBackend :: string

record VMNetworkConfig =
  netSubnet :: string
  netIPv4Subnet :: string

record DNSConfig =
  dnsEnabled :: bool
  dnsDomain :: string
  dnsListenIP :: string
  dnsPort :: int
  dnsTTLSeconds :: int
  dnsUpstreamServers :: "string list"

record SSHConfig =
  sshUser :: string
  sshWakeProxyPort :: int

record IdleConfig =
  idleCheckIntervalSeconds :: int
  idleDefaultSleepAfterSeconds :: int

record ColdStorageConfig =
  coldDir :: string
  coldArchiveStoppedAfterSeconds :: int

record FirecrackerConfig =
  fcBinaryPath :: string
  fcBaseKernelPath :: string
  fcBaseInitrdPath :: string
  fcBaseRootfsPath :: string
  fcDefaultVCPUs :: int
  fcDefaultMemoryMinMiB :: int
  fcDefaultMemoryMaxMiB :: int
  fcDefaultDiskBytes :: int

record Config =
  cfgBaseDomain :: string
  cfgDefaultHTTPPort :: int
  cfgStateDir :: string
  cfgAPIPort :: int
  cfgCaddy :: CaddyConfig
  cfgMetadataPath :: string
  cfgWireGuard :: WireGuardConfig
  cfgHostFirewall :: HostFirewallConfig
  cfgMemoryPort :: int
  cfgVMNetwork :: VMNetworkConfig
  cfgDNS :: DNSConfig
  cfgSSH :: SSHConfig
  cfgIdle :: IdleConfig
  cfgColdStorage :: ColdStorageConfig
  cfgFirecracker :: FirecrackerConfig

definition Default :: Config where
  "Default = \<lparr>
     cfgBaseDomain = ''dev.example.com'', cfgDefaultHTTPPort = 8080, cfgStateDir = ''/var/lib/firedoze'',
     cfgAPIPort = 8081,
     cfgCaddy = \<lparr>caddyHTTPPort = 80, caddyHTTPSPort = 443, caddyInternalProxyPort = 18082, caddyTLSMode = ''auto''\<rparr>,
     cfgMetadataPath = ''/var/lib/firedoze/firedoze.db'',
     cfgWireGuard = \<lparr>wgInterface = ''fdwg0'', wgListenPort = 51820, wgAddress = ''fd7a:115c:a1e1::1/64'',
       wgEndpoint = [], wgPrivateKeyFile = ''/etc/firedoze/wg.key'', wgPeers = []\<rparr>,
     cfgHostFirewall = \<lparr>hfEnabled = True, hfBackend = ''ip6tables''\<rparr>,
     cfgMemoryPort = 18084,
     cfgVMNetwork = \<lparr>netSubnet = ''fd7a:115c:a1e0::/64'', netIPv4Subnet = ''10.88.0.0/16''\<rparr>,
     cfgDNS = \<lparr>dnsEnabled = True, dnsDomain = ''firedoze'', dnsListenIP = [], dnsPort = 53, dnsTTLSeconds = 30,
       dnsUpstreamServers = [''1.1.1.1:53'', ''8.8.8.8:53'']\<rparr>,
     cfgSSH = \<lparr>sshUser = ''ubuntu'', sshWakeProxyPort = 18022\<rparr>,
     cfgIdle = \<lparr>idleCheckIntervalSeconds = 30, idleDefaultSleepAfterSeconds = 6 * 60 * 60\<rparr>,
     cfgColdStorage = \<lparr>coldDir = [], coldArchiveStoppedAfterSeconds = 30 * 24 * 60 * 60\<rparr>,
     cfgFirecracker = \<lparr>fcBinaryPath = ''/usr/lib/firedoze/firecracker'',
       fcBaseKernelPath = ''/var/lib/firedoze/images/vmlinux.bin'', fcBaseInitrdPath = [],
       fcBaseRootfsPath = ''/var/lib/firedoze/images/rootfs.ext4'', fcDefaultVCPUs = 1,
       fcDefaultMemoryMinMiB = 384, fcDefaultMemoryMaxMiB = 1024, fcDefaultDiskBytes = 512 * 1024 * 1024\<rparr>\<rparr>"

section \<open>Validation\<close>

text \<open>A sequence of checks, each returning early with its error.\<close>

definition reject :: "bool \<Rightarrow> string \<Rightarrow> err + unit" where
  "reject b m = (if b then Inl (Msg m) else Inr ())"

fun checks :: "(err + unit) list \<Rightarrow> err + unit" where
  "checks [] = Inr ()"
| "checks (c # cs) = (case c of Inl e \<Rightarrow> Inl e | Inr _ \<Rightarrow> checks cs)"

definition badPort :: "int \<Rightarrow> bool" where
  "badPort p \<longleftrightarrow> p \<le> 0 \<or> p > 65535"

definition requireIPv6 :: "string \<Rightarrow> string \<Rightarrow> string \<Rightarrow> err + unit" where
  "requireIPv6 cidr notCIDR not6 = (case ParseCIDR cidr of
      None \<Rightarrow> Inl (Msg notCIDR) | Some (p, _) \<Rightarrow> reject (To4 p \<noteq> None) not6)"

fun validateAllowedIPs :: "string list \<Rightarrow> string list \<Rightarrow> err + string list" where
  "validateAllowedIPs seen [] = Inr seen"
| "validateAllowedIPs seen (a # rest) = (case ParseCIDR a of
      None \<Rightarrow> Inl (Msg ''allowed_ips must be CIDR'')
    | Some (p, n) \<Rightarrow>
        if To4 p \<noteq> None then Inl (Msg ''allowed_ips must be IPv6'')
        else if netString n \<in> set seen then Inl (Msg ''allowed_ips duplicates allowed IP'')
        else validateAllowedIPs (netString n # seen) rest)"

fun validatePeers :: "string list \<Rightarrow> string list \<Rightarrow> string list \<Rightarrow> WGPeer list \<Rightarrow> err + unit" where
  "validatePeers names keys allowed [] = Inr ()"
| "validatePeers names keys allowed (p # rest) =
     (if peerName p = [] then Inl (Msg ''name is required'')
      else if peerName p \<in> set names then Inl (Msg ''name duplicates'')
      else if peerPublicKey p = [] then Inl (Msg ''public_key is required'')
      else if peerPublicKey p \<in> set keys then Inl (Msg ''public_key duplicates'')
      else if peerAllowedIPs p = [] then Inl (Msg ''allowed_ips is required'')
      else (case validateAllowedIPs allowed (peerAllowedIPs p) of
          Inl e \<Rightarrow> Inl e
        | Inr allowed' \<Rightarrow> validatePeers (peerName p # names) (peerPublicKey p # keys) allowed' rest))"

definition validateWireGuard :: "WireGuardConfig \<Rightarrow> err + unit" where
  "validateWireGuard c = checks [
     reject (wgInterface c = []) ''wireguard.interface is required'',
     reject (badPort (wgListenPort c)) ''wireguard.listen_port must be between 1 and 65535'',
     reject (wgPrivateKeyFile c = []) ''wireguard.private_key_file is required'',
     requireIPv6 (wgAddress c) ''wireguard.address must be CIDR'' ''wireguard.address must be IPv6'',
     validatePeers [] [] [] (wgPeers c)]"

definition validateHostFirewall :: "HostFirewallConfig \<Rightarrow> err + unit" where
  "validateHostFirewall c = checks [
     reject (hfEnabled c \<and> hfBackend c = []) ''host_firewall.backend is required when host_firewall.enabled is true'',
     reject (hfBackend c \<noteq> [] \<and> hfBackend c \<noteq> ''ip6tables'') ''host_firewall.backend must be ip6tables'']"

definition validUpstream :: "string \<Rightarrow> bool" where
  "validUpstream u = (case SplitHostPort u of None \<Rightarrow> False | Some (h, p) \<Rightarrow> h \<noteq> [] \<and> p \<noteq> [])"

definition validateDNS :: "DNSConfig \<Rightarrow> err + unit" where
  "validateDNS d = (if \<not> dnsEnabled d then Inr () else checks [
     reject (dnsDomain d = []) ''dns.domain is required when dns is enabled'',
     reject (contains (dnsDomain d) ''://'') ''dns.domain must be a DNS name, not a URL'',
     reject (ParseIP (dnsListenIP d) = None) ''dns.listen_ip must be an IP address'',
     reject (badPort (dnsPort d)) ''dns.port must be between 1 and 65535'',
     reject (dnsTTLSeconds d \<le> 0) ''dns.ttl_seconds must be positive'',
     reject (list_ex (\<lambda>u. \<not> validUpstream u) (dnsUpstreamServers d)) ''dns.upstream_servers must be host:port''])"

definition ConfigValidate :: "Config \<Rightarrow> err + unit" where
  "ConfigValidate c = (let caddy = cfgCaddy c; fc = cfgFirecracker c in checks [
     reject (cfgBaseDomain c = []) ''base_domain is required'',
     reject (contains (cfgBaseDomain c) ''://'') ''base_domain must be a DNS name, not a URL'',
     reject (badPort (cfgDefaultHTTPPort c)) ''default_http_port must be between 1 and 65535'',
     reject (cfgStateDir c = []) ''state_dir is required'',
     reject (badPort (cfgAPIPort c)) ''api.port must be between 1 and 65535'',
     reject (badPort (caddyHTTPPort caddy)) ''caddy.http_port must be between 1 and 65535'',
     reject (badPort (caddyHTTPSPort caddy)) ''caddy.https_port must be between 1 and 65535'',
     reject (badPort (caddyInternalProxyPort caddy)) ''caddy.internal_proxy_port must be between 1 and 65535'',
     reject (caddyTLSMode caddy = []) ''caddy.tls_mode is required'',
     reject (caddyTLSMode caddy \<noteq> ''auto'' \<and> caddyTLSMode caddy \<noteq> ''behind_proxy'') ''caddy.tls_mode must be auto or behind_proxy'',
     reject (cfgMetadataPath c = []) ''metadata.path is required'',
     validateWireGuard (cfgWireGuard c),
     validateHostFirewall (cfgHostFirewall c),
     reject (badPort (cfgMemoryPort c)) ''guest_control.memory_port must be between 1 and 65535'',
     requireIPv6 (netSubnet (cfgVMNetwork c)) ''vm_network.subnet must be CIDR'' ''vm_network.subnet must be IPv6'',
     (case ParseCIDR (netIPv4Subnet (cfgVMNetwork c)) of
        None \<Rightarrow> Inl (Msg ''vm_network.ipv4_subnet must be CIDR'')
      | Some (p, _) \<Rightarrow> reject (To4 p = None) ''vm_network.ipv4_subnet must be IPv4''),
     validateDNS (cfgDNS c),
     reject (sshUser (cfgSSH c) = []) ''ssh.user is required'',
     reject (badPort (sshWakeProxyPort (cfgSSH c))) ''ssh.wake_proxy_port must be between 1 and 65535'',
     reject (idleCheckIntervalSeconds (cfgIdle c) \<le> 0) ''idle.check_interval_seconds must be positive'',
     reject (idleDefaultSleepAfterSeconds (cfgIdle c) < 0) ''idle.default_sleep_after_seconds cannot be negative'',
     reject (coldArchiveStoppedAfterSeconds (cfgColdStorage c) < 0) ''cold_storage.archive_stopped_after_seconds cannot be negative'',
     reject (fcBinaryPath fc = []) ''firecracker.binary_path is required'',
     reject (fcBaseKernelPath fc = []) ''firecracker.base_kernel_path is required'',
     reject (fcBaseRootfsPath fc = []) ''firecracker.base_rootfs_path is required'',
     reject (fcDefaultVCPUs fc \<le> 0) ''firecracker.default_vcpus must be positive'',
     reject (fcDefaultMemoryMinMiB fc \<le> 0) ''firecracker.default_memory_min_mib must be positive'',
     reject (fcDefaultMemoryMaxMiB fc \<le> 0) ''firecracker.default_memory_max_mib must be positive'',
     reject (fcDefaultMemoryMinMiB fc > fcDefaultMemoryMaxMiB fc)
       ''firecracker.default_memory_min_mib must be less than or equal to firecracker.default_memory_max_mib'',
     reject (fcDefaultDiskBytes fc \<le> 0) ''firecracker.default_disk_bytes must be positive''])"

section \<open>Derived defaults and loading\<close>

definition FirstUsableIP :: "string \<Rightarrow> err + ip" where
  "FirstUsableIP cidr = (case ParseCIDR cidr of
      None \<Rightarrow> Inl (Msg ''parse subnet'')
    | Some (p, subnet) \<Rightarrow>
        let q = (case To4 p of
              Some v \<Rightarrow> embed4 (v div 256 * 256 + (v mod 256 + 1) mod 256)
            | None \<Rightarrow> (p + 1) mod ipBound) in
        if netContains subnet q then Inr q else Inl (Msg ''subnet has no usable DNS IP''))"

definition orDefault :: "string \<Rightarrow> string \<Rightarrow> string" where
  "orDefault s d = (if s = [] then d else s)"

definition deriveDNS :: "string \<Rightarrow> DNSConfig \<Rightarrow> err + DNSConfig" where
  "deriveDNS subnet d =
     (let d1 = d\<lparr>dnsDomain := orDefault (dnsDomain d) ''firedoze'',
                dnsPort := (if dnsPort d = 0 then 53 else dnsPort d),
                dnsTTLSeconds := (if dnsTTLSeconds d = 0 then 30 else dnsTTLSeconds d),
                dnsUpstreamServers := (if dnsUpstreamServers d = [] then [''1.1.1.1:53'', ''8.8.8.8:53'']
                                       else dnsUpstreamServers d)\<rparr> in
      if dnsListenIP d = [] then
        (case FirstUsableIP subnet of Inl e \<Rightarrow> Inl e | Inr p \<Rightarrow> Inr (d1\<lparr>dnsListenIP := ipString p\<rparr>))
      else Inr d1)"

definition applyDerivedDefaults :: "Config \<Rightarrow> err + Config" where
  "applyDerivedDefaults c =
     (let c1 = c\<lparr>cfgStateDir := orDefault (cfgStateDir c) ''/var/lib/firedoze''\<rparr>;
          c2 = c1\<lparr>cfgMetadataPath := orDefault (cfgMetadataPath c1) (pathJoin [cfgStateDir c1, ''firedoze.db''])\<rparr>;
          cold = cfgColdStorage c;
          c3 = c2\<lparr>cfgColdStorage := cold\<lparr>coldArchiveStoppedAfterSeconds :=
             (if coldArchiveStoppedAfterSeconds cold = 0 then 30 * 24 * 60 * 60
              else coldArchiveStoppedAfterSeconds cold)\<rparr>\<rparr>;
          vmnet = cfgVMNetwork c;
          c4 = c3\<lparr>cfgVMNetwork := vmnet\<lparr>netIPv4Subnet := orDefault (netIPv4Subnet vmnet) ''10.88.0.0/16''\<rparr>\<rparr> in
      if dnsEnabled (cfgDNS c) then
        (case deriveDNS (netSubnet vmnet) (cfgDNS c) of Inl e \<Rightarrow> Inl e | Inr d \<Rightarrow> Inr (c4\<lparr>cfgDNS := d\<rparr>))
      else Inr c4)"

definition validateExplicitHostFirewall ::
    "(string \<Rightarrow> err + (bool option \<times> string option)) \<Rightarrow> string \<Rightarrow> err + unit" where
  "validateExplicitHostFirewall unmarshalFirewall data = (case unmarshalFirewall data of
      Inl e \<Rightarrow> Inl e
    | Inr (enabled, backend) \<Rightarrow>
        reject ((case enabled of None \<Rightarrow> True | Some b \<Rightarrow> b) \<and> backend = None)
          ''host_firewall.backend is required when host_firewall.enabled is true'')"

definition DefaultPath :: string where
  "DefaultPath = ''/etc/firedoze/firedoze.toml''"

definition finishLoad :: "Config \<Rightarrow> err + Config" where
  "finishLoad cfg = (case applyDerivedDefaults cfg of
      Inl e \<Rightarrow> Inl e
    | Inr c \<Rightarrow> (case ConfigValidate c of Inl e \<Rightarrow> Inl e | Inr _ \<Rightarrow> Inr c))"

definition ConfigLoad ::
    "(string \<Rightarrow> Config \<Rightarrow> err + Config) \<Rightarrow> (string \<Rightarrow> err + (bool option \<times> string option)) \<Rightarrow> string \<Rightarrow>
     ('z fsys_scheme, Config) prog" where
  "ConfigLoad unmarshal unmarshalFirewall path =
     (let p = orDefault path DefaultPath in
      bind (attempt (osReadFile p)) (\<lambda>r.
      case r of
        Inl e \<Rightarrow> if isNotExist e \<and> p = DefaultPath then fromSum (finishLoad Default) else throw e
      | Inr data \<Rightarrow>
          bind (fromSum (unmarshal data Default)) (\<lambda>cfg.
          bind (fromSum (validateExplicitHostFirewall unmarshalFirewall data)) (\<lambda>_.
          fromSum (finishLoad cfg)))))"

section \<open>What validation guarantees\<close>

lemma checks_ok: "checks (c # cs) = Inr () \<longleftrightarrow> c = Inr () \<and> checks cs = Inr ()"
  by (cases c) auto

lemma reject_ok [simp]: "reject b m = Inr () \<longleftrightarrow> \<not> b"
  by (simp add: reject_def)

lemma requireIPv6_ok: "requireIPv6 cidr m n = Inr () \<longleftrightarrow> (\<exists>p net. ParseCIDR cidr = Some (p, net) \<and> To4 p = None)"
  by (auto simp: requireIPv6_def split: option.splits)

text \<open>The normalised networks of a list of CIDR texts.\<close>

definition allowedNets :: "string list \<Rightarrow> string list" where
  "allowedNets as = map (\<lambda>a. case ParseCIDR a of None \<Rightarrow> [] | Some (_, n) \<Rightarrow> netString n) as"

lemma validateAllowedIPs_ok:
  "validateAllowedIPs seen as = Inr seen' \<Longrightarrow>
     seen' = rev (allowedNets as) @ seen \<and> (distinct seen \<longrightarrow> distinct seen') \<and>
     (\<forall>a \<in> set as. \<exists>p n. ParseCIDR a = Some (p, n) \<and> To4 p = None)"
proof (induction as arbitrary: seen)
  case (Cons a as)
  then obtain p n where a: "ParseCIDR a = Some (p, n)" "To4 p = None" "netString n \<notin> set seen"
    and r: "validateAllowedIPs (netString n # seen) as = Inr seen'"
    by (auto split: option.splits if_splits)
  have "allowedNets (a # as) = netString n # allowedNets as" using a by (simp add: allowedNets_def)
  with Cons.IH [OF r] a show ?case by auto
qed (simp add: allowedNets_def)

lemma validatePeers_ok:
  "validatePeers names keys allowed ps = Inr () \<Longrightarrow> distinct names \<Longrightarrow> distinct keys \<Longrightarrow> distinct allowed \<Longrightarrow>
     distinct (map peerName ps @ names) \<and> distinct (map peerPublicKey ps @ keys) \<and>
     distinct (concat (map (\<lambda>p. allowedNets (peerAllowedIPs p)) ps) @ allowed) \<and>
     (\<forall>p \<in> set ps. peerName p \<noteq> [] \<and> peerPublicKey p \<noteq> [] \<and> peerAllowedIPs p \<noteq> [])"
proof (induction names keys allowed ps rule: validatePeers.induct)
  case (2 names keys allowed p rest)
  from "2.prems"(1) obtain allowed' where a: "validateAllowedIPs allowed (peerAllowedIPs p) = Inr allowed'"
    and r: "validatePeers (peerName p # names) (peerPublicKey p # keys) allowed' rest = Inr ()"
    and g: "peerName p \<noteq> []" "peerName p \<notin> set names" "peerPublicKey p \<noteq> []" "peerPublicKey p \<notin> set keys"
      "peerAllowedIPs p \<noteq> []"
    by (auto split: if_splits sum.splits)
  note v = validateAllowedIPs_ok [OF a]
  have "distinct allowed'" using v "2.prems"(4) by blast
  with "2.IH" a r g "2.prems" have "distinct (map peerName rest @ peerName p # names)"
    "distinct (map peerPublicKey rest @ peerPublicKey p # keys)"
    "distinct (concat (map (\<lambda>p. allowedNets (peerAllowedIPs p)) rest) @ allowed')"
    "\<forall>p \<in> set rest. peerName p \<noteq> [] \<and> peerPublicKey p \<noteq> [] \<and> peerAllowedIPs p \<noteq> []"
    by auto
  with g v show ?case by auto
qed auto

definition goodPort :: "int \<Rightarrow> bool" where
  "goodPort p \<longleftrightarrow> 1 \<le> p \<and> p \<le> 65535"

lemma not_badPort: "\<not> badPort p \<longleftrightarrow> goodPort p"
  by (auto simp: badPort_def goodPort_def)

text \<open>The guarantees the rest of the daemon relies on.\<close>

definition soundConfig :: "Config \<Rightarrow> bool" where
  "soundConfig c \<longleftrightarrow>
     goodPort (cfgDefaultHTTPPort c) \<and> goodPort (cfgAPIPort c) \<and> goodPort (caddyHTTPPort (cfgCaddy c)) \<and>
     goodPort (caddyHTTPSPort (cfgCaddy c)) \<and> goodPort (caddyInternalProxyPort (cfgCaddy c)) \<and>
     goodPort (cfgMemoryPort c) \<and> goodPort (sshWakeProxyPort (cfgSSH c)) \<and> goodPort (wgListenPort (cfgWireGuard c)) \<and>
     (dnsEnabled (cfgDNS c) \<longrightarrow> goodPort (dnsPort (cfgDNS c)) \<and> (\<exists>p. ParseIP (dnsListenIP (cfgDNS c)) = Some p)) \<and>
     (\<exists>p n. ParseCIDR (netSubnet (cfgVMNetwork c)) = Some (p, n) \<and> To4 p = None) \<and>
     (\<exists>p n v. ParseCIDR (netIPv4Subnet (cfgVMNetwork c)) = Some (p, n) \<and> To4 p = Some v) \<and>
     (\<exists>p n. ParseCIDR (wgAddress (cfgWireGuard c)) = Some (p, n) \<and> To4 p = None) \<and>
     distinct (map peerName (wgPeers (cfgWireGuard c))) \<and> distinct (map peerPublicKey (wgPeers (cfgWireGuard c))) \<and>
     distinct (concat (map (\<lambda>p. allowedNets (peerAllowedIPs p)) (wgPeers (cfgWireGuard c)))) \<and>
     0 < idleCheckIntervalSeconds (cfgIdle c) \<and> 0 \<le> idleDefaultSleepAfterSeconds (cfgIdle c) \<and>
     0 < fcDefaultVCPUs (cfgFirecracker c) \<and> 0 < fcDefaultMemoryMinMiB (cfgFirecracker c) \<and>
     fcDefaultMemoryMinMiB (cfgFirecracker c) \<le> fcDefaultMemoryMaxMiB (cfgFirecracker c) \<and>
     0 < fcDefaultDiskBytes (cfgFirecracker c)"

lemma ConfigValidate_sound:
  assumes "ConfigValidate c = Inr ()"
  shows "soundConfig c"
proof -
  from assms have wg: "validateWireGuard (cfgWireGuard c) = Inr ()" and dns: "validateDNS (cfgDNS c) = Inr ()"
    by (simp_all add: ConfigValidate_def Let_def checks_ok del: checks.simps(2))
  from wg have "validatePeers [] [] [] (wgPeers (cfgWireGuard c)) = Inr ()"
    by (simp add: validateWireGuard_def checks_ok del: checks.simps(2))
  note peers = validatePeers_ok [OF this]
  have d: "dnsEnabled (cfgDNS c) \<longrightarrow> goodPort (dnsPort (cfgDNS c)) \<and> (\<exists>p. ParseIP (dnsListenIP (cfgDNS c)) = Some p)"
    using dns by (auto simp: validateDNS_def checks_ok not_badPort simp del: checks.simps(2))
  have v4: "\<exists>p n v. ParseCIDR (netIPv4Subnet (cfgVMNetwork c)) = Some (p, n) \<and> To4 p = Some v"
    using assms by (auto simp: ConfigValidate_def Let_def checks_ok simp del: checks.simps(2) split: option.splits)
  show ?thesis
    using assms wg d v4 peers
    by (simp add: soundConfig_def ConfigValidate_def Let_def checks_ok validateWireGuard_def requireIPv6_ok not_badPort
        del: checks.simps(2))
qed

lemma finishLoad_valid: "finishLoad cfg = Inr c \<Longrightarrow> ConfigValidate c = Inr ()"
  by (auto simp: finishLoad_def split: sum.splits)

text \<open>
  C22: Whatever the TOML decoder makes of the file and whatever calls fail, a configuration that
  \<open>Load\<close> returns without an error has every port between 1 and 65535, an IPv6 network for the
  machines and an IPv4 one beside it, an IPv6 WireGuard address, peers with distinct names, distinct
  keys and no network allowed twice, a DNS address when DNS is on, a positive check interval, and
  default sizes that a machine can be created with.
\<close>

theorem ConfigLoad_sound:
  assumes "ConfigLoad unmarshal unmarshalFirewall path s = (Inr c, t)"
  shows "soundConfig c"
proof -
  have "wp (ConfigLoad unmarshal unmarshalFirewall path) (\<lambda>c _. ConfigValidate c = Inr ()) (\<lambda>_ _. True) s"
    unfolding ConfigLoad_def Let_def wp_bind wp_attempt
    by (rule wp_osReadFile) (auto simp: wp_rules finishLoad_valid split: sum.splits)
  from wpD_Inr [OF this assms] show ?thesis by (rule ConfigValidate_sound)
qed

text \<open>The networks of the default configuration.\<close>

lemma default_nets:
  "ParseCIDR ''10.88.0.0/16'' = Some (281470855282688, \<lparr>netIP = 281470855282688, netOnes = 16, netIs4 = True\<rparr>)"
  "ParseCIDR ''fd7a:115c:a1e1::1/64'' = Some (336928495290378273096710020141405962241, \<lparr>netIP = 336928495290378273096710020141405962240, netOnes = 64, netIs4 = False\<rparr>)"
  "ParseCIDR ''fd7a:115c:a1e0::/64'' = Some (336928495290377064170890405512231256064, \<lparr>netIP = 336928495290377064170890405512231256064, netOnes = 64, netIs4 = False\<rparr>)"
  by (simp_all add: eval_net)

lemma default_dns_ip: "FirstUsableIP ''fd7a:115c:a1e0::/64'' = Inr 336928495290377064170890405512231256065"
  by (simp add: FirstUsableIP_def default_nets To4_def netContains_def maskIP_def netWidth_def ipBound_def)

lemma finishLoad_Default: "\<exists>c. finishLoad Default = Inr c"
proof -
  have ip: "ParseIP (ipString 336928495290377064170890405512231256065) = Some 336928495290377064170890405512231256065" by (rule ParseIP_String) (simp add: ipBound_def)
  have up: "validUpstream ''1.1.1.1:53''" "validUpstream ''8.8.8.8:53''"
    by (simp_all add: validUpstream_def SplitHostPort_def Let_def hasPrefix_def)
  show ?thesis
    by (simp add: finishLoad_def applyDerivedDefaults_def deriveDNS_def Default_def orDefault_def Let_def default_dns_ip
        ConfigValidate_def reject_def badPort_def hasPrefix_def validateWireGuard_def requireIPv6_def default_nets
        To4_def validateHostFirewall_def validateDNS_def ip up)
qed

definition emptyHost :: fsys where
  "emptyHost = \<lparr>outcomes = [], sqlnow = [], clock = 0, seed = 0, files = []\<rparr>"

lemma ConfigLoad_sound_witness:
  "\<exists>c t. ConfigLoad (\<lambda>_ c. Inr c) (\<lambda>_. Inr (None, None)) [] emptyHost = (Inr c, t) \<and> soundConfig c"
proof -
  obtain c where "finishLoad Default = Inr c" using finishLoad_Default by blast
  then have "ConfigLoad (\<lambda>_ c. Inr c) (\<lambda>_. Inr (None, None)) [] emptyHost = (Inr c, emptyHost)"
    by (intro wp_eqI) (simp add: ConfigLoad_def orDefault_def Let_def wp_rules ff_rules emptyHost_def)
  with ConfigLoad_sound show ?thesis by blast
qed

end
