(* ===== verification/Addresses.thy ===== *)
theory Addresses
  imports Store Config Sha256
begin

text \<open>
  Addresses and names the manager derives for a machine (\<open>internal/firecracker/manager.go\<close>): the
  next free guest address, the IPv4 pair that mirrors it, the host end of a pair, the name of the
  tap device, the MAC address and the kernel command line.

  The search of \<open>nextPrivateIP\<close> has no bound in the code.  The model gives it one more round than
  there are machines and shows that it never runs out.

  Shown here: an address handed out lies in the subnet, is odd, is not in use, keeps clear of the
  address reserved for DNS, and differs in its whole /127 pair from every other such address; the
  search fails only when the subnet is exhausted.
\<close>

section \<open>Arithmetic on addresses\<close>

definition addToIP :: "ip \<Rightarrow> int \<Rightarrow> err + ip" where
  "addToIP p offset =
     (let v = int p + offset in
      if v < 0 then Inl (Msg ''IP underflow'')
      else if int ipBound \<le> v then Inl (Msg ''IP overflow'')
      else Inr (nat v))"

definition decrementIP :: "ip \<Rightarrow> err + ip" where
  "decrementIP p = addToIP p (- 1)"

definition addToIPv4 :: "ip \<Rightarrow> int \<Rightarrow> err + ip" where
  "addToIPv4 p offset = (case To4 p of
      None \<Rightarrow> Inl (Msg ''IP is not IPv4'')
    | Some b \<Rightarrow>
        let v = wrap64 (int b + offset) in
        if v < 0 \<or> v > 0xffffffff then Inl (Msg ''IPv4 overflow'') else Inr (embed4 (nat v)))"

section \<open>The next guest address\<close>

fun searchIP :: "nat \<Rightarrow> IPNet \<Rightarrow> string list \<Rightarrow> int \<Rightarrow> (err + ip) option" where
  "searchIP 0 subnet used offset = None"
| "searchIP (Suc fuel) subnet used offset = (case addToIP (netIP subnet) offset of
      Inl e \<Rightarrow> Some (Inl e)
    | Inr p \<Rightarrow>
        if \<not> netContains subnet p then Some (Inl (Msg ''vm subnet exhausted''))
        else if ipString p \<in> set used then searchIP fuel subnet used (offset + 2)
        else Some (Inr p))"

definition usedIPs :: "VM list \<Rightarrow> string list" where
  "usedIPs vms = filter (\<lambda>a. a \<noteq> []) (map vmPrivateIP vms)"

definition nextPrivateIP :: "Config \<Rightarrow> ('z store_scheme, ip) prog" where
  "nextPrivateIP cfg = (case ParseCIDR (netSubnet (cfgVMNetwork cfg)) of
      None \<Rightarrow> throw (Msg ''invalid CIDR address'')
    | Some (_, subnet) \<Rightarrow>
        if To4 (netIP subnet) \<noteq> None then throw (Msg ''vm_network.subnet must be IPv6'') else
        bind ListVMs (\<lambda>vms.
        case searchIP (length vms + 1) subnet (usedIPs vms) 3 of
          None \<Rightarrow> throw (Msg ''search bound'')
        | Some r \<Rightarrow> fromSum r))"

section \<open>The IPv4 pair\<close>

definition privateIPv4Pair :: "Config \<Rightarrow> ip \<Rightarrow> err + (ip \<times> ip)" where
  "privateIPv4Pair cfg guestIPv6 =
     (if To4 guestIPv6 \<noteq> None then Inl (Msg ''private_ip must be IPv6'') else
      case ParseCIDR (netSubnet (cfgVMNetwork cfg)) of
        None \<Rightarrow> Inl (Msg ''vm_network.subnet must be CIDR'')
      | Some (_, subnet6) \<Rightarrow>
          if To4 (netIP subnet6) \<noteq> None then Inl (Msg ''vm_network.subnet must be IPv6'')
          else if \<not> netContains subnet6 guestIPv6 then Inl (Msg ''private_ip is outside vm_network.subnet'')
          else let offset = int guestIPv6 - int (netIP subnet6) in
          if offset \<le> 0 \<or> even offset then Inl (Msg ''private_ip must be an odd guest address in a /127 pair'')
          else if offset \<ge> 2 ^ 63 then Inl (Msg ''private_ip offset does not fit IPv4 subnet'')
          else (case ParseCIDR (netIPv4Subnet (cfgVMNetwork cfg)) of
              None \<Rightarrow> Inl (Msg ''vm_network.ipv4_subnet must be CIDR'')
            | Some (base4, subnet4) \<Rightarrow>
                if To4 base4 = None then Inl (Msg ''vm_network.ipv4_subnet must be IPv4'')
                else (case addToIPv4 base4 offset of
                    Inl e \<Rightarrow> Inl e
                  | Inr guest4 \<Rightarrow> (case addToIPv4 base4 (offset - 1) of
                        Inl e \<Rightarrow> Inl e
                      | Inr host4 \<Rightarrow>
                          if \<not> netContains subnet4 host4 \<or> \<not> netContains subnet4 guest4
                          then Inl (Msg ''vm IPv4 subnet exhausted'')
                          else Inr (host4, guest4)))))"

section \<open>Names\<close>

definition tapName :: "string \<Rightarrow> string" where
  "tapName n = take 15 (''fdtap-'' @ n)"

definition hex2 :: "char \<Rightarrow> string" where
  "hex2 c = (let n = (of_char c :: nat) in [hexChar (n div 16), hexChar (n mod 16)])"

definition macForVMName :: "string \<Rightarrow> string" where
  "macForVMName n = (let sum = sha256 n in
     join ([''06'', ''00''] @ map hex2 (take 4 sum)) '':'')"

record preparedNetwork =
  pnTapName :: string
  pnGuestMAC :: string
  pnGuestCIDR :: string
  pnHostIP :: ip
  pnGuestIP :: ip
  pnHostIPv4 :: ip
  pnGuestIPv4 :: ip

definition bootArgs :: "Config \<Rightarrow> preparedNetwork \<Rightarrow> string" where
  "bootArgs cfg n =
     ''console=ttyS0 reboot=k panic=1 net.ifnames=0 root=/dev/vda rw memhp_default_state=online_movable quiet loglevel=3 systemd.show_status=false rd.systemd.show_status=false'' @
     '' firedoze.guest_ip='' @ ipString (pnGuestIP n) @
     '' firedoze.host_ip='' @ ipString (pnHostIP n) @
     '' firedoze.guest_ipv4='' @ ipString (pnGuestIPv4 n) @
     '' firedoze.host_ipv4='' @ ipString (pnHostIPv4 n) @
     '' firedoze.memory_port='' @ itoa (cfgMemoryPort cfg) @
     (if dnsEnabled (cfgDNS cfg)
      then '' firedoze.dns_ip='' @ dnsListenIP (cfgDNS cfg) @ '' firedoze.dns_domain='' @ dnsDomain (cfgDNS cfg)
      else [])"

section \<open>Networks as intervals\<close>

lemma mask_interval: "(p :: nat) div 2 ^ w * 2 ^ w = q * 2 ^ w \<longleftrightarrow> q * 2 ^ w \<le> p \<and> p < q * 2 ^ w + 2 ^ w"
proof
  assume "p div 2 ^ w * 2 ^ w = q * 2 ^ w"
  then have "p = q * 2 ^ w + p mod 2 ^ w" by (metis div_mult_mod_eq)
  moreover have "p mod 2 ^ w < 2 ^ w" by simp
  ultimately show "q * 2 ^ w \<le> p \<and> p < q * 2 ^ w + 2 ^ w" by linarith
next
  assume "q * 2 ^ w \<le> p \<and> p < q * 2 ^ w + 2 ^ w"
  then have "p div 2 ^ w = q" by (intro div_nat_eqI) (auto simp: mult.commute)
  then show "p div 2 ^ w * 2 ^ w = q * 2 ^ w" by simp
qed

text \<open>A parsed network is an aligned interval.\<close>

lemma ParseCIDR_aligned:
  assumes "ParseCIDR s = Some (a, n)"
  obtains q w where "netIP n = q * 2 ^ w"
    and "\<And>p. netContains n p \<longleftrightarrow> (To4 p \<noteq> None) = (netIs4 n \<or> To4 (netIP n) \<noteq> None) \<and> q * 2 ^ w \<le> p \<and> p < q * 2 ^ w + 2 ^ w"
proof -
  define w where "w = netWidth (netIs4 n) - netOnes n"
  have b: "netIP n = a div 2 ^ w * 2 ^ w"
    using assms by (auto simp: ParseCIDR_def maskIP_def w_def Let_def split: prod.splits option.splits if_splits)
  show thesis
  proof (rule that [OF b])
    fix p
    show "netContains n p \<longleftrightarrow> (To4 p \<noteq> None) = (netIs4 n \<or> To4 (netIP n) \<noteq> None) \<and>
        a div 2 ^ w * 2 ^ w \<le> p \<and> p < a div 2 ^ w * 2 ^ w + 2 ^ w"
      unfolding netContains_def maskIP_def b mask_interval [symmetric] w_def by simp
  qed
qed

lemma To4_pred: "odd p \<Longrightarrow> (To4 (p - 1) \<noteq> None) = (To4 p \<noteq> None)"
proof -
  assume "odd p"
  then have "(p - 1) div 2 = p div 2" by (auto elim: oddE)
  then have "(p - 1) div 2 ^ 32 = p div 2 ^ 32" using div_mult2_eq [of "p - 1" 2 "2 ^ 31"] div_mult2_eq [of p 2 "2 ^ 31"] by simp
  then show ?thesis by (simp add: To4_def)
qed

lemma addToIP_ok: "addToIP b off = Inr p \<longleftrightarrow> 0 \<le> int b + off \<and> p = nat (int b + off) \<and> p < ipBound"
  by (auto simp: addToIP_def Let_def not_less nat_less_iff)

text \<open>An odd offset of at least three that stays inside an aligned interval.\<close>

lemma pair_in_network:
  assumes "ParseCIDR s = Some (a, n)" and "netContains n p" and "p = netIP n + k" and "odd k" and "3 \<le> k"
  shows "odd p \<and> netContains n (p - 1)"
proof -
  obtain q w where b: "netIP n = q * 2 ^ w"
    and c: "\<And>p. netContains n p \<longleftrightarrow> (To4 p \<noteq> None) = (netIs4 n \<or> To4 (netIP n) \<noteq> None) \<and> q * 2 ^ w \<le> p \<and> p < q * 2 ^ w + 2 ^ w"
    using ParseCIDR_aligned [OF assms(1)] by blast
  have "k < 2 ^ w" using assms(2,3) b c by simp
  with assms(5) have "w \<noteq> 0" by (intro notI) simp
  then have "even (netIP n)" by (simp add: b)
  with assms(3,4) have "odd p" by simp
  moreover have "netIP n \<le> p - 1" using assms(3,5) by simp
  ultimately show ?thesis using assms(2) c [of p] c [of "p - 1"] To4_pred b by auto
qed

section \<open>The search\<close>

lemma searchIP_found:
  "searchIP fuel n used off = Some (Inr p) \<Longrightarrow>
     \<exists>i. addToIP (netIP n) (off + 2 * int i) = Inr p \<and> netContains n p \<and> ipString p \<notin> set used"
proof (induction fuel arbitrary: off)
  case (Suc fuel)
  show ?case
  proof (cases "searchIP fuel n used (off + 2) = Some (Inr p)")
    case True
    from Suc.IH [OF this] obtain i where "addToIP (netIP n) (off + 2 + 2 * int i) = Inr p" "netContains n p" "ipString p \<notin> set used"
      by blast
    moreover have "off + 2 + 2 * int i = off + 2 * int (Suc i)" by simp
    ultimately show ?thesis by metis
  next
    case False
    with Suc.prems have "addToIP (netIP n) off = Inr p" "netContains n p" "ipString p \<notin> set used"
      by (auto split: sum.splits if_splits)
    then show ?thesis by (intro exI [of _ 0]) simp
  qed
qed simp

lemma searchIP_bound:
  "searchIP fuel n used off = None \<Longrightarrow> i < fuel \<Longrightarrow>
     \<exists>p. addToIP (netIP n) (off + 2 * int i) = Inr p \<and> ipString p \<in> set used"
proof (induction fuel arbitrary: off i)
  case (Suc fuel)
  then obtain p where p: "addToIP (netIP n) off = Inr p" "ipString p \<in> set used" "searchIP fuel n used (off + 2) = None"
    by (auto split: sum.splits if_splits)
  show ?case
  proof (cases i)
    case (Suc j)
    with p(3) Suc.IH [of "off + 2" j] Suc.prems(2) show ?thesis by (simp add: algebra_simps)
  qed (use p in simp)
qed simp

lemma searchIP_error:
  "searchIP fuel n used off = Some (Inl e) \<Longrightarrow>
     \<exists>i. (\<forall>j < i. \<exists>p. addToIP (netIP n) (off + 2 * int j) = Inr p \<and> ipString p \<in> set used) \<and>
         \<not> (\<exists>p. addToIP (netIP n) (off + 2 * int i) = Inr p \<and> netContains n p)"
proof (induction fuel arbitrary: off)
  case (Suc fuel)
  show ?case
  proof (cases "\<exists>p. addToIP (netIP n) off = Inr p \<and> netContains n p")
    case True
    with Suc.prems obtain p where p: "addToIP (netIP n) off = Inr p" "ipString p \<in> set used"
      "searchIP fuel n used (off + 2) = Some (Inl e)" by (auto split: if_splits)
    from Suc.IH [OF p(3)] obtain i where i: "\<forall>j < i. \<exists>p. addToIP (netIP n) (off + 2 + 2 * int j) = Inr p \<and> ipString p \<in> set used"
      "\<not> (\<exists>p. addToIP (netIP n) (off + 2 + 2 * int i) = Inr p \<and> netContains n p)" by blast
    have e: "off + 2 * int (Suc j) = off + 2 + 2 * int j" for j by simp
    have "\<exists>p. addToIP (netIP n) (off + 2 * int j) = Inr p \<and> ipString p \<in> set used" if "j < Suc i" for j
    proof (cases j)
      case (Suc k)
      with that i(1) show ?thesis unfolding Suc e by simp
    qed (use p in simp)
    then show ?thesis using i(2) by (intro exI [of _ "Suc i"]) (simp only: e, simp)
  next
    case False
    then show ?thesis by (intro exI [of _ 0]) simp
  qed
qed simp

text \<open>One more round than there are addresses in use is enough.\<close>

lemma searchIP_enough_fuel:
  assumes "length used < fuel"
  shows "searchIP fuel n used off \<noteq> None"
proof
  assume none: "searchIP fuel n used off = None"
  define f where "f i = ipString (nat (int (netIP n) + (off + 2 * int i)))" for i
  have p: "0 \<le> int (netIP n) + (off + 2 * int i) \<and> nat (int (netIP n) + (off + 2 * int i)) < ipBound \<and> f i \<in> set used"
    if "i < fuel" for i
    using searchIP_bound [OF none that] by (auto simp: addToIP_ok f_def)
  have "inj_on f {..<fuel}"
  proof (rule inj_onI)
    fix i j assume "i \<in> {..<fuel}" "j \<in> {..<fuel}" "f i = f j"
    with p [of i] p [of j] have "nat (int (netIP n) + (off + 2 * int i)) = nat (int (netIP n) + (off + 2 * int j))"
      unfolding f_def by (intro ipString_inj) auto
    with p [of i] p [of j] \<open>i \<in> _\<close> \<open>j \<in> _\<close> show "i = j" by auto
  qed
  then have "fuel \<le> card (set used)"
    using p card_inj_on_le [of f "{..<fuel}" "set used"] by auto
  with assms card_length [of used] show False by linarith
qed

declare searchIP.simps [simp del]

section \<open>What the manager hands out\<close>

lemma wp_ListVMs: "(\<And>rs. Q (map scanVM (sort_key cName (vmsT s))) (s\<lparr>outcomes := rs\<rparr>)) \<Longrightarrow>
    (\<And>e rs. E e (s\<lparr>outcomes := rs\<rparr>)) \<Longrightarrow> wp ListVMs Q E s"
  unfolding ListVMs_def ListVMsMatching_def by (rule wp_query_frame) auto

lemma set_usedIPs: "set (usedIPs (map scanVM (sort_key cName rows))) = {coalesce (cPrivateIP r) | r. r \<in> set rows} - {[]}"
  by (auto simp: usedIPs_def scanVM_def image_iff)

lemma nextPrivateIP_wp:
  assumes "ParseCIDR (netSubnet (cfgVMNetwork cfg)) = Some (a, n)"
  shows "wp (nextPrivateIP cfg)
     (\<lambda>p t. To4 (netIP n) = None \<and> netContains n p \<and> p < ipBound \<and> (\<exists>i. p = netIP n + (3 + 2 * i)) \<and>
        ipString p \<notin> set (usedIPs (map scanVM (sort_key cName (vmsT s)))))
     (\<lambda>_ _. True) s"
proof -
  let ?used = "usedIPs (map scanVM (sort_key cName (vmsT s)))"
  have "p < ipBound \<and> netContains n p \<and> (\<exists>i. p = netIP n + (3 + 2 * i)) \<and> ipString p \<notin> set ?used"
    if s: "searchIP (length (map scanVM (sort_key cName (vmsT s))) + 1) n ?used 3 = Some (Inr p)" for p
  proof -
    from searchIP_found [OF s] obtain i where "addToIP (netIP n) (3 + 2 * int i) = Inr p" "netContains n p" "ipString p \<notin> set ?used"
      by blast
    then show ?thesis by (auto simp: addToIP_ok intro!: exI [of _ i])
  qed
  then show ?thesis
    unfolding nextPrivateIP_def
    by (auto simp: assms wp_rules simp del: length_map split: option.splits sum.splits intro!: wp_ListVMs)
qed

text \<open>
  C11: Whatever calls fail, an address that \<open>nextPrivateIP\<close> returns lies in the configured subnet
  together with its even neighbour, the host end of the /127 pair; it is odd; it is at least three
  above the base, so the pair keeps clear of the base and of \<open>base + 1\<close>; no stored machine has it;
  and the pair is disjoint from the pair of every stored machine with an odd address.
\<close>

theorem nextPrivateIP_fresh:
  assumes "nextPrivateIP cfg s = (Inr p, t)"
  shows "\<exists>a n. ParseCIDR (netSubnet (cfgVMNetwork cfg)) = Some (a, n) \<and> netContains n p \<and> netContains n (p - 1) \<and>
     odd p \<and> netIP n + 3 \<le> p \<and> p < ipBound \<and>
     (\<forall>r \<in> set (vmsT s). cPrivateIP r \<noteq> Some (ipString p)) \<and>
     (\<forall>r \<in> set (vmsT s). \<forall>q. cPrivateIP r = Some (ipString q) \<longrightarrow> odd q \<longrightarrow> {q - 1, q} \<inter> {p - 1, p} = {})"
proof -
  from assms obtain a n where n: "ParseCIDR (netSubnet (cfgVMNetwork cfg)) = Some (a, n)"
    by (auto simp: nextPrivateIP_def throw_def split: option.splits)
  from wpD_Inr [OF nextPrivateIP_wp [OF n] assms] obtain i where c: "netContains n p" "p < ipBound" "p = netIP n + (3 + 2 * i)"
      and u: "ipString p \<notin> set (usedIPs (map scanVM (sort_key cName (vmsT s))))" by blast
  have odd: "odd p \<and> netContains n (p - 1)" using n c(1,3) by (rule pair_in_network) simp_all
  have "ipString p \<noteq> []" using ParseIP_String [OF c(2)] by (auto simp: ParseIP_def parseIPv4_def split_def)
  then have unused: "cPrivateIP r \<noteq> Some (ipString p)" if "r \<in> set (vmsT s)" for r
    using that u unfolding set_usedIPs by (auto simp: coalesce_def)
  have "{q - 1, q} \<inter> {p - 1, p} = {}" if "r \<in> set (vmsT s)" "cPrivateIP r = Some (ipString q)" "odd q" for r q
  proof -
    have "q \<noteq> p" using that unused by blast
    with that(3) odd show ?thesis by (auto elim!: oddE)
  qed
  with n c odd unused show ?thesis by auto
qed

text \<open>
  C12: When no call fails and the subnet is an IPv6 network, \<open>nextPrivateIP\<close> either returns an address,
  or it has met an odd offset outside the subnet after finding every odd offset below it, from three
  on, in use.  The search always ends.
\<close>

theorem nextPrivateIP_complete:
  assumes "fault_free s" and "ParseCIDR (netSubnet (cfgVMNetwork cfg)) = Some (a, n)" and "To4 (netIP n) = None"
  shows "(\<exists>p. nextPrivateIP cfg s = (Inr p, s)) \<or>
     (\<exists>e i. nextPrivateIP cfg s = (Inl e, s) \<and>
        (\<forall>j < i. \<exists>r \<in> set (vmsT s). cPrivateIP r = Some (ipString (netIP n + 3 + 2 * j))) \<and>
        \<not> (netContains n (netIP n + 3 + 2 * i) \<and> netIP n + 3 + 2 * i < ipBound))"
proof -
  let ?vms = "map scanVM (sort_key cName (vmsT s))"
  let ?r = "searchIP (length ?vms + 1) n (usedIPs ?vms) 3"
  have "length (usedIPs ?vms) < length ?vms + 1" unfolding usedIPs_def by (metis Suc_eq_plus1 length_filter_le length_map less_Suc_eq_le)
  then obtain r where r: "?r = Some r" using searchIP_enough_fuel by blast
  have run: "nextPrivateIP cfg s = (r, s)"
    using assms r by (simp add: nextPrivateIP_def ListVMs_def ListVMsMatching_def bind_def fromSum_def
        del: length_map)
  show ?thesis
  proof (cases r)
    case (Inr p)
    with run show ?thesis by blast
  next
    case (Inl e)
    have nat3: "nat (int b + (3 + 2 * int j)) = b + 3 + 2 * j" for b j by simp
    from searchIP_error r Inl obtain i where
      i: "\<forall>j < i. \<exists>p. addToIP (netIP n) (3 + 2 * int j) = Inr p \<and> ipString p \<in> set (usedIPs ?vms)"
        "\<not> (\<exists>p. addToIP (netIP n) (3 + 2 * int i) = Inr p \<and> netContains n p)" by metis
    have "\<exists>r \<in> set (vmsT s). cPrivateIP r = Some (ipString (netIP n + 3 + 2 * j))" if ji: "j < i" for j
    proof -
      obtain r where "r \<in> set (vmsT s)" "coalesce (cPrivateIP r) = ipString (netIP n + 3 + 2 * j)"
        "coalesce (cPrivateIP r) \<noteq> []"
        using i(1) ji unfolding set_usedIPs addToIP_ok nat3 by fastforce
      then show ?thesis by (auto simp: coalesce_def split: option.splits)
    qed
    moreover have "\<not> (netContains n (netIP n + 3 + 2 * i) \<and> netIP n + 3 + 2 * i < ipBound)"
      using i(2) unfolding addToIP_ok nat3 by auto
    ultimately show ?thesis using run Inl by blast
  qed
qed

text \<open>The default subnet with no machine in it.\<close>

lemma nextPrivateIP_default:
  "nextPrivateIP Default emptyStore = (Inr (336928495290377064170890405512231256064 + 3), emptyStore)"
  by (rule wp_eqI) (simp add: nextPrivateIP_def Default_def default_nets To4_def ListVMs_def ListVMsMatching_def wp_rules
      query_def ff_rules emptyStore_def searchIP.simps usedIPs_def addToIP_def ipBound_def netContains_def maskIP_def netWidth_def)

lemma nextPrivateIP_fresh_witness:
  "\<exists>p t. nextPrivateIP Default emptyStore = (Inr p, t) \<and> odd p"
  using nextPrivateIP_fresh [OF nextPrivateIP_default] nextPrivateIP_default by blast

lemma nextPrivateIP_complete_witness:
  "(\<exists>p. nextPrivateIP Default emptyStore = (Inr p, emptyStore)) \<or> (\<exists>e. nextPrivateIP Default emptyStore = (Inl e, emptyStore))"
proof -
  have "fault_free emptyStore" "ParseCIDR (netSubnet (cfgVMNetwork Default)) = Some (336928495290377064170890405512231256064, \<lparr>netIP = 336928495290377064170890405512231256064, netOnes = 64, netIs4 = False\<rparr>)"
    "To4 (netIP \<lparr>netIP = 336928495290377064170890405512231256064, netOnes = 64, netIs4 = False\<rparr>) = None"
    by (simp_all add: emptyStore_def Default_def default_nets To4_def)
  from nextPrivateIP_complete [OF this] show ?thesis by blast
qed

subsection \<open>The IPv4 mirror\<close>

lemma wrap64_nonneg: "0 \<le> x \<Longrightarrow> x < 2 ^ 64 \<Longrightarrow> 0 \<le> wrap64 x \<Longrightarrow> wrap64 x = x"
proof (cases "x < 2 ^ 63")
  case False
  assume "0 \<le> x" "x < 2 ^ 64" "0 \<le> wrap64 x"
  with False have "(x + 2 ^ 63) mod 2 ^ 64 = x + 2 ^ 63 - 2 ^ 64" by (simp add: mod_pos_geq)
  with \<open>0 \<le> wrap64 x\<close> \<open>x < 2 ^ 64\<close> show ?thesis by (simp add: wrap64_def)
qed (simp add: wrap64_id)

lemma addToIPv4_ok:
  assumes "addToIPv4 a off = Inr p" and "0 \<le> off" and "off < 2 ^ 63"
  shows "\<exists>b. To4 a = Some b \<and> p = embed4 (b + nat off) \<and> b + nat off < 2 ^ 32"
proof -
  from assms(1) obtain b where b: "To4 a = Some b" "\<not> wrap64 (int b + off) < 0" "wrap64 (int b + off) \<le> 0xffffffff"
      "p = embed4 (nat (wrap64 (int b + off)))"
    by (auto simp: addToIPv4_def Let_def split: option.splits if_splits)
  have "b < 2 ^ 32" using b(1) To4_embed by blast
  then have "wrap64 (int b + off) = int b + off" using b(2) assms(2,3) by (intro wrap64_nonneg) auto
  with b assms(2) show ?thesis by (auto simp: nat_add_distrib)
qed

lemma privateIPv4Pair_ok:
  assumes "privateIPv4Pair cfg g = Inr (h4, g4)"
  shows "\<exists>a6 n6 a4 n4 b k. ParseCIDR (netSubnet (cfgVMNetwork cfg)) = Some (a6, n6) \<and> ParseCIDR (netIPv4Subnet (cfgVMNetwork cfg)) = Some (a4, n4) \<and>
     To4 a4 = Some b \<and> g = netIP n6 + k \<and> odd k \<and> h4 = embed4 (b + k - 1) \<and> g4 = embed4 (b + k) \<and> b + k < 2 ^ 32 \<and>
     netContains n4 h4 \<and> netContains n4 g4"
proof -
  from assms obtain a6 n6 a4 n4 where o: "ParseCIDR (netSubnet (cfgVMNetwork cfg)) = Some (a6, n6)"
      "ParseCIDR (netIPv4Subnet (cfgVMNetwork cfg)) = Some (a4, n4)"
      "0 < int g - int (netIP n6)" "odd (int g - int (netIP n6))" "int g - int (netIP n6) < 2 ^ 63"
      "addToIPv4 a4 (int g - int (netIP n6)) = Inr g4" "addToIPv4 a4 (int g - int (netIP n6) - 1) = Inr h4"
      "netContains n4 h4" "netContains n4 g4"
    by (auto simp: privateIPv4Pair_def Let_def split: option.splits if_splits sum.splits prod.splits)
  define k where "k = g - netIP n6"
  have k: "int g - int (netIP n6) = int k" "g = netIP n6 + k" "0 < k" "odd k" using o(3,4) by (auto simp: k_def)
  have km: "nat (int k - 1) = k - 1" using k(3) by simp
  from addToIPv4_ok [OF o(6)] addToIPv4_ok [OF o(7)] o(5) obtain b where "To4 a4 = Some b" "g4 = embed4 (b + k)"
      "b + k < 2 ^ 32" "h4 = embed4 (b + (k - 1))" unfolding k(1) using km k(3) by auto
  with o k show ?thesis by auto
qed

text \<open>
  C31: The IPv4 addresses that \<open>privateIPv4Pair\<close> gives a machine are neighbours inside the configured
  IPv4 network, host before guest, and two machines with different IPv6 addresses get disjoint
  pairs.  When the configured IPv4 address is even, as a network address is, the two are the two ends
  of one /31.
\<close>

theorem privateIPv4Pair_disjoint:
  assumes "privateIPv4Pair cfg g = Inr (h4, g4)" and "privateIPv4Pair cfg g' = Inr (h4', g4')" and "g \<noteq> g'"
  shows "g4 = h4 + 1 \<and> {h4, g4} \<inter> {h4', g4'} = {} \<and>
     (\<exists>a n b. ParseCIDR (netIPv4Subnet (cfgVMNetwork cfg)) = Some (a, n) \<and> To4 a = Some b \<and> netContains n h4 \<and> netContains n g4 \<and>
        (even b \<longrightarrow> h4 div 2 = g4 div 2))"
proof -
  obtain a6 n6 a4 n4 b k where p: "ParseCIDR (netSubnet (cfgVMNetwork cfg)) = Some (a6, n6)"
      "ParseCIDR (netIPv4Subnet (cfgVMNetwork cfg)) = Some (a4, n4)" "To4 a4 = Some b" "netContains n4 h4" "netContains n4 g4"
      "g = netIP n6 + k" "odd k" "h4 = embed4 (b + k - 1)" "g4 = embed4 (b + k)"
    using privateIPv4Pair_ok [OF assms(1)] by blast
  from privateIPv4Pair_ok [OF assms(2)] p(1-3) obtain k' where
      q: "g' = netIP n6 + k'" "odd k'" "h4' = embed4 (b + k' - 1)" "g4' = embed4 (b + k')"
    by auto
  have "k \<noteq> k'" using assms(3) p q by auto
  with p q have "g4 = h4 + 1" "{h4, g4} \<inter> {h4', g4'} = {}" "even b \<longrightarrow> h4 div 2 = g4 div 2"
    by (auto simp: embed4_def elim!: oddE)
  with p show ?thesis by auto
qed

lemma privateIPv4Pair_default:
  "privateIPv4Pair Default (336928495290377064170890405512231256064 + 3) = Inr (281470855282688 + 2, 281470855282688 + 3)"
  "privateIPv4Pair Default (336928495290377064170890405512231256064 + 5) = Inr (281470855282688 + 4, 281470855282688 + 5)"
  by (simp_all add: privateIPv4Pair_def Default_def default_nets To4_def netContains_def maskIP_def netWidth_def addToIPv4_def
      Let_def wrap64_id embed4_def)

lemma privateIPv4Pair_disjoint_witness:
  "\<exists>h g h' g'. privateIPv4Pair Default (336928495290377064170890405512231256064 + 3) = Inr (h, g) \<and>
     privateIPv4Pair Default (336928495290377064170890405512231256064 + 5) = Inr (h', g') \<and> g = h + 1 \<and> {h, g} \<inter> {h', g'} = {}"
  using privateIPv4Pair_disjoint [OF privateIPv4Pair_default] privateIPv4Pair_default by simp

section \<open>Where the derived values collide\<close>

text \<open>
  A configured IPv4 subnet with an odd address passes validation and makes the pair straddle two
  /31 networks: the guest is not on the link of its host address.
\<close>

theorem ipv4_pair_misaligned:
  "\<exists>h g. privateIPv4Pair (Default\<lparr>cfgVMNetwork := \<lparr>netSubnet = ''fd7a:115c:a1e0::/64'', netIPv4Subnet = ''10.88.0.1/16''\<rparr>\<rparr>) (336928495290377064170890405512231256064 + 3)
     = Inr (h, g) \<and> h div 2 \<noteq> g div 2"
proof -
  have "ParseCIDR ''10.88.0.1/16'' = Some (281470855282689, \<lparr>netIP = 281470855282688, netOnes = 16, netIs4 = True\<rparr>)"
    by (simp add: eval_net)
  then have "privateIPv4Pair (Default\<lparr>cfgVMNetwork := \<lparr>netSubnet = ''fd7a:115c:a1e0::/64'', netIPv4Subnet = ''10.88.0.1/16''\<rparr>\<rparr>) (336928495290377064170890405512231256064 + 3)
      = Inr (281470855282688 + 3, 281470855282688 + 4)"
    by (simp add: privateIPv4Pair_def default_nets To4_def netContains_def maskIP_def netWidth_def addToIPv4_def
      Let_def wrap64_id embed4_def)
  then show ?thesis by simp
qed

text \<open>
  The address of the DNS listener is not kept free when the configured subnet has host bits set: it
  is then an address that the first machine is given.
\<close>

theorem dns_listener_not_reserved:
  "\<exists>p. FirstUsableIP ''fd00::2/64'' = Inr p \<and>
     fst (nextPrivateIP (Default\<lparr>cfgVMNetwork := \<lparr>netSubnet = ''fd00::2/64'', netIPv4Subnet = ''10.88.0.0/16''\<rparr>\<rparr>) emptyStore) = Inr p"
proof -
  have c: "ParseCIDR ''fd00::2/64'' = Some (336294682933583715844663186250927177728 + 2, \<lparr>netIP = 336294682933583715844663186250927177728, netOnes = 64, netIs4 = False\<rparr>)"
    by (simp add: eval_net)
  have "FirstUsableIP ''fd00::2/64'' = Inr (336294682933583715844663186250927177728 + 3)"
    by (simp add: FirstUsableIP_def c To4_def netContains_def maskIP_def netWidth_def ipBound_def)
  moreover have "nextPrivateIP (Default\<lparr>cfgVMNetwork := \<lparr>netSubnet = ''fd00::2/64'', netIPv4Subnet = ''10.88.0.0/16''\<rparr>\<rparr>) emptyStore
      = (Inr (336294682933583715844663186250927177728 + 3), emptyStore)"
    by (rule wp_eqI) (simp add: nextPrivateIP_def c To4_def ListVMs_def ListVMsMatching_def wp_rules
      query_def ff_rules emptyStore_def searchIP.simps usedIPs_def addToIP_def ipBound_def netContains_def maskIP_def netWidth_def)
  ultimately show ?thesis by simp
qed

text \<open>
  Two machines have the same tap device exactly when their names agree in the first nine
  characters, so different machines can share one.
\<close>

theorem tapName_collision:
  "(tapName a = tapName b \<longleftrightarrow> take 9 a = take 9 b) \<and> tapName ''website-staging'' = tapName ''website-stable''"
  by (simp add: tapName_def)

end
