(* ===== verification/Json.thy ===== *)
theory Json
  imports GoLib
begin

text \<open>
  JSON values and the text \<open>encoding/json\<close> writes for them, compact and indented, with the escapes
  of Go's encoder.  Bytes from 128 on are taken to be valid UTF-8 and are copied.  Shown here: a
  string literal has no line end in it.
\<close>

datatype json =
    JNull
  | JBool bool
  | JNum int
  | JStr string
  | JArr "json list"
  | JObj "(string \<times> json) list"

definition jsonHex :: "nat \<Rightarrow> char" where
  "jsonHex d = char_of (if d < 10 then 48 + d else 87 + d)"

definition escapeChar :: "char \<Rightarrow> string" where
  "escapeChar c = (let n = (of_char c :: nat) in
     if c = CHR 0x22 \<or> c = CHR 0x5C then [CHR 0x5C, c]
     else if n = 8 then [CHR 0x5C, CHR ''b''] else if n = 9 then [CHR 0x5C, CHR ''t'']
     else if n = 10 then [CHR 0x5C, CHR ''n''] else if n = 12 then [CHR 0x5C, CHR ''f'']
     else if n = 13 then [CHR 0x5C, CHR ''r'']
     else if n < 32 \<or> n = 60 \<or> n = 62 \<or> n = 38
       then [CHR 0x5C, CHR ''u'', CHR ''0'', CHR ''0'', jsonHex (n div 16), jsonHex (n mod 16)]
     else [c])"

definition quoteJSON :: "string \<Rightarrow> string" where
  "quoteJSON s = [CHR 0x22] @ concat (map escapeChar s) @ [CHR 0x22]"

fun compactJSON :: "json \<Rightarrow> string" where
  "compactJSON JNull = ''null''"
| "compactJSON (JBool b) = (if b then ''true'' else ''false'')"
| "compactJSON (JNum i) = itoa i"
| "compactJSON (JStr s) = quoteJSON s"
| "compactJSON (JArr vs) = ''['' @ join (map compactJSON vs) '','' @ '']''"
| "compactJSON (JObj kvs) = ''{'' @ join (map (\<lambda>(k, v). quoteJSON k @ '':'' @ compactJSON v) kvs) '','' @ ''}''"

text \<open>\<open>json.MarshalIndent(v, "", "  ")\<close> at a nesting depth.\<close>

definition newline :: "nat \<Rightarrow> string" where
  "newline d = CHR 0x0A # concat (replicate d ''  '')"

fun indentJSON :: "nat \<Rightarrow> json \<Rightarrow> string" where
  "indentJSON d (JArr (v # vs)) = ''['' @ newline (Suc d) @
     join (map (indentJSON (Suc d)) (v # vs)) ('','' @ newline (Suc d)) @ newline d @ '']''"
| "indentJSON d (JObj (kv # kvs)) = ''{'' @ newline (Suc d) @
     join (map (\<lambda>(k, v). quoteJSON k @ '': '' @ indentJSON (Suc d) v) (kv # kvs)) ('','' @ newline (Suc d)) @ newline d @ ''}''"
| "indentJSON d (JArr []) = ''[]''"
| "indentJSON d (JObj []) = ''{}''"
| "indentJSON d v = compactJSON v"

lemma quoteJSON_no_newline: "CHR 0x0A \<notin> set (quoteJSON s) \<and> CHR 0x0D \<notin> set (quoteJSON s)"
proof -
  have h: "jsonHex d \<noteq> CHR 0x0A \<and> jsonHex d \<noteq> CHR 0x0D" if "d < 16" for d
  proof -
    have "(of_char (jsonHex d) :: nat) \<ge> 48" using that by (simp add: jsonHex_def)
    then show ?thesis by auto
  qed
  have "CHR 0x0A \<notin> set (escapeChar c) \<and> CHR 0x0D \<notin> set (escapeChar c)" for c
  proof -
    have "(of_char c :: nat) div 16 < 16" using of_char_mod_256 [of c] by (simp add: less_mult_imp_div_less)
    then show ?thesis using h [of "of_char c div 16"] h [of "of_char c mod 16"]
      by (auto simp: escapeChar_def Let_def)
  qed
  then show ?thesis by (auto simp: quoteJSON_def)
qed

end
