(* ===== verification/Times.thy ===== *)
theory Times
  imports GoLib
begin

text \<open>
  Calendar time of the \<open>time\<close> package as far as the daemon uses it: parsing and formatting of
  RFC 3339 texts.  A time is a number of nanoseconds since the Unix epoch, in the proleptic
  Gregorian calendar.  The parser takes the fixed-width form that the store and the daemon write;
  the one-digit hour that \<open>time.Parse\<close> also accepts is left out.
\<close>

section \<open>The calendar\<close>

definition leapYear :: "int \<Rightarrow> bool" where
  "leapYear y \<longleftrightarrow> y mod 4 = 0 \<and> (y mod 100 \<noteq> 0 \<or> y mod 400 = 0)"

definition daysIn :: "int \<Rightarrow> int \<Rightarrow> int" where
  "daysIn y m = (if m = 2 then (if leapYear y then 29 else 28) else if m \<in> {4, 6, 9, 11} then 30 else 31)"

text \<open>Days before a year, counted from the year 0, and days before a month in its year.\<close>

definition daysBeforeYear :: "int \<Rightarrow> int" where
  "daysBeforeYear y = 365 * y + (y + 3) div 4 - (y + 99) div 100 + (y + 399) div 400"

definition daysBeforeMonth :: "int \<Rightarrow> int \<Rightarrow> int" where
  "daysBeforeMonth y m = sum_list (map (daysIn y) [1..m - 1])"

definition epochDay :: int where
  "epochDay = 719528"

definition dayNumber :: "int \<Rightarrow> int \<Rightarrow> int \<Rightarrow> int" where
  "dayNumber y m d = daysBeforeYear y + daysBeforeMonth y m + d - 1 - epochDay"

definition validDate :: "int \<Rightarrow> int \<Rightarrow> int \<Rightarrow> bool" where
  "validDate y m d \<longleftrightarrow> 0 \<le> y \<and> y \<le> 9999 \<and> 1 \<le> m \<and> m \<le> 12 \<and> 1 \<le> d \<and> d \<le> daysIn y m"

section \<open>Parsing\<close>

definition digits :: "nat \<Rightarrow> string \<Rightarrow> (int \<times> string) option" where
  "digits n s = (if length s < n then None else
     map_option (\<lambda>v. (int v, drop n s)) (decNat 0 (take n s)))"

definition lit :: "char \<Rightarrow> string \<Rightarrow> string option" where
  "lit c s = (case s of [] \<Rightarrow> None | x # r \<Rightarrow> if x = c then Some r else None)"

text \<open>A fraction of a second, in nanoseconds; digits past the ninth are dropped.\<close>

definition fraction :: "string \<Rightarrow> (int \<times> string) option" where
  "fraction s = (case s of
      [] \<Rightarrow> Some (0, s)
    | c # r \<Rightarrow>
        if c = CHR ''.'' \<or> c = CHR '','' then
          (let ds = takeWhile (\<lambda>x. digitVal x \<noteq> None) r in
           if ds = [] then None
           else map_option (\<lambda>v. (int v, drop (length ds) r)) (decNat 0 (take 9 (ds @ ''000000000''))))
        else Some (0, s))"

definition zone :: "string \<Rightarrow> int option" where
  "zone s = (case s of
      [] \<Rightarrow> None
    | c # r \<Rightarrow>
        if c = CHR ''Z'' then (if r = [] then Some 0 else None)
        else if c = CHR ''+'' \<or> c = CHR ''-'' then
          Option.bind (digits 2 r) (\<lambda>(h, r). Option.bind (lit (CHR '':'') r) (\<lambda>r.
          Option.bind (digits 2 r) (\<lambda>(m, r).
            if r = [] \<and> h \<le> 24 \<and> m < 60
            then Some ((if c = CHR ''-'' then - 1 else 1) * (h * 3600 + m * 60)) else None)))
        else None)"

definition parseRFC3339 :: "string \<Rightarrow> int option" where
  "parseRFC3339 s =
     Option.bind (digits 4 s) (\<lambda>(y, s). Option.bind (lit (CHR ''-'') s) (\<lambda>s.
     Option.bind (digits 2 s) (\<lambda>(mo, s). Option.bind (lit (CHR ''-'') s) (\<lambda>s.
     Option.bind (digits 2 s) (\<lambda>(d, s). Option.bind (lit (CHR ''T'') s) (\<lambda>s.
     Option.bind (digits 2 s) (\<lambda>(h, s). Option.bind (lit (CHR '':'') s) (\<lambda>s.
     Option.bind (digits 2 s) (\<lambda>(mi, s). Option.bind (lit (CHR '':'') s) (\<lambda>s.
     Option.bind (digits 2 s) (\<lambda>(sec, s). Option.bind (fraction s) (\<lambda>(ns, s).
     Option.bind (zone s) (\<lambda>off.
       if validDate y mo d \<and> h < 24 \<and> mi < 60 \<and> sec < 60
       then Some ((dayNumber y mo d * 86400 + h * 3600 + mi * 60 + sec - off) * 1000000000 + ns)
       else None)))))))))))))"

section \<open>Formatting\<close>

text \<open>The date of a day number, by searching the year around an estimate and then the month.\<close>

fun findMonth :: "int \<Rightarrow> int list \<Rightarrow> int \<Rightarrow> int \<times> int" where
  "findMonth y [] d = (12, d + 1)"
| "findMonth y (m # ms) d = (if d < daysIn y m then (m, d + 1) else findMonth y ms (d - daysIn y m))"

definition yearOf :: "int \<Rightarrow> int" where
  "yearOf n = (let y = n * 400 div 146097 in if daysBeforeYear (y + 1) \<le> n then y + 1 else if n < daysBeforeYear y then y - 1 else y)"

definition dateOf :: "int \<Rightarrow> int \<times> int \<times> int" where
  "dateOf day = (let n = day + epochDay; y = yearOf n; (m, d) = findMonth y [1..12] (n - daysBeforeYear y) in (y, m, d))"

definition pad :: "nat \<Rightarrow> int \<Rightarrow> string" where
  "pad w i = (let s = natDec (nat i) in replicate (w - length s) (CHR ''0'') @ s)"

definition formatSeconds :: "int \<Rightarrow> string" where
  "formatSeconds t =
     (let sec = t div 1000000000; (y, m, d) = dateOf (sec div 86400); r = sec mod 86400 in
      pad 4 y @ ''-'' @ pad 2 m @ ''-'' @ pad 2 d @ ''T'' @
      pad 2 (r div 3600) @ '':'' @ pad 2 (r div 60 mod 60) @ '':'' @ pad 2 (r mod 60))"

text \<open>\<open>t.UTC().Format(time.RFC3339)\<close> and \<open>t.UTC().Format(time.RFC3339Nano)\<close>\<close>

definition formatRFC3339 :: "int \<Rightarrow> string" where
  "formatRFC3339 t = formatSeconds t @ ''Z''"

definition formatRFC3339Nano :: "int \<Rightarrow> string" where
  "formatRFC3339Nano t =
     (let ns = t mod 1000000000; ds = rev (dropWhile (\<lambda>c. c = CHR ''0'') (rev (pad 9 ns))) in
      formatSeconds t @ (if ns = 0 then [] else CHR ''.'' # ds) @ ''Z'')"

end
