(* ===== verification/Paths.thy ===== *)
theory Paths
  imports Files "HOL-Library.Sublist"
begin

text \<open>
  Absolute paths as lists of elements.  \<open>elems d\<close> are the elements of a cleaned absolute path;
  \<open>filepath.Join\<close> of plain elements appends to them, and one path is at or below another exactly
  when its elements extend the other's.
\<close>

definition elems :: "string \<Rightarrow> string list" where
  "elems p = rev (cleanStack p)"

abbreviation rendered :: "string list \<Rightarrow> string" where
  "rendered \<equiv> renderPath True"

definition plainElems :: "string list \<Rightarrow> bool" where
  "plainElems cs \<longleftrightarrow> (\<forall>c \<in> set cs. plainElem c)"

lemma plainElems_simps [simp]:
  "plainElems []" "plainElems (c # cs) \<longleftrightarrow> plainElem c \<and> plainElems cs"
  "plainElems (cs @ ds) \<longleftrightarrow> plainElems cs \<and> plainElems ds"
  by (auto simp: plainElems_def)

lemma isAbs_nonempty: "isAbs p \<Longrightarrow> p \<noteq> []"
  by (auto simp: isAbs_def hasPrefix_def)

lemma isAbs_rendered [simp]: "isAbs (rendered cs)"
  by (simp add: isAbs_def renderPath_def hasPrefix_def)

lemma rendered_nonempty [simp]: "rendered cs \<noteq> []"
  by (simp add: renderPath_def)

lemma elems_plain: "isAbs p \<Longrightarrow> plainElems (elems p)"
proof -
  have step: "plainElems (rev (cleanStep True st c))" if "plainElems (rev st)" "CHR ''/'' \<notin> set c" for st c
    using that by (cases st) (auto simp: cleanStep_def plainElem_def plainElems_def)
  have "plainElems (rev (foldl (cleanStep True) st cs))"
    if "plainElems (rev st)" "\<forall>c \<in> set cs. CHR ''/'' \<notin> set c" for st cs
    using that
  proof (induction cs arbitrary: st)
    case (Cons c cs)
    then have "plainElems (rev (cleanStep True st c))" by (intro step) auto
    with Cons show ?case by auto
  qed simp
  then show "isAbs p \<Longrightarrow> plainElems (elems p)"
    using split_parts [of _ p "CHR ''/''"] by (auto simp: elems_def cleanStack_def)
qed

lemma pathJoin_rendered:
  "isAbs d \<Longrightarrow> cs \<noteq> [] \<Longrightarrow> plainElems cs \<Longrightarrow> pathJoin (d # cs) = rendered (elems d @ cs)"
  by (simp add: pathJoin_plain isAbs_nonempty plainElems_def elems_def)

lemma split_rendered:
  assumes "cs \<noteq> []" and "plainElems cs"
  shows "split (rendered cs) (CHR ''/'') = [] # cs"
proof -
  have "split (join cs ''/'') (CHR ''/'') = cs"
    using assms by (intro split_join) (auto simp: plainElems_def plainElem_def)
  then show ?thesis using split_append_sep [of "[]" "CHR ''/''" "join cs ''/''"]
    by (simp add: renderPath_def split_plain)
qed

lemma elems_rendered [simp]:
  assumes "cs \<noteq> []" and "plainElems cs" shows "elems (rendered cs) = cs"
  using assms by (simp add: elems_def cleanStack_def split_rendered cleanStep_def foldl_plain plainElems_def)

lemma rendered_inj:
  "cs \<noteq> [] \<Longrightarrow> ds \<noteq> [] \<Longrightarrow> plainElems cs \<Longrightarrow> plainElems ds \<Longrightarrow> rendered cs = rendered ds \<longleftrightarrow> cs = ds"
  by (metis elems_rendered)

lemma join_append: "cs \<noteq> [] \<Longrightarrow> ds \<noteq> [] \<Longrightarrow> join (cs @ ds) sep = join cs sep @ sep @ join ds sep"
  by (induction cs rule: list_nonempty_induct) (auto simp: join_Cons)

lemma below_rendered:
  assumes "cs \<noteq> []" "ds \<noteq> []" "plainElems cs" "plainElems ds"
  shows "below (rendered cs) (rendered ds) \<longleftrightarrow> prefix cs ds"
proof
  assume "below (rendered cs) (rendered ds)"
  then consider "rendered ds = rendered cs" | t where "rendered ds = rendered cs @ CHR ''/'' # t"
    by (auto simp: below_iff)
  then show "prefix cs ds"
  proof cases
    case 1
    with assms show ?thesis by (simp add: rendered_inj)
  next
    case 2
    then have "split (rendered ds) (CHR ''/'') = split (rendered cs) (CHR ''/'') @ split t (CHR ''/'')"
      by (simp add: split_append_sep)
    with assms show ?thesis by (simp add: split_rendered)
  qed
next
  assume "prefix cs ds"
  then obtain es where ds: "ds = cs @ es" by (auto simp: prefix_def)
  show "below (rendered cs) (rendered ds)"
  proof (cases es)
    case (Cons e es')
    then have "rendered ds = rendered cs @ ''/'' @ join es ''/''"
      using ds assms by (simp add: renderPath_def join_append)
    then show ?thesis by (auto simp: below_iff)
  qed (simp add: ds)
qed

lemma ancestors_below: "d \<in> set (ancestors p) \<Longrightarrow> below d p"
proof -
  have "below (take i p) p" if "i < length p" "p ! i = CHR ''/''" for i
  proof -
    have "p = take i p @ CHR ''/'' # drop (Suc i) p"
      using that by (metis append_take_drop_id Cons_nth_drop_Suc)
    then show ?thesis unfolding below_iff by blast
  qed
  then show "d \<in> set (ancestors p) \<Longrightarrow> below d p" by (auto simp: ancestors_def)
qed

text \<open>A path of one more element, such as the path of a temporary file.\<close>

lemma rendered_snoc:
  "cs \<noteq> [] \<Longrightarrow> rendered cs @ ''/'' @ x = rendered (cs @ [x])"
  by (simp add: renderPath_def join_append)

lemma pathDir_rendered:
  assumes "cs \<noteq> []" "plainElems (cs @ [c])" shows "pathDir (rendered (cs @ [c])) = rendered cs"
proof -
  have r: "rendered (cs @ [c]) = rendered cs @ CHR ''/'' # c" using assms by (simp add: renderPath_def join_append)
  have d: "dropWhile (\<lambda>x. x \<noteq> CHR ''/'') (rev c @ CHR ''/'' # rev (rendered cs)) = CHR ''/'' # rev (rendered cs)"
    using assms(2) by (subst dropWhile_append2) (auto simp: plainElem_def)
  have "split (rendered cs @ ''/'') (CHR ''/'') = [] # cs @ [[]]"
    using split_append_sep [of "rendered cs" "CHR ''/''" "[]"] assms by (simp add: split_rendered split_plain)
  moreover have "isAbs (rendered cs @ ''/'')" by (simp add: isAbs_append isAbs_nonempty)
  moreover have "\<forall>x \<in> set cs. plainElem x" using assms(2) by (simp add: plainElems_def)
  ultimately have "pathClean (rendered cs @ ''/'') = rendered cs"
    by (simp add: pathClean_def cleanStack_def foldl_plain cleanStep_def)
  then show ?thesis by (simp add: pathDir_def r d)
qed

end
