(* ===== verification/Sparse.thy ===== *)
theory Sparse
  imports Files
begin

text \<open>
  Copying of disk images: \<open>copySparseFile\<close>, \<open>copyFileDense\<close> and \<open>tryCloneFile\<close> of
  \<open>internal/firecracker/manager.go\<close> and \<open>clone_linux.go\<close>.  The kernel's \<open>SEEK_DATA\<close> and
  \<open>SEEK_HOLE\<close> are an argument, one record per source file; \<open>honest\<close> states what \<open>lseek(2)\<close> documents
  for them.  The output file has a content and a position.

  Shown here: with an honest kernel the extent-by-extent copy ends, needs at most one round per
  byte, and yields exactly the content of the source.
\<close>

section \<open>Definitions\<close>

datatype seekResult = At nat | NoMoreData | SeekUnsupported | SeekFailed string

record seeker =
  seekData :: "nat \<Rightarrow> seekResult"
  seekHole :: "nat \<Rightarrow> seekResult"

text \<open>\<open>write(2)\<close> at a position; a gap before it reads as zero bytes.\<close>

definition overwrite :: "string \<Rightarrow> nat \<Rightarrow> string \<Rightarrow> string" where
  "overwrite c pos bs = (if bs = [] then c
     else take pos (c @ replicate (pos - length c) (CHR 0x00)) @ bs @ drop (pos + length bs) c)"

definition fileBytes :: "'z fsys_scheme \<Rightarrow> string \<Rightarrow> string" where
  "fileBytes s p = (case look s p of Some (File b) \<Rightarrow> b | _ \<Rightarrow> [])"

definition writeAt :: "string \<Rightarrow> nat \<Rightarrow> string \<Rightarrow> ('z fsys_scheme, unit) prog" where
  "writeAt p pos bs s = (case next_outcome s of
      (Success, s') \<Rightarrow> (Inr (), s'\<lparr>files := put p (File (overwrite (fileBytes s' p) pos bs)) (files s')\<rparr>)
    | (Failure m k, s') \<Rightarrow> (Inl (Msg m), s'\<lparr>files := put p (File (overwrite (fileBytes s' p) pos (take k bs))) (files s')\<rparr>)
    | (Cancelled, s') \<Rightarrow> (Inl (Sentinel Canceled), s'))"

definition setSize :: "string \<Rightarrow> nat \<Rightarrow> ('z fsys_scheme, unit) prog" where
  "setSize p n = bind call (\<lambda>_. modify (\<lambda>s.
     s\<lparr>files := put p (File (take n (fileBytes s p) @ replicate (n - length (fileBytes s p)) (CHR 0x00))) (files s)\<rparr>))"

text \<open>The source is rewound, the output is not: \<open>pos\<close> is where the output stands.\<close>

definition copyFileDense :: "string \<Rightarrow> string \<Rightarrow> nat \<Rightarrow> ('z fsys_scheme, unit) prog" where
  "copyFileDense dst b pos = bind call (\<lambda>_. writeAt dst pos b)"

text \<open>The loop over the extents; the result says whether the fuel sufficed.\<close>

fun copyExtents :: "nat \<Rightarrow> seeker \<Rightarrow> string \<Rightarrow> string \<Rightarrow> nat \<Rightarrow> nat \<Rightarrow> ('z fsys_scheme, bool) prog" where
  "copyExtents 0 sk dst b offset pos = ret False"
| "copyExtents (Suc fuel) sk dst b offset pos =
     (if \<not> offset < length b then bind (setSize dst (length b)) (\<lambda>_. ret True) else
      case seekData sk offset of
        NoMoreData \<Rightarrow> bind (setSize dst (length b)) (\<lambda>_. ret True)
      | SeekUnsupported \<Rightarrow> bind (copyFileDense dst b pos) (\<lambda>_. ret True)
      | SeekFailed m \<Rightarrow> throw (Msg m)
      | At data \<Rightarrow>
          (case seekHole sk data of
             NoMoreData \<Rightarrow> throw (Msg ''ENXIO'')
           | SeekUnsupported \<Rightarrow> bind (copyFileDense dst b pos) (\<lambda>_. ret True)
           | SeekFailed m \<Rightarrow> throw (Msg m)
           | At h \<Rightarrow>
               let hole = (if h > length b then length b else h) in
               bind call (\<lambda>_. bind call (\<lambda>_.
               bind (writeAt dst data (take (hole - data) (drop data b))) (\<lambda>_.
               copyExtents fuel sk dst b hole (data + length (take (hole - data) (drop data b))))))))"

definition copySparseFile :: "(string \<Rightarrow> seeker) \<Rightarrow> string \<Rightarrow> node \<Rightarrow> ('z fsys_scheme, unit) prog" where
  "copySparseFile seeks dst n = bind call (\<lambda>_.
     case n of Dir \<Rightarrow> throw (Msg ''is a directory'')
     | File b \<Rightarrow> if b = [] then ret ()
        else bind (copyExtents (Suc (length b)) (seeks b) dst b 0 0) (\<lambda>finished.
             unless_prog finished (Msg ''no progress'')))"

text \<open>
  \<open>tryCloneFile\<close>: the clone ioctl takes the whole content, is not supported (a failure whose count
  is 0), or fails.
\<close>

definition ioctlFileClone :: "string \<Rightarrow> string \<Rightarrow> ('z fsys_scheme, bool) prog" where
  "ioctlFileClone dst b s = (case next_outcome s of
      (Success, s') \<Rightarrow> (Inr True, s'\<lparr>files := put dst (File b) (files s')\<rparr>)
    | (Failure m k, s') \<Rightarrow> if k = 0 then (Inr False, s') else (Inl (Msg m), s')
    | (Cancelled, s') \<Rightarrow> (Inl (Sentinel Canceled), s'))"

definition tryCloneFile :: "string \<Rightarrow> node \<Rightarrow> ('z fsys_scheme, bool) prog" where
  "tryCloneFile dst n = bind call (\<lambda>_. case n of Dir \<Rightarrow> ret False | File b \<Rightarrow> ioctlFileClone dst b)"

text \<open>
  What \<open>lseek(2)\<close> promises for a file with content \<open>b\<close>: data is reported at or after the offset, what
  lies before it is zero, a hole lies after the data it ends, and without further data the rest is
  zero.  Seeking is supported throughout or not at all.
\<close>

definition zeroes :: "string \<Rightarrow> nat \<Rightarrow> nat \<Rightarrow> bool" where
  "zeroes b i j \<longleftrightarrow> (\<forall>k. i \<le> k \<and> k < j \<and> k < length b \<longrightarrow> b ! k = CHR 0x00)"

definition honest :: "seeker \<Rightarrow> string \<Rightarrow> bool" where
  "honest sk b \<longleftrightarrow> (\<forall>off < length b.
     (case seekData sk off of
        At d \<Rightarrow> off \<le> d \<and> d < length b \<and> zeroes b off d \<and> (\<exists>h. seekHole sk d = At h \<and> d < h)
      | NoMoreData \<Rightarrow> zeroes b off (length b)
      | _ \<Rightarrow> False))"

section \<open>The copy is exact\<close>

lemma overwrite_extends:
  assumes "zeroes b off d" "off \<le> d" "d \<le> length b" "d < h" "h \<le> length b"
  shows "overwrite (take off b) d (take (h - d) (drop d b)) = take h b"
proof -
  have z: "take (d - off) (drop off b) = replicate (d - off) (CHR 0x00)"
    using assms(1-3) by (intro nth_equalityI) (auto simp: zeroes_def less_diff_conv add.commute)
  have "take h b = take d b @ take (h - d) (drop d b)"
    using assms(4) by (metis take_add le_add_diff_inverse less_imp_le)
  moreover have "take d b = take off b @ take (d - off) (drop off b)"
    using assms(2) by (metis take_add le_add_diff_inverse)
  moreover have "take (h - d) (drop d b) \<noteq> []" using assms(4,5) by simp
  ultimately show ?thesis using assms by (simp add: overwrite_def z)
qed

lemma pad_zeroes:
  "zeroes b off (length b) \<Longrightarrow> off \<le> length b \<Longrightarrow> take off b @ replicate (length b - off) (CHR 0x00) = b"
proof -
  assume z: "zeroes b off (length b)" and "off \<le> length b"
  then have "replicate (length b - off) (CHR 0x00) = drop off b"
    by (intro nth_equalityI) (auto simp: zeroes_def)
  then show ?thesis by simp
qed

lemma wp_writeAt_ff [ff_rules]:
  "fault_free s \<Longrightarrow> wp (writeAt p pos bs) Q E s =
     Q () (s\<lparr>files := put p (File (overwrite (fileBytes s p) pos bs)) (files s)\<rparr>)"
  by (simp add: writeAt_def wp_def)

lemma wp_setSize_ff [ff_rules]:
  "fault_free s \<Longrightarrow> wp (setSize p n) Q E s =
     Q () (s\<lparr>files := put p (File (take n (fileBytes s p) @ replicate (n - length (fileBytes s p)) (CHR 0x00))) (files s)\<rparr>)"
  by (simp add: setSize_def wp_rules ff_rules)

definition copied :: "string \<Rightarrow> string \<Rightarrow> 'z fsys_scheme \<Rightarrow> 'z fsys_scheme \<Rightarrow> bool" where
  "copied dst b s t \<longleftrightarrow> (\<exists>fs. t = s\<lparr>files := fs\<rparr> \<and> map_of fs = (look s)(dst \<mapsto> File b))"

lemma copied_put: "copied dst b s (s\<lparr>files := put dst (File b) (files s)\<rparr>)"
  by (auto simp: copied_def)

lemma copied_after_put: "copied dst b (s\<lparr>files := put dst x (files s)\<rparr>) t \<Longrightarrow> copied dst b s t"
  by (auto simp: copied_def)

lemma copyExtents_ff:
  assumes "honest sk b" "fault_free s" "off \<le> length b" "look s dst = Some (File (take off b))" "length b - off < fuel"
  shows "wp (copyExtents fuel sk dst b off pos)
    (\<lambda>r t. r \<and> copied dst b s t) (\<lambda>_ _. False) s"
  using assms(2-)
proof (induction fuel arbitrary: s off pos)
  case (Suc fuel)
  have c: "fileBytes s dst = take off b" using Suc.prems by (simp add: fileBytes_def)
  have fin: "wp (bind (setSize dst (length b)) (\<lambda>_. ret True))
      (\<lambda>r t. r \<and> copied dst b s t) (\<lambda>_ _. False) s"
    if "zeroes b off (length b)"
    using Suc.prems pad_zeroes [OF that] by (auto simp: wp_rules ff_rules c min_def copied_put)
  show ?case
  proof (cases "off < length b")
    case False
    then have "zeroes b off (length b)" by (auto simp: zeroes_def)
    with False show ?thesis using fin by simp
  next
    case True
    with assms(1) have hon: "case seekData sk off of
        At d \<Rightarrow> off \<le> d \<and> d < length b \<and> zeroes b off d \<and> (\<exists>h. seekHole sk d = At h \<and> d < h)
      | NoMoreData \<Rightarrow> zeroes b off (length b) | _ \<Rightarrow> False" by (simp add: honest_def)
    show ?thesis
    proof (cases "seekData sk off")
      case (At d)
      with hon obtain h where h: "seekHole sk d = At h" "d < h" and d: "off \<le> d" "d < length b" "zeroes b off d" by auto
      define hole where "hole = (if h > length b then length b else h)"
      let ?s = "s\<lparr>files := put dst (File (take hole b)) (files s)\<rparr>"
      have hole: "d < hole" "hole \<le> length b" using h d by (auto simp: hole_def)
      have ow: "overwrite (take off b) d (take (hole - d) (drop d b)) = take hole b"
        using d hole by (intro overwrite_extends) auto
      have "wp (copyExtents fuel sk dst b hole p)
          (\<lambda>r t. r \<and> copied dst b ?s t) (\<lambda>_ _. False) ?s" for p
        using Suc.prems d hole by (intro Suc.IH) auto
      then have "wp (copyExtents fuel sk dst b hole p) (\<lambda>r t. r \<and> copied dst b s t) (\<lambda>_ _. False) ?s" for p
        by (rule wp_mono) (auto dest: copied_after_put)
      then show ?thesis using True At h(1) Suc.prems(1) unfolding copyExtents.simps
        by (simp add: wp_rules ff_rules c ow Let_def flip: hole_def)
    qed (use hon True fin in auto)
  qed
qed simp

section \<open>Only the output changes\<close>

lemma only_writeAt [keeps_rules]: "p \<in> P \<Longrightarrow> keeps (onlyIn P s) (writeAt p pos b)"
  unfolding keeps_def writeAt_def
  by (auto split: prod.splits outcome.splits dest: onlyIn_next intro!: onlyIn_files)

lemma only_setSize [keeps_rules]: "p \<in> P \<Longrightarrow> keeps (onlyIn P s) (setSize p n)"
  unfolding setSize_def by (intro keeps_rules keeps_only_modify) auto

lemma only_copyExtents [keeps_rules]: "dst \<in> P \<Longrightarrow> keeps (onlyIn P s) (copyExtents fuel sk dst b off pos)"
  by (induction fuel arbitrary: off pos)
    (auto simp: Let_def copyFileDense_def intro!: keeps_rules split: seekResult.splits)

lemma only_copySparseFile [keeps_rules]: "dst \<in> P \<Longrightarrow> keeps (onlyIn P s) (copySparseFile seeks dst n)"
  unfolding copySparseFile_def by (auto simp del: copyExtents.simps intro!: keeps_rules split: node.splits)

lemma only_tryCloneFile [keeps_rules]: "dst \<in> P \<Longrightarrow> keeps (onlyIn P s) (tryCloneFile dst n)"
proof -
  assume "dst \<in> P"
  then have "keeps (onlyIn P s) (ioctlFileClone dst b)" for b
    unfolding keeps_def ioctlFileClone_def
    by (auto split: prod.splits outcome.splits dest: onlyIn_next intro!: onlyIn_files)
  then show ?thesis unfolding tryCloneFile_def by (auto intro!: keeps_rules split: node.splits)
qed

text \<open>
  C13: With an honest kernel and no failing call, the extent-by-extent copy of a disk image into an
  empty file ends without running out of rounds, and the output is exactly the source: holes, data
  and trailing zero bytes.  Nothing else changes.
\<close>

theorem copySparseFile_exact:
  assumes "honest (seeks b) b" and "fault_free s" and "look s dst = Some (File [])"
  shows "\<exists>fs. copySparseFile seeks dst (File b) s = (Inr (), s\<lparr>files := fs\<rparr>) \<and> map_of fs = (look s)(dst \<mapsto> File b)"
proof -
  have "wp (copySparseFile seeks dst (File b))
      (\<lambda>_ t. copied dst b s t) (\<lambda>_ _. False) s"
  proof (cases "b = []")
    case True
    then show ?thesis using assms(2,3) by (auto simp: copySparseFile_def wp_rules ff_rules copied_def fun_eq_iff intro!: exI [of _ "files s"])
  next
    case False
    have "wp (copyExtents (Suc (length b)) (seeks b) dst b 0 0)
      (\<lambda>r t. r \<and> copied dst b s t) (\<lambda>_ _. False) s"
      using assms by (intro copyExtents_ff) auto
    then have "wp (copyExtents (Suc (length b)) (seeks b) dst b 0 0)
      (\<lambda>r. wp (unless_prog r (Msg ''no progress'')) (\<lambda>_ t. copied dst b s t) (\<lambda>_ _. False)) (\<lambda>_ _. False) s"
      by (rule wp_mono) (auto simp: wp_rules)
    then show ?thesis using False assms(2) by (simp add: copySparseFile_def wp_rules ff_rules del: copyExtents.simps)
  qed
  then show ?thesis by (auto simp: wp_def copied_def split: prod.splits sum.splits)
qed

definition sampleImage :: string where
  "sampleImage = [CHR 0x00, CHR 0x00, CHR ''a'', CHR ''b'', CHR 0x00]"

definition sampleSeeker :: seeker where
  "sampleSeeker = \<lparr>seekData = (\<lambda>off. if off \<le> 2 then At 2 else if off = 3 then At 3 else NoMoreData), seekHole = (\<lambda>d. At 4)\<rparr>"

definition sampleOutput :: fsys where
  "sampleOutput = \<lparr>outcomes = [], sqlnow = [], clock = 0, seed = 0, files = [(''d'', File [])]\<rparr>"

lemma copySparseFile_exact_witness:
  "\<exists>fs. copySparseFile (\<lambda>_. sampleSeeker) ''d'' (File sampleImage) sampleOutput = (Inr (), sampleOutput\<lparr>files := fs\<rparr>) \<and>
     map_of fs ''d'' = Some (File sampleImage)"
proof -
  have "honest sampleSeeker sampleImage"
    by (auto simp: honest_def sampleSeeker_def sampleImage_def zeroes_def less_Suc_eq numeral_eq_Suc)
  moreover have "fault_free sampleOutput" "look sampleOutput ''d'' = Some (File [])"
    by (simp_all add: sampleOutput_def)
  ultimately show ?thesis
    using copySparseFile_exact [of "\<lambda>_. sampleSeeker" sampleImage sampleOutput "''d''"] by auto
qed

end
