(* ===== verification/Vmm.thy ===== *)
theory Vmm
  imports Routeauth Memory Addresses Json Times Paths Sparse
begin

text \<open>
  What the lifecycle operations of \<open>internal/firecracker/manager.go\<close> are made of: the manager's
  state, the directory layout, the guards, copying of disks, editing of guest files, the tap device,
  and starting and stopping a Firecracker process.

  The programs that are not part of the repository are arguments.  \<open>hTool\<close> is what a command line
  (\<open>debugfs\<close>, \<open>resize2fs\<close>, \<open>ssh-keygen\<close>) does to the files when it succeeds, \<open>hToolFailed\<close> what it
  does when it fails.  \<open>hSave\<close> is what Firecracker writes when it saves a paused guest, \<open>hLoad\<close> the
  guest it resumes from two such files, \<open>hBoot\<close> the guest it boots from a configuration file.  \<open>hSeeks\<close> is the kernel's view of the holes of
  a file.  The state of a guest is one value in \<open>guests\<close>.

  A process ends through \<open>processExit\<close>, the body of the goroutine that \<open>launchProcess\<close> starts.
  Waiting for the end of a process either sees the context done or lets that body run.  Cgroup
  accounting, whose failures are only logged, is left out.

  Shown here: the paths of different machines do not meet, and which parts of the state each step
  keeps.
\<close>

section \<open>State\<close>

record Process =
  procUUID :: string
  procName :: string
  procRuntimeDir :: string
  procSocketPath :: string
  procTapName :: string
  procGuestCIDR :: string
  procFinalState :: string

record ArtifactMetadata =
  amPath :: string
  amBasename :: string
  amSHA256 :: string
  amSize :: int
  amModTime :: string

record BaseImageMetadata =
  bmRootfs :: ArtifactMetadata
  bmKernel :: ArtifactMetadata
  bmInitrd :: "ArtifactMetadata option"
  bmManifest :: "(string \<times> string) list"

record mgr = auth +
  running :: "Process list"
  vmOps :: "string list"
  coldArchives :: "string list"
  guestMemoryReports :: "(string \<times> GuestMemoryReport) list"
  taps :: "string list"
  guests :: "string \<Rightarrow> string"
  modTimes :: "string \<Rightarrow> int"
  baseSignature :: string
  baseMetadata :: BaseImageMetadata
  plugged :: "int \<times> int \<times> int"  \<comment> \<open>total, requested and plugged size Firecracker reports next\<close>

record host =
  hCfg :: Config
  hTool :: "string list \<Rightarrow> (string \<times> node) list \<Rightarrow> (string \<times> node) list"
  hToolFailed :: "string list \<Rightarrow> (string \<times> node) list \<Rightarrow> (string \<times> node) list"
  hSave :: "string \<Rightarrow> string \<times> string"
  hLoad :: "string \<times> string \<Rightarrow> string option"
  hBoot :: "string \<Rightarrow> string"
  hSeeks :: "string \<Rightarrow> seeker"
  hUuidParses :: "string \<Rightarrow> bool"
  hNetworkScript :: string

definition procOf :: "'z mgr_scheme \<Rightarrow> string \<Rightarrow> Process option" where
  "procOf s u = find (\<lambda>p. procUUID p = u) (running s)"

definition isRunning :: "'z mgr_scheme \<Rightarrow> string \<Rightarrow> bool" where
  "isRunning s u \<longleftrightarrow> procOf s u \<noteq> None"

section \<open>Layout\<close>

record layout =
  vmDir :: string
  runtimeDir :: string
  sleepDir :: string
  diskPath :: string
  configPath :: string
  socketPath :: string
  stdoutPath :: string
  stderrPath :: string
  sleepStatePath :: string
  sleepMemPath :: string

definition layoutOf :: "Config \<Rightarrow> string \<Rightarrow> layout" where
  "layoutOf cfg n =
     (let dir = pathJoin [cfgStateDir cfg, ''vms'', n]; run = pathJoin [dir, ''run'']; sleep = pathJoin [dir, ''sleep''] in
      \<lparr>vmDir = dir, runtimeDir = run, sleepDir = sleep, diskPath = pathJoin [dir, ''rootfs.ext4''],
       configPath = pathJoin [run, ''firecracker.json''], socketPath = pathJoin [run, ''firecracker.sock''],
       stdoutPath = pathJoin [run, ''stdout.log''], stderrPath = pathJoin [run, ''stderr.log''],
       sleepStatePath = pathJoin [sleep, ''vmstate''], sleepMemPath = pathJoin [sleep, ''memory'']\<rparr>)"

record snapshotLayout =
  snDir :: string
  snStatePath :: string
  snMemPath :: string
  snDiskPath :: string

definition snapshotLayoutOf :: "Config \<Rightarrow> string \<Rightarrow> snapshotLayout" where
  "snapshotLayoutOf cfg n =
     (let dir = pathJoin [cfgStateDir cfg, ''snapshots'', n] in
      \<lparr>snDir = dir, snStatePath = pathJoin [dir, ''vmstate''], snMemPath = pathJoin [dir, ''memory''],
       snDiskPath = pathJoin [dir, ''rootfs.ext4'']\<rparr>)"

definition coldVMDir :: "Config \<Rightarrow> string \<Rightarrow> string" where
  "coldVMDir cfg n = (if coldDir (cfgColdStorage cfg) = [] then [] else pathJoin [coldDir (cfgColdStorage cfg), ''vms'', n])"

definition coldDiskPath :: "Config \<Rightarrow> string \<Rightarrow> string" where
  "coldDiskPath cfg n = (let dir = coldVMDir cfg n in if dir = [] then [] else pathJoin [dir, ''rootfs.ext4''])"

definition vmDiskPath :: "Config \<Rightarrow> VM \<Rightarrow> ('z fsys_scheme, string) prog" where
  "vmDiskPath cfg vm =
     (let hot = diskPath (layoutOf cfg (vmName vm)) in
      bind (attempt (osStat hot)) (\<lambda>r.
      case r of
        Inr _ \<Rightarrow> ret hot
      | Inl e \<Rightarrow>
          if \<not> isNotExist e then throw e else
          let archived = (vmArchivedDiskPath vm \<noteq> []);
              cold = (if archived then vmArchivedDiskPath vm else coldDiskPath cfg (vmName vm)) in
          if cold = [] then ret hot else
          bind (attempt (osStat cold)) (\<lambda>r.
          case r of
            Inr _ \<Rightarrow> ret cold
          | Inl e \<Rightarrow> if \<not> isNotExist e then throw e
                     else if archived then throw (Wrap ''archived disk'' e) else ret hot)))"

section \<open>Guards\<close>

definition beginVMOperation :: "string \<Rightarrow> ('z mgr_scheme, unit) prog" where
  "beginVMOperation u = bind (gets vmOps) (\<lambda>ops.
     if u \<in> set ops then throw (Sentinel ErrAlreadyRunning)
     else modify (\<lambda>s. s\<lparr>vmOps := u # vmOps s\<rparr>))"

definition endVMOperation :: "string \<Rightarrow> ('z mgr_scheme, unit) prog" where
  "endVMOperation u = modify (\<lambda>s. s\<lparr>vmOps := removeAll u (vmOps s)\<rparr>)"

text \<open>
  The end of a cold archive, the function that \<open>beginColdArchiveOperation\<close> returns.
\<close>

definition endColdArchiveOperation :: "string \<Rightarrow> ('z mgr_scheme, unit) prog" where
  "endColdArchiveOperation u =
     modify (\<lambda>s. s\<lparr>coldArchives := removeAll u (coldArchives s), vmOps := removeAll u (vmOps s)\<rparr>)"

text \<open>
  An operation that finds an archive of its machine under way cancels it and waits: either its own
  context ends first, or the archive ends and the loop goes round once more.
\<close>

definition awaitColdArchive :: "string \<Rightarrow> ('z mgr_scheme, unit) prog" where
  "awaitColdArchive u = bind (gets coldArchives) (\<lambda>as.
     if u \<in> set as then bind ctxCheck (\<lambda>_. bind (endColdArchiveOperation u) (\<lambda>_. ctxCheck)) else ret ())"

definition beginVMOperationCancelingColdArchive :: "string \<Rightarrow> ('z mgr_scheme, unit) prog" where
  "beginVMOperationCancelingColdArchive u = bind ctxCheck (\<lambda>_. bind (awaitColdArchive u) (\<lambda>_. beginVMOperation u))"

definition beginStartOperationCancelingColdArchive :: "string \<Rightarrow> ('z mgr_scheme, unit) prog" where
  "beginStartOperationCancelingColdArchive u = bind ctxCheck (\<lambda>_.
     bind (gets (\<lambda>s. isRunning s u)) (\<lambda>r. if r then throw (Sentinel ErrAlreadyRunning) else
     bind (awaitColdArchive u) (\<lambda>_.
     bind (gets (\<lambda>s. isRunning s u)) (\<lambda>r. if r then throw (Sentinel ErrAlreadyRunning) else
     beginVMOperation u))))"

definition beginColdArchiveOperation :: "string \<Rightarrow> ('z mgr_scheme, unit) prog" where
  "beginColdArchiveOperation u = bind ctxCheck (\<lambda>_. bind (gets vmOps) (\<lambda>ops.
     if u \<in> set ops then throw (Sentinel ErrAlreadyRunning)
     else modify (\<lambda>s. s\<lparr>vmOps := u # vmOps s, coldArchives := u # coldArchives s\<rparr>)))"

section \<open>Copying\<close>

definition cloneOrCopy :: "host \<Rightarrow> string \<Rightarrow> node \<Rightarrow> ('z fsys_scheme, unit) prog" where
  "cloneOrCopy h dst n = bind (tryCloneFile dst n) (\<lambda>cloned. if cloned then ret () else copySparseFile (hSeeks h) dst n)"

definition copyFile :: "host \<Rightarrow> string \<Rightarrow> string \<Rightarrow> ('z fsys_scheme, unit) prog" where
  "copyFile h dst src =
     bind (osOpen src) (\<lambda>n.
     bind (osCreateTrunc dst) (\<lambda>_.
     bind (cloneOrCopy h dst (if dst = src then File [] else n)) (\<lambda>_. call)))"

text \<open>
  A copy onto itself finds its source truncated.  \<open>copyRegularFile\<close>: the copy, \<open>Sync\<close> and
  \<open>Close\<close>, whose errors are joined.
\<close>

definition copyFileDenseContext :: "string \<Rightarrow> node \<Rightarrow> ('z fsys_scheme, unit) prog" where
  "copyFileDenseContext dst n = bind ctxCheck (\<lambda>_.
     case n of Dir \<Rightarrow> throw (Msg ''is a directory'') | File b \<Rightarrow> transfer dst b)"

definition copyRegularFile :: "string \<Rightarrow> string \<Rightarrow> ('z fsys_scheme, unit) prog" where
  "copyRegularFile dst src =
     bind (osOpen src) (\<lambda>n.
     bind (osCreateTrunc dst) (\<lambda>_.
     bind (copyFileDenseContext dst (if dst = src then File [] else n)) (\<lambda>_. bind call (\<lambda>_. call))))"

definition osTruncateOpen :: "string \<Rightarrow> int \<Rightarrow> ('z fsys_scheme, unit) prog" where
  "osTruncateOpen p n = (if n < 0 then throw (Msg ''invalid argument'') else osTruncate p (nat n))"

definition ensureDisk :: "host \<Rightarrow> string \<Rightarrow> string \<Rightarrow> int \<Rightarrow> ('z fsys_scheme, bool) prog" where
  "ensureDisk h path source bytes =
     bind (attempt (osStat path)) (\<lambda>r.
     case r of
       Inr _ \<Rightarrow> ret False
     | Inl e \<Rightarrow>
         if \<not> isNotExist e then throw e else
         bind (osOpen source) (\<lambda>n.
         bind (osCreateExcl path) (\<lambda>_.
         bind (cloneOrCopy h path n) (\<lambda>_.
         bind (osTruncateOpen path bytes) (\<lambda>_.
         bind call (\<lambda>_. ret True))))))"

section \<open>Guest files\<close>

text \<open>One run of an external program.\<close>

definition runCommand :: "host \<Rightarrow> string list \<Rightarrow> ('z fsys_scheme, unit) prog" where
  "runCommand h args s = (case next_outcome s of
      (Success, s') \<Rightarrow> (Inr (), s'\<lparr>files := hTool h args (files s')\<rparr>)
    | (Failure m k, s') \<Rightarrow> (Inl (Msg m), s'\<lparr>files := hToolFailed h args (files s')\<rparr>)
    | (Cancelled, s') \<Rightarrow> (Inl (Sentinel Canceled), s'\<lparr>files := hToolFailed h args (files s')\<rparr>))"

definition resizeExt4Image :: "host \<Rightarrow> string \<Rightarrow> ('z fsys_scheme, unit) prog" where
  "resizeExt4Image h path = runCommand h [''resize2fs'', path]"

definition debugfs :: "host \<Rightarrow> string \<Rightarrow> string \<Rightarrow> ('z fsys_scheme, unit) prog" where
  "debugfs h request disk = runCommand h [''/usr/sbin/debugfs'', ''-w'', ''-R'', request, disk]"

definition writeGuestFileMode :: "host \<Rightarrow> string \<Rightarrow> string \<Rightarrow> string \<Rightarrow> string \<Rightarrow> ('z fsys_scheme, unit) prog" where
  "writeGuestFileMode h disk guestPath data mode =
     bind (osTemp (File []) ''/tmp'' ''firedoze-guest-file-'' []) (\<lambda>tmpPath.
     deferring (osRemove tmpPath) (
       bind (transfer tmpPath data) (\<lambda>_.
       bind call (\<lambda>_.
       bind (ignoring (debugfs h (''rm '' @ guestPath) disk)) (\<lambda>_.
       bind (debugfs h (''write '' @ tmpPath @ '' '' @ guestPath) disk) (\<lambda>_.
       if mode = [] then ret ()
       else debugfs h (''set_inode_field '' @ guestPath @ '' mode '' @ mode) disk))))))"

definition replaceGuestFile :: "host \<Rightarrow> string \<Rightarrow> string \<Rightarrow> string \<Rightarrow> string \<Rightarrow> ('z fsys_scheme, unit) prog" where
  "replaceGuestFile h disk guestPath localPath mode =
     bind (ignoring (debugfs h (''rm '' @ guestPath) disk)) (\<lambda>_.
     bind (debugfs h (''write '' @ localPath @ '' '' @ guestPath) disk) (\<lambda>_.
     debugfs h (''set_inode_field '' @ guestPath @ '' mode '' @ mode) disk))"

definition sshHostKeys :: "(string \<times> string) list" where
  "sshHostKeys = [(''rsa'', ''/etc/ssh/ssh_host_rsa_key''), (''ecdsa'', ''/etc/ssh/ssh_host_ecdsa_key''),
     (''ed25519'', ''/etc/ssh/ssh_host_ed25519_key'')]"

definition rewriteSSHHostKeys :: "host \<Rightarrow> string \<Rightarrow> ('z fsys_scheme, unit) prog" where
  "rewriteSSHHostKeys h disk =
     bind (osTemp Dir ''/tmp'' ''firedoze-ssh-host-keys-'' []) (\<lambda>tmpDir.
     deferring (osRemoveAll tmpDir) (
       forEach sshHostKeys (\<lambda>(keyType, path).
         let localPath = pathJoin [tmpDir, pathBase path] in
         bind (runCommand h [''/usr/bin/ssh-keygen'', ''-q'', ''-N'', [], ''-t'', keyType, ''-f'', localPath]) (\<lambda>_.
         bind (replaceGuestFile h disk path localPath ''0100600'') (\<lambda>_.
         replaceGuestFile h disk (path @ ''.pub'') (localPath @ ''.pub'') ''0100644'')))))"

definition randomMachineID :: "('z auth_scheme, string) prog" where
  "randomMachineID = bind (randRead 16) (\<lambda>b. ret (concat (map hex2 b)))"

definition guestHosts :: "string \<Rightarrow> string" where
  "guestHosts n = ''127.0.0.1 localhost'' @ [CHR 0x0A] @ ''127.0.1.1 '' @ n @ [CHR 0x0A, CHR 0x0A] @
     ''::1 localhost ip6-localhost ip6-loopback'' @ [CHR 0x0A] @ ''ff02::1 ip6-allnodes'' @ [CHR 0x0A] @
     ''ff02::2 ip6-allrouters'' @ [CHR 0x0A]"

definition rewriteGuestIdentity :: "host \<Rightarrow> string \<Rightarrow> string \<Rightarrow> ('z auth_scheme, unit) prog" where
  "rewriteGuestIdentity h disk n =
     bind (writeGuestFileMode h disk ''/etc/hostname'' (n @ [CHR 0x0A]) ''0100644'') (\<lambda>_.
     bind (writeGuestFileMode h disk ''/etc/hosts'' (guestHosts n) ''0100644'') (\<lambda>_.
     bind randomMachineID (\<lambda>machineID.
     bind (writeGuestFileMode h disk ''/etc/machine-id'' (machineID @ [CHR 0x0A]) ''0100444'') (\<lambda>_.
     bind (ignoring (writeGuestFileMode h disk ''/var/lib/dbus/machine-id'' (machineID @ [CHR 0x0A]) ''0100444'')) (\<lambda>_.
     rewriteSSHHostKeys h disk)))))"

text \<open>The text of the script, \<open>guestfiles.NetworkScript\<close>, plays no part here and is an argument.\<close>

definition rewriteGuestNetworkHelper :: "host \<Rightarrow> string \<Rightarrow> ('z fsys_scheme, unit) prog" where
  "rewriteGuestNetworkHelper h disk =
     writeGuestFileMode h disk ''/usr/local/sbin/firedoze-guest-network'' (hNetworkScript h) ''0100755''"

section \<open>The tap device\<close>

definition deleteTap :: "string \<Rightarrow> ('z mgr_scheme, unit) prog" where
  "deleteTap n = (if n = [] then ret () else
     bind call (\<lambda>_. bind (gets taps) (\<lambda>ts.
     if n \<notin> set ts then ret ()
     else bind call (\<lambda>_. modify (\<lambda>s. s\<lparr>taps := removeAll n (taps s)\<rparr>)))))"

text \<open>A step after the tap exists: when it fails, the tap is deleted again.\<close>

definition orDeleteTap :: "string \<Rightarrow> ('z mgr_scheme, 'a) prog \<Rightarrow> ('z mgr_scheme, 'a) prog" where
  "orDeleteTap n m = bind (attempt m) (\<lambda>r.
     case r of Inr x \<Rightarrow> ret x | Inl e \<Rightarrow> bind (ignoring (deleteTap n)) (\<lambda>_. throw e))"

definition prepareNetwork :: "host \<Rightarrow> VM \<Rightarrow> ('z mgr_scheme, preparedNetwork) prog" where
  "prepareNetwork h vm =
     (if vmPrivateIP vm = [] then throw (Msg ''vm has no private_ip'') else
      case ParseIP (vmPrivateIP vm) of
        None \<Rightarrow> throw (Msg ''private_ip must be an IP address'')
      | Some guestIP \<Rightarrow>
          if To4 guestIP \<noteq> None then throw (Msg ''private_ip must be IPv6'') else
          bind (wrapping ''private_ip has invalid /127 host peer'' (fromSum (decrementIP guestIP))) (\<lambda>hostIP.
          bind (fromSum (privateIPv4Pair (hCfg h) guestIP)) (\<lambda>(hostIPv4, guestIPv4).
          let tap = tapName (vmName vm) in
          bind (ignoring (deleteTap tap)) (\<lambda>_.
          bind call (\<lambda>_.
          bind (gets (\<lambda>s. tap \<in> set (taps s))) (\<lambda>there.
          bind (unless_prog (\<not> there) (Sentinel ErrExist)) (\<lambda>_.
          bind (modify (\<lambda>s. s\<lparr>taps := tap # taps s\<rparr>)) (\<lambda>_.
          bind (orDeleteTap tap (bind call (\<lambda>_. bind call (\<lambda>_. bind call (\<lambda>_. bind call (\<lambda>_. bind call (\<lambda>_. call))))))) (\<lambda>_.
          bind (osWriteFile ''/proc/sys/net/ipv6/conf/all/forwarding'' (''1'' @ [CHR 0x0A])) (\<lambda>_.
          bind (osWriteFile ''/proc/sys/net/ipv4/ip_forward'' (''1'' @ [CHR 0x0A])) (\<lambda>_.
          ret \<lparr>pnTapName = tap, pnGuestMAC = macForVMName (vmName vm), pnGuestCIDR = ipString guestIP @ ''/127'',
            pnHostIP = hostIP, pnGuestIP = guestIP, pnHostIPv4 = hostIPv4, pnGuestIPv4 = guestIPv4\<rparr>)))))))))))"

section \<open>The process\<close>

definition cleanupNetwork :: "string \<Rightarrow> ('z mgr_scheme, unit) prog" where
  "cleanupNetwork tap = deleteTap tap"

definition cleanupAfterExit :: "Process \<Rightarrow> ('z mgr_scheme, unit) prog" where
  "cleanupAfterExit p = bind (ignoring (osRemove (procSocketPath p))) (\<lambda>_. cleanupNetwork (procTapName p))"

text \<open>The goroutine of \<open>launchProcess\<close>, from the return of \<open>cmd.Wait\<close> on.\<close>

definition processExit :: "Process \<Rightarrow> ('z mgr_scheme, unit) prog" where
  "processExit p =
     bind (gets (\<lambda>s. case procOf s (procUUID p) of None \<Rightarrow> procFinalState p | Some q \<Rightarrow> procFinalState q)) (\<lambda>f.
     let finalState = (if f = [] then ''stopped'' else f) in
     bind (ignoring (cleanupAfterExit p)) (\<lambda>_.
     bind (ignoring (SetVMState (procUUID p) finalState)) (\<lambda>_.
     modify (\<lambda>s. s\<lparr>running := filter (\<lambda>q. procUUID q \<noteq> procUUID p) (running s)\<rparr>))))"

text \<open>Started with a configuration file, Firecracker boots the guest it describes.\<close>

definition bootGuest :: "host \<Rightarrow> string \<Rightarrow> string option \<Rightarrow> 'z mgr_scheme \<Rightarrow> 'z mgr_scheme" where
  "bootGuest h u configFile s = (case configFile of None \<Rightarrow> s | Some p \<Rightarrow>
     (case look s p of Some (File b) \<Rightarrow> s\<lparr>guests := (guests s)(u := hBoot h b)\<rparr> | _ \<Rightarrow> s))"

definition launchProcess :: "host \<Rightarrow> VM \<Rightarrow> layout \<Rightarrow> preparedNetwork \<Rightarrow> string option \<Rightarrow> ('z mgr_scheme, Process) prog" where
  "launchProcess h vm l netdev configFile =
     bind (osOpenAppend (stdoutPath l)) (\<lambda>_.
     bind (osOpenAppend (stderrPath l)) (\<lambda>_.
     bind call (\<lambda>_.
     let p = \<lparr>procUUID = vmUUID vm, procName = vmName vm, procRuntimeDir = runtimeDir l, procSocketPath = socketPath l,
              procTapName = pnTapName netdev, procGuestCIDR = pnGuestCIDR netdev, procFinalState = ''stopped''\<rparr> in
     bind (modify (bootGuest h (vmUUID vm) configFile)) (\<lambda>_.
     bind (modify (\<lambda>s. s\<lparr>running := p # filter (\<lambda>q. procUUID q \<noteq> vmUUID vm) (running s)\<rparr>)) (\<lambda>_.
     ret p)))))"

definition waitForProcessExit :: "Process \<Rightarrow> ('z mgr_scheme, unit) prog" where
  "waitForProcessExit p = bind (gets (\<lambda>s. isRunning s (procUUID p))) (\<lambda>r.
     if \<not> r then ret () else bind ctxCheck (\<lambda>_. processExit p))"

definition stopProcess :: "Process \<Rightarrow> string \<Rightarrow> ('z mgr_scheme, unit) prog" where
  "stopProcess p finalState =
     bind (modify (\<lambda>s. s\<lparr>running := map (\<lambda>q. if procUUID q = procUUID p then q\<lparr>procFinalState := finalState\<rparr> else q) (running s)\<rparr>)) (\<lambda>_.
     bind (waitForProcessExit p) (\<lambda>_.
     cleanupAfterExit p))"

text \<open>Firecracker creates its socket in time, or the wait runs out.\<close>

definition waitForSocket :: "string \<Rightarrow> ('z mgr_scheme, unit) prog" where
  "waitForSocket path = bind (attempt call) (\<lambda>r.
     case r of Inl _ \<Rightarrow> throw (Msg ''timed out waiting for firecracker socket'')
     | Inr _ \<Rightarrow> modify (\<lambda>s. s\<lparr>files := put path (File []) (files s)\<rparr>))"

section \<open>Firecracker's interface\<close>

definition firecrackerAction :: "string \<Rightarrow> ('z mgr_scheme, unit) prog" where
  "firecrackerAction action = wrapping ''firecracker action'' call"

definition firecrackerSetVMState :: "string \<Rightarrow> ('z mgr_scheme, unit) prog" where
  "firecrackerSetVMState st = wrapping ''firecracker set vm state'' call"

text \<open>A save that fails may leave the first part of each file behind.\<close>

definition firecrackerCreateSnapshot :: "host \<Rightarrow> string \<Rightarrow> string \<Rightarrow> string \<Rightarrow> ('z mgr_scheme, unit) prog" where
  "firecrackerCreateSnapshot h u statePath memPath s = (case hSave h (guests s u) of (st, mem) \<Rightarrow>
     (case next_outcome s of
        (Success, s') \<Rightarrow> (Inr (), s'\<lparr>files := put memPath (File mem) (put statePath (File st) (files s'))\<rparr>)
      | (Failure m k, s') \<Rightarrow> (Inl (Wrap ''firecracker create snapshot'' (Msg m)),
           s'\<lparr>files := put memPath (File (take k mem)) (put statePath (File (take k st)) (files s'))\<rparr>)
      | (Cancelled, s') \<Rightarrow> (Inl (Wrap ''firecracker create snapshot'' (Sentinel Canceled)), s')))"

definition firecrackerLoadSnapshot :: "host \<Rightarrow> string \<Rightarrow> string \<Rightarrow> string \<Rightarrow> ('z mgr_scheme, unit) prog" where
  "firecrackerLoadSnapshot h u statePath memPath =
     bind (wrapping ''firecracker load snapshot'' call) (\<lambda>_.
     bind (gets files) (\<lambda>fs.
     case (map_of fs statePath, map_of fs memPath) of
       (Some (File st), Some (File mem)) \<Rightarrow>
         (case hLoad h (st, mem) of
            None \<Rightarrow> throw (Wrap ''firecracker load snapshot'' (Msg ''invalid snapshot''))
          | Some g \<Rightarrow> modify (\<lambda>s. s\<lparr>guests := (guests s)(u := g)\<rparr>))
     | _ \<Rightarrow> throw (Wrap ''firecracker load snapshot'' (Msg ''no such file''))))"

definition firecrackerPatchMemoryHotplug :: "int \<Rightarrow> ('z mgr_scheme, unit) prog" where
  "firecrackerPatchMemoryHotplug requested = bind call (\<lambda>_.
     modify (\<lambda>s. s\<lparr>plugged := (case plugged s of (t, r, p) \<Rightarrow> (t, requested, p))\<rparr>))"

definition firecrackerGetMemoryHotplug :: "('z mgr_scheme, int \<times> int \<times> int) prog" where
  "firecrackerGetMemoryHotplug = bind call (\<lambda>_. gets plugged)"

section \<open>The configuration file\<close>

definition omitEmpty :: "string \<Rightarrow> string \<Rightarrow> (string \<times> json) list" where
  "omitEmpty key v = (if v = [] then [] else [(key, JStr v)])"

definition omitZero :: "string \<Rightarrow> int \<Rightarrow> (string \<times> json) list" where
  "omitZero key v = (if v = 0 then [] else [(key, JNum v)])"

record bootSource =
  bsKernelImagePath :: string
  bsInitrdPath :: string
  bsBootArgs :: string

record drive =
  drID :: string
  drPathOnHost :: string
  drIsRootDevice :: bool
  drIsReadOnly :: bool

record networkInterface =
  niIfaceID :: string
  niHostDevName :: string
  niGuestMAC :: string

record machineConfig =
  mcVCPUCount :: int
  mcMemSizeMiB :: int
  mcSMT :: bool

record firecrackerConfig =
  fcBootSource :: bootSource
  fcDrives :: "drive list"
  fcNetworkInterfaces :: "networkInterface list"
  fcMachineConfig :: machineConfig
  fcMemoryHotplug :: "memoryHotplugConfig option"

definition firecrackerJSON :: "firecrackerConfig \<Rightarrow> json" where
  "firecrackerJSON c = JObj (
     [(''boot-source'', JObj ([(''kernel_image_path'', JStr (bsKernelImagePath (fcBootSource c)))] @
         omitEmpty ''initrd_path'' (bsInitrdPath (fcBootSource c)) @
         [(''boot_args'', JStr (bsBootArgs (fcBootSource c)))])),
      (''drives'', JArr (map (\<lambda>d. JObj [(''drive_id'', JStr (drID d)), (''path_on_host'', JStr (drPathOnHost d)),
         (''is_root_device'', JBool (drIsRootDevice d)), (''is_read_only'', JBool (drIsReadOnly d))]) (fcDrives c)))] @
     (if fcNetworkInterfaces c = [] then [] else
        [(''network-interfaces'', JArr (map (\<lambda>n. JObj [(''iface_id'', JStr (niIfaceID n)),
           (''host_dev_name'', JStr (niHostDevName n)), (''guest_mac'', JStr (niGuestMAC n))]) (fcNetworkInterfaces c)))]) @
     [(''machine-config'', JObj [(''vcpu_count'', JNum (mcVCPUCount (fcMachineConfig c))),
         (''mem_size_mib'', JNum (mcMemSizeMiB (fcMachineConfig c))), (''smt'', JBool (mcSMT (fcMachineConfig c)))])] @
     (case fcMemoryHotplug c of None \<Rightarrow> [] | Some h \<Rightarrow>
        [(''memory-hotplug'', JObj ([(''total_size_mib'', JNum (mhTotalSizeMiB h))] @
           omitZero ''slot_size_mib'' (mhSlotSizeMiB h) @ omitZero ''block_size_mib'' (mhBlockSizeMiB h)))]))"

definition writeFirecrackerConfig :: "string \<Rightarrow> firecrackerConfig \<Rightarrow> ('z fsys_scheme, unit) prog" where
  "writeFirecrackerConfig path c = osWriteFile path (indentJSON 0 (firecrackerJSON c) @ [CHR 0x0A])"

section \<open>Base image metadata\<close>

text \<open>\<open>FileInfo.Size\<close>; for a directory it depends on the file system, and 4096 stands for it.\<close>

definition nodeSize :: "node \<Rightarrow> int" where
  "nodeSize n = (case n of Dir \<Rightarrow> 4096 | File b \<Rightarrow> int (length b))"

definition baseImagePaths :: "Config \<Rightarrow> string list" where
  "baseImagePaths cfg = (let f = cfgFirecracker cfg in
     [fcBaseRootfsPath f, fcBaseKernelPath f] @ (if fcBaseInitrdPath f \<noteq> [] then [fcBaseInitrdPath f] else []))"

fun signatureOf :: "string list \<Rightarrow> string \<Rightarrow> ('z mgr_scheme, string) prog" where
  "signatureOf [] b = ret b"
| "signatureOf (p # ps) b = bind (osStat p) (\<lambda>n. bind (gets (\<lambda>s. modTimes s p)) (\<lambda>t.
     signatureOf ps (b @ p @ [CHR 0x00] @ itoa (nodeSize n) @ [CHR 0x00] @ itoa t @ [CHR 0x00])))"

definition baseImageSignature :: "Config \<Rightarrow> ('z mgr_scheme, string) prog" where
  "baseImageSignature cfg = signatureOf (baseImagePaths cfg) []"

definition fileSHA256 :: "string \<Rightarrow> ('z fsys_scheme, string) prog" where
  "fileSHA256 p = bind (osOpen p) (\<lambda>n. bind call (\<lambda>_.
     case n of Dir \<Rightarrow> throw (Msg ''is a directory'') | File b \<Rightarrow> ret (concat (map hex2 (sha256 b)))))"

definition artifactMetadata :: "string \<Rightarrow> ('z mgr_scheme, ArtifactMetadata) prog" where
  "artifactMetadata p = bind (osStat p) (\<lambda>n. bind (gets (\<lambda>s. modTimes s p)) (\<lambda>t.
     bind (fileSHA256 p) (\<lambda>sum.
     ret \<lparr>amPath = p, amBasename = pathBase p, amSHA256 = sum, amSize = nodeSize n, amModTime = formatRFC3339Nano t\<rparr>)))"

definition setKey :: "string \<Rightarrow> string \<Rightarrow> (string \<times> string) list \<Rightarrow> (string \<times> string) list" where
  "setKey k v m = (k, v) # filter (\<lambda>e. fst e \<noteq> k) m"

definition manifestLine :: "string \<Rightarrow> (string \<times> string) list \<Rightarrow> (string \<times> string) list" where
  "manifestLine line m = (let line = trimSpace line in
     if line = [] \<or> hasPrefix line ''#'' then m
     else case cut line (CHR ''='') of (key, v, ok) \<Rightarrow> if \<not> ok then m else setKey (trimSpace key) (trimSpace v) m)"

definition readImageManifest :: "string \<Rightarrow> ('z fsys_scheme, (string \<times> string) list) prog" where
  "readImageManifest p = bind (osReadFile p) (\<lambda>data. ret (fold manifestLine (split data (CHR 0x0A)) []))"

definition baseImageMetadata :: "Config \<Rightarrow> ('z mgr_scheme, BaseImageMetadata) prog" where
  "baseImageMetadata cfg =
     bind (baseImageSignature cfg) (\<lambda>signature.
     bind (gets (\<lambda>s. baseSignature s = signature)) (\<lambda>cached.
     if cached then gets baseMetadata else
     let f = cfgFirecracker cfg in
     bind (wrapping ''rootfs metadata'' (artifactMetadata (fcBaseRootfsPath f))) (\<lambda>rootfs.
     bind (wrapping ''kernel metadata'' (artifactMetadata (fcBaseKernelPath f))) (\<lambda>kernel.
     bind (if fcBaseInitrdPath f \<noteq> []
           then bind (wrapping ''initrd metadata'' (artifactMetadata (fcBaseInitrdPath f))) (\<lambda>i. ret (Some i))
           else ret None) (\<lambda>initrd.
     bind (attempt (readImageManifest (pathJoin [pathDir (fcBaseRootfsPath f), ''manifest.txt'']))) (\<lambda>r.
     let metadata = \<lparr>bmRootfs = rootfs, bmKernel = kernel, bmInitrd = initrd,
           bmManifest = (case r of Inl _ \<Rightarrow> [] | Inr m \<Rightarrow> m)\<rparr> in
     bind (modify (\<lambda>s. s\<lparr>baseSignature := signature, baseMetadata := metadata\<rparr>)) (\<lambda>_.
     ret metadata)))))))"

definition WarmBaseImageMetadata :: "Config \<Rightarrow> ('z mgr_scheme, BaseImageMetadata) prog" where
  "WarmBaseImageMetadata cfg = bind ctxCheck (\<lambda>_. baseImageMetadata cfg)"

definition artifactJSON :: "ArtifactMetadata \<Rightarrow> json" where
  "artifactJSON a = JObj ([(''path'', JStr (amPath a)), (''basename'', JStr (amBasename a))] @
     omitEmpty ''sha256'' (amSHA256 a) @ omitZero ''size'' (amSize a) @ omitEmpty ''mod_time'' (amModTime a))"

definition metadataJSON :: "BaseImageMetadata \<Rightarrow> json" where
  "metadataJSON m = JObj ([(''rootfs'', artifactJSON (bmRootfs m)), (''kernel'', artifactJSON (bmKernel m))] @
     (case bmInitrd m of None \<Rightarrow> [] | Some i \<Rightarrow> [(''initrd'', artifactJSON i)]) @
     (if bmManifest m = [] then [] else
        [(''manifest'', JObj (map (\<lambda>(k, v). (k, JStr v)) (sort_key fst (bmManifest m))))]))"

definition applyBaseImageMetadata :: "CreateVMParams \<Rightarrow> BaseImageMetadata \<Rightarrow> CreateVMParams" where
  "applyBaseImageMetadata p m = p\<lparr>
     cpBaseImageID := (if amSHA256 (bmRootfs m) = [] then amBasename (bmRootfs m) else amSHA256 (bmRootfs m)),
     cpKernelID := (if amSHA256 (bmKernel m) = [] then amBasename (bmKernel m) else amSHA256 (bmKernel m)),
     cpBaseImageMetadata := compactJSON (metadataJSON m)\<rparr>"

section \<open>Rules\<close>

text \<open>Updates in the order of the state's components.\<close>

lemma upd_order:
  "(s :: 'z fsys_scheme)\<lparr>files := fs, outcomes := rs\<rparr> = s\<lparr>outcomes := rs, files := fs\<rparr>"
  "(t :: 'z store_scheme)\<lparr>vmsT := vs, outcomes := rs\<rparr> = t\<lparr>outcomes := rs, vmsT := vs\<rparr>"
  "t\<lparr>vmsT := vs, files := fs\<rparr> = t\<lparr>files := fs, vmsT := vs\<rparr>"
  by simp_all

lemma wp_ctxCheck_frame:
  assumes "\<And>rs. Q () (s\<lparr>outcomes := rs\<rparr>)" and "\<And>e rs. E e (s\<lparr>outcomes := rs\<rparr>)"
  shows "wp ctxCheck Q E s"
proof -
  have "s = s\<lparr>outcomes := outcomes s\<rparr>" by simp
  then show ?thesis using assms(1) [of "outcomes s"] assms
    by (auto simp: wp_def ctxCheck_def next_outcome_def split: list.splits outcome.splits)
qed

lemma wp_copyRegularFile:
  assumes "dst \<noteq> src"
    and "\<And>rs fs b. look s src = Some (File b) \<Longrightarrow> map_of fs = (look s)(dst \<mapsto> File b) \<Longrightarrow> Q () (s\<lparr>outcomes := rs, files := fs\<rparr>)"
    and "\<And>e rs fs. (\<And>q. q \<noteq> dst \<Longrightarrow> map_of fs q = look s q) \<Longrightarrow> E e (s\<lparr>outcomes := rs, files := fs\<rparr>)"
  shows "wp (copyRegularFile dst src) Q E s"
proof -
  have E: "E e (s\<lparr>outcomes := rs\<rparr>)" for e rs using assms(3) [where fs = "files s" and e = e and rs = rs] by simp
  have Ep: "E e (s\<lparr>outcomes := rs, files := put dst x (files s)\<rparr>)" for e rs x by (rule assms(3)) simp
  have Epp: "E e (s\<lparr>outcomes := rs, files := put dst x (put dst y (files s))\<rparr>)" for e rs x y by (rule assms(3)) simp
  have tail: "wp (bind call (\<lambda>_. call)) Q E (s\<lparr>outcomes := rs, files := put dst (File b) (put dst (File []) (files s))\<rparr>)"
    if b: "look s src = Some (File b)" for rs b
  proof -
    have "Q () (s\<lparr>outcomes := rs, files := put dst (File b) (put dst (File []) (files s))\<rparr>)" for rs
      using b by (rule assms(2)) auto
    then show ?thesis unfolding wp_bind by (auto intro!: wp_call_frame simp: Epp upd_order)
  qed
  have step: "wp (copyFileDenseContext dst n) (\<lambda>_. wp (bind call (\<lambda>_. call)) Q E) E
      (s\<lparr>outcomes := rs, files := put dst (File []) (files s)\<rparr>)" if n: "look s src = Some n" for n rs
  proof (cases n)
    case Dir
    then show ?thesis
      by (auto simp: copyFileDenseContext_def wp_rules Ep upd_order intro!: wp_ctxCheck_frame)
  next
    case (File b)
    have "wp (transfer dst b) (\<lambda>_. wp (bind call (\<lambda>_. call)) Q E) E (s\<lparr>outcomes := rs, files := put dst (File []) (files s)\<rparr>)" for rs
      by (rule wp_transfer) (use File n in \<open>auto simp: Ep Epp upd_order intro!: tail\<close>)
    then show ?thesis using Ep
      by (auto simp: File copyFileDenseContext_def wp_bind upd_order intro!: wp_ctxCheck_frame)
  qed
  show ?thesis
    unfolding copyRegularFile_def wp_bind
    by (rule wp_osOpen; (rule wp_osCreateTrunc)?) (use assms(1) step [unfolded wp_bind] in \<open>auto simp: E upd_order\<close>)
qed

section \<open>What the steps keep\<close>

text \<open>
  A predicate that looks at the tables, the guards and the process table only, that changes of a
  machine's state and archive column keep, and that holds on when processes end; \<open>launchable\<close> when a
  process of the machine starts.
\<close>

definition steady :: "('z mgr_scheme \<Rightarrow> bool) \<Rightarrow> bool" where
  "steady I \<longleftrightarrow> files_blind I \<and>
     (\<forall>s P. I s \<longrightarrow> I (s\<lparr>running := filter P (running s)\<rparr>)) \<and>
     (\<forall>s u f. I s \<longrightarrow> I (s\<lparr>running := map (\<lambda>q. if procUUID q = u then q\<lparr>procFinalState := f\<rparr> else q) (running s)\<rparr>)) \<and>
     (\<forall>s f. I (s\<lparr>taps := f\<rparr>) = I s) \<and> (\<forall>s f. I (s\<lparr>guests := f\<rparr>) = I s) \<and>
     (\<forall>s f. I (s\<lparr>plugged := f\<rparr>) = I s) \<and> (\<forall>s f. I (s\<lparr>entropy := f\<rparr>) = I s) \<and>
     (\<forall>s f. I (s\<lparr>guestMemoryReports := f\<rparr>) = I s) \<and>
     (\<forall>s f g. I (s\<lparr>baseSignature := f, baseMetadata := g\<rparr>) = I s) \<and>
     (\<forall>u st. keeps I (SetVMState u st)) \<and> (\<forall>u p. keeps I (SetVMArchivedDiskPath u p))"

lemma steadyD:
  assumes "steady I"
  shows "files_blind I" "outcome_blind I"
    "I s \<Longrightarrow> I (s\<lparr>running := filter P (running s)\<rparr>)"
    "I s \<Longrightarrow> I (s\<lparr>running := map (\<lambda>q. if procUUID q = v then q\<lparr>procFinalState := z\<rparr> else q) (running s)\<rparr>)"
    "I (s\<lparr>taps := b\<rparr>) = I s" "I (s\<lparr>guests := c\<rparr>) = I s" "I (s\<lparr>plugged := d\<rparr>) = I s"
    "I (s\<lparr>entropy := e\<rparr>) = I s" "I (s\<lparr>guestMemoryReports := f\<rparr>) = I s" "I (s\<lparr>baseSignature := g, baseMetadata := h\<rparr>) = I s"
    "I (s\<lparr>files := fs\<rparr>) = I s" "I (s\<lparr>outcomes := rs\<rparr>) = I s"
    "keeps I (SetVMState u st)" "keeps I (SetVMArchivedDiskPath u p)"
  using assms by (simp_all add: steady_def files_blind_def outcome_blind_def del: split_paired_All)

definition launchable :: "VM \<Rightarrow> ('z mgr_scheme \<Rightarrow> bool) \<Rightarrow> bool" where
  "launchable vm I \<longleftrightarrow> (\<forall>s p. procUUID p = vmUUID vm \<longrightarrow> procName p = vmName vm \<longrightarrow> I s \<longrightarrow>
     I (s\<lparr>running := p # filter (\<lambda>q. procUUID q \<noteq> vmUUID vm) (running s)\<rparr>))"

lemma steady_next: "steady I \<Longrightarrow> next_outcome s = (r, s') \<Longrightarrow> I s' = I s"
  by (rule next_outcome_blind [OF steadyD(2)])

lemma copies_keep [keeps_rules]:
  assumes "files_blind I"
  shows "keeps I (writeAt p pos b)" "keeps I (setSize p n)" "keeps I (ioctlFileClone p b)"
proof -
  note bl = assms [THEN files_blind_outcome]
  show "keeps I (writeAt p pos b)" "keeps I (ioctlFileClone p b)"
    using assms by (auto simp: keeps_def writeAt_def ioctlFileClone_def files_blind_def next_outcome_blind [OF bl]
        split: prod.splits outcome.splits)
  show "keeps I (setSize p n)"
    unfolding setSize_def using assms bl by (intro keeps_rules keeps_modify_files)
qed

lemma copyExtents_keep [keeps_rules]: "files_blind I \<Longrightarrow> keeps I (copyExtents fuel sk dst b off pos)"
  by (induction fuel arbitrary: off pos)
    (auto simp: Let_def copyFileDense_def intro!: keeps_rules files_blind_outcome split: seekResult.splits)

lemma fileSteps_keep [keeps_rules]:
  assumes "files_blind I"
  shows "keeps I (copyFile h dst src)" "keeps I (copyRegularFile dst src)" "keeps I (ensureDisk h p src n)"
  using assms unfolding copyFile_def copyRegularFile_def ensureDisk_def cloneOrCopy_def copySparseFile_def tryCloneFile_def
    copyFileDenseContext_def osTruncateOpen_def
  by (auto simp del: copyExtents.simps intro!: keeps_rules files_blind_outcome split: sum.splits node.splits)

lemma runCommand_keep [keeps_rules]: "files_blind I \<Longrightarrow> keeps I (runCommand h args)"
  by (auto simp: keeps_def runCommand_def files_blind_def next_outcome_blind split: prod.splits outcome.splits)

lemma guestFiles_keep [keeps_rules]:
  assumes "files_blind I"
  shows "keeps I (resizeExt4Image h p)" "keeps I (debugfs h r p)" "keeps I (writeGuestFileMode h disk g d m)"
    "keeps I (rewriteSSHHostKeys h disk)" "keeps I (rewriteGuestNetworkHelper h disk)"
  using assms unfolding resizeExt4Image_def debugfs_def writeGuestFileMode_def rewriteSSHHostKeys_def replaceGuestFile_def
    rewriteGuestNetworkHelper_def Let_def
  by (intro keeps_rules; assumption?; auto intro!: keeps_rules simp: files_blind_outcome)+

lemma reads_steady [keeps_rules]:
  assumes "files_blind I"
  shows "keeps I (memoryConfigForHost vm)" "keeps I (virtioMemUsableForVM vm)" "keeps I (vmDiskPath cfg vm)"
    "keeps I (writeFirecrackerConfig p c)" "keeps I (fileSHA256 p)" "keeps I (readImageManifest p)"
  using assms unfolding memoryConfigForHost_def virtioMemUsableForVM_def virtioMemSupportedForRange_def
    hostPhysicalAddressBits_def vmDiskPath_def Let_def writeFirecrackerConfig_def fileSHA256_def readImageManifest_def
  by (auto intro!: keeps_rules files_blind_outcome split: sum.splits node.splits)

lemma nextPrivateIP_keep [keeps_rules]: "outcome_blind I \<Longrightarrow> keeps I (nextPrivateIP cfg)"
  unfolding nextPrivateIP_def by (auto intro!: keeps_rules split: option.splits prod.splits)

lemma identity_steady [keeps_rules]:
  assumes "steady I"
  shows "keeps I (randRead n)" "keeps I (rewriteGuestIdentity h disk name)"
proof -
  show r: "keeps I (randRead n)" for n
    unfolding randRead_def using steadyD [OF assms] by (intro keeps_rules keeps_modify) auto
  show "keeps I (rewriteGuestIdentity h disk name)"
    unfolding rewriteGuestIdentity_def randomMachineID_def using steadyD(1) [OF assms] by (intro keeps_rules r)
qed

lemma network_steady [keeps_rules]:
  assumes "steady I"
  shows "keeps I (deleteTap n)" "keeps I (prepareNetwork h vm)" "keeps I (cleanupNetwork n)" "keeps I (cleanupAfterExit p)"
proof -
  note st = steadyD [OF assms]
  show d: "keeps I (deleteTap n)" for n
    unfolding deleteTap_def using st by (intro keeps_rules keeps_modify) auto
  show "keeps I (cleanupNetwork n)" "keeps I (cleanupAfterExit p)"
    unfolding cleanupAfterExit_def cleanupNetwork_def using st(1) by (intro keeps_rules d)+
  show "keeps I (prepareNetwork h vm)"
    unfolding prepareNetwork_def orDeleteTap_def Let_def using st
    by (intro keeps_rules keeps_modify d) auto
qed

lemma process_steady [keeps_rules]:
  assumes "steady I"
  shows "keeps I (processExit p)" "keeps I (waitForProcessExit p)"
    "keeps I (stopProcess p f)" "keeps I (waitForSocket q)"
proof -
  note st = steadyD [OF assms] and net = network_steady [OF assms]
  show e: "keeps I (processExit p)" for p
    unfolding processExit_def Let_def using st by (intro keeps_rules keeps_modify net) auto
  show w: "keeps I (waitForProcessExit p)" for p
    unfolding waitForProcessExit_def using st(2) by (intro keeps_rules e)
  show "keeps I (stopProcess p f)"
    unfolding stopProcess_def using st by (intro keeps_rules keeps_modify w net) auto
  show "keeps I (waitForSocket q)"
    unfolding waitForSocket_def using st by (intro keeps_rules keeps_modify) auto
qed

lemma launchProcess_steady [keeps_rules]:
  assumes "steady I" and "launchable vm I"
  shows "keeps I (launchProcess h vm l n c)"
proof -
  note st = steadyD [OF assms(1)]
  have "I (bootGuest h u c s) = I s" for u s
    using st by (auto simp: bootGuest_def split: option.splits node.splits)
  then show ?thesis
    unfolding launchProcess_def Let_def using st assms(2)
    by (intro keeps_rules keeps_modify) (auto simp: launchable_def)
qed

lemma firecracker_steady [keeps_rules]:
  assumes "steady I"
  shows "keeps I (firecrackerAction a)" "keeps I (firecrackerSetVMState a)"
    "keeps I (firecrackerCreateSnapshot h u p q)" "keeps I (firecrackerLoadSnapshot h u p q)"
    "keeps I (firecrackerPatchMemoryHotplug r)" "keeps I firecrackerGetMemoryHotplug"
proof -
  note st = steadyD [OF assms]
  show "keeps I (firecrackerCreateSnapshot h u p q)"
    using st by (auto simp: keeps_def firecrackerCreateSnapshot_def steady_next [OF assms]
        split: prod.splits outcome.splits)
qed (use steadyD [OF assms] in \<open>auto simp: firecrackerAction_def firecrackerSetVMState_def firecrackerLoadSnapshot_def
    firecrackerPatchMemoryHotplug_def firecrackerGetMemoryHotplug_def intro!: keeps_rules keeps_modify
    split: option.splits node.splits prod.splits\<close>)

lemma metadata_steady [keeps_rules]:
  assumes "steady I"
  shows "keeps I (baseImageMetadata cfg)"
proof -
  note st = steadyD [OF assms]
  have "keeps I (signatureOf ps b)" for ps b
    using st(1) by (induction ps arbitrary: b) (auto intro!: keeps_rules)
  moreover have "keeps I (artifactMetadata p)" for p
    unfolding artifactMetadata_def using st(1) by (intro keeps_rules)
  ultimately show ?thesis
    unfolding baseImageMetadata_def baseImageSignature_def Let_def using st
    by (intro keeps_rules keeps_modify) auto
qed

lemma guards_steady [keeps_rules]:
  assumes "outcome_blind I" "\<And>s ops. I (s\<lparr>vmOps := ops\<rparr>) = I s" "\<And>s as ops. I (s\<lparr>coldArchives := as, vmOps := ops\<rparr>) = I s"
    "\<And>s as ops. I (s\<lparr>vmOps := ops, coldArchives := as\<rparr>) = I s"
  shows "keeps I (beginVMOperation u)" "keeps I (endVMOperation u)" "keeps I (beginVMOperationCancelingColdArchive u)"
    "keeps I (beginStartOperationCancelingColdArchive u)" "keeps I (beginColdArchiveOperation u)" "keeps I (endColdArchiveOperation u)"
  using assms unfolding beginVMOperation_def endVMOperation_def beginVMOperationCancelingColdArchive_def
    beginStartOperationCancelingColdArchive_def beginColdArchiveOperation_def endColdArchiveOperation_def awaitColdArchive_def
  by (auto intro!: keeps_rules keeps_modify)

section \<open>A host and a manager for examples\<close>

definition sampleMgr :: mgr where
  "sampleMgr = auth.extend sampleAuth (mgr.fields [] [] [] [] [] (\<lambda>_. []) (\<lambda>_. 0) []
     \<lparr>bmRootfs = \<lparr>amPath = [], amBasename = [], amSHA256 = [], amSize = 0, amModTime = []\<rparr>,
      bmKernel = \<lparr>amPath = [], amBasename = [], amSHA256 = [], amSize = 0, amModTime = []\<rparr>,
      bmInitrd = None, bmManifest = []\<rparr> (0, 0, 0))"

lemma sampleMgr_simps [simp]:
  "outcomes sampleMgr = []" "files sampleMgr = []" "vmsT sampleMgr = []" "routesT sampleMgr = []"
  "snapshotsT sampleMgr = []" "protectionsT sampleMgr = []" "clock sampleMgr = 0" "seed sampleMgr = 0"
  "sqlnow sampleMgr = ''2026-01-01T00:00:00.000Z''"
  "running sampleMgr = []" "vmOps sampleMgr = []" "coldArchives sampleMgr = []" "taps sampleMgr = []"
  "guests sampleMgr = (\<lambda>_. [])" "guestMemoryReports sampleMgr = []"
  by (simp_all add: sampleMgr_def sampleAuth_def emptyStore_def auth.defs store.defs mgr.defs)

text \<open>Tools that leave the disks as they are, and a guest that is saved as its state and two lines of memory.\<close>

definition sampleHost :: host where
  "sampleHost = \<lparr>hCfg = Default, hTool = (\<lambda>_ fs. fs), hToolFailed = (\<lambda>_ fs. fs), hSave = (\<lambda>g. (''v'', g)),
     hLoad = (\<lambda>(v, m). if v = ''v'' then Some m else None), hBoot = (\<lambda>_. ''booted''),
     hSeeks = (\<lambda>b. \<lparr>seekData = At, seekHole = (\<lambda>_. At (length b))\<rparr>), hUuidParses = (\<lambda>_. False), hNetworkScript = []\<rparr>"

end
