(* ===== verification/Caddy.thy ===== *)
theory Caddy
  imports Vmm
begin

text \<open>
  The configuration of the embedded Caddy server, \<open>internal/proxy/caddy.go\<close>: \<open>Manager.Reconcile\<close>
  reads machines, routes and protected host names and loads a configuration built from them.
  Objects are written with their keys in the order in which \<open>encoding/json\<close> sorts them.  Caddy itself
  is outside; the state keeps the configuration it was given last.

  Shown here: the configuration sends traffic to the wake proxy and to nothing else, and the host
  names it sends there are those of the published machines, of the aliases of published machines
  and of the protected names.
\<close>

record service = mgr +
  caddyData :: "string option"

section \<open>Routes\<close>

definition proxyHandler :: "string \<Rightarrow> json" where
  "proxyHandler upstream = JArr [JObj [(''handler'', JStr ''reverse_proxy''),
     (''upstreams'', JArr [JObj [(''dial'', JStr upstream)]])]]"

definition hostMatch :: "string \<Rightarrow> json" where
  "hostMatch host = JArr [JObj [(''host'', JArr [JStr host])]]"

definition reverseProxyRoute :: "string \<Rightarrow> string \<Rightarrow> json" where
  "reverseProxyRoute host upstream = JObj [(''handle'', proxyHandler upstream), (''match'', hostMatch host)]"

definition routeAuthRoute :: "string \<Rightarrow> json" where
  "routeAuthRoute upstream = JObj [(''handle'', proxyHandler upstream),
     (''match'', JArr [JObj [(''path'', JArr [JStr ''/_firedoze/auth''])]])]"

definition baseDomainRoute :: "string \<Rightarrow> json" where
  "baseDomainRoute host = JObj [
     (''handle'', JArr [JObj [(''body'', JStr (''firedoze is running'' @ [CHR 0x0A])), (''handler'', JStr ''static_response''),
       (''status_code'', JStr ''200'')]]),
     (''match'', hostMatch host)]"

definition routeNotFoundRoute :: json where
  "routeNotFoundRoute = JObj [
     (''handle'', JArr [JObj [(''body'', JStr (''firedoze route not found'' @ [CHR 0x0A])), (''handler'', JStr ''static_response''),
       (''status_code'', JStr ''404'')]])]"

definition redirectToHTTPSRoute :: "string \<Rightarrow> json" where
  "redirectToHTTPSRoute host = JObj [
     (''handle'', JArr [JObj [(''handler'', JStr ''static_response''),
       (''headers'', JObj [(''Location'', JArr [JStr ''https://{http.request.host}{http.request.uri}''])]),
       (''status_code'', JStr ''308'')]]),
     (''match'', hostMatch host)]"

definition wakeProxyUpstream :: "Config \<Rightarrow> string" where
  "wakeProxyUpstream cfg = JoinHostPort ''127.0.0.1'' (itoa (caddyInternalProxyPort (cfgCaddy cfg)))"

definition DefaultHost :: "string \<Rightarrow> string \<Rightarrow> string" where
  "DefaultHost name baseDomain = name @ ''.'' @ baseDomain"

section \<open>The configuration\<close>

text \<open>The three loops collect the public host names and the proxying routes, in this order.\<close>

definition addHost :: "string \<Rightarrow> string list \<Rightarrow> string list" where
  "addHost host hosts = (if host \<in> set hosts then hosts else hosts @ [host])"

definition published :: "VM \<Rightarrow> bool" where
  "published vm \<longleftrightarrow> \<not> (vmPrivateIP vm = [] \<or> \<not> vmPublicHTTP vm)"

fun addVMs :: "Config \<Rightarrow> VM list \<Rightarrow> string list \<times> json list \<Rightarrow> string list \<times> json list" where
  "addVMs cfg [] acc = acc"
| "addVMs cfg (vm # vms) (hosts, routes) = addVMs cfg vms
     (if \<not> published vm then (hosts, routes) else
      let host = vmName vm @ ''.'' @ cfgBaseDomain cfg in
      (addHost host hosts, routes @ [reverseProxyRoute host (wakeProxyUpstream cfg)]))"

fun addAliases :: "Config \<Rightarrow> VM list \<Rightarrow> Route list \<Rightarrow> string list \<times> json list \<Rightarrow> string list \<times> json list" where
  "addAliases cfg vms [] acc = acc"
| "addAliases cfg vms (a # as) (hosts, routes) = addAliases cfg vms as
     (case find (\<lambda>vm. vmName vm = routeVMName a) (rev vms) of
        None \<Rightarrow> (hosts, routes)
      | Some vm \<Rightarrow>
          if \<not> published vm then (hosts, routes) else
          let host = routeName a @ ''.'' @ cfgBaseDomain cfg in
          (addHost host hosts, routes @ [reverseProxyRoute host (wakeProxyUpstream cfg)]))"

fun addProtected :: "Config \<Rightarrow> string list \<Rightarrow> string list \<times> json list \<Rightarrow> string list \<times> json list" where
  "addProtected cfg [] acc = acc"
| "addProtected cfg (host # ps) (hosts, routes) = addProtected cfg ps
     (if host \<in> set hosts then (hosts, routes)
      else (hosts @ [host], routes @ [reverseProxyRoute host (wakeProxyUpstream cfg)]))"

definition proxied :: "Config \<Rightarrow> VM list \<Rightarrow> Route list \<Rightarrow> string list \<Rightarrow> string list \<times> json list" where
  "proxied cfg vms aliases protectedHosts =
     addProtected cfg protectedHosts (addAliases cfg vms aliases (addVMs cfg vms ([cfgBaseDomain cfg], [])))"

definition caddyServers :: "Config \<Rightarrow> string list \<Rightarrow> json list \<Rightarrow> json" where
  "caddyServers cfg publicHosts routes =
     (let listen = (\<lambda>port. JArr [JStr ('':'' @ itoa port)]) in
      if caddyTLSMode (cfgCaddy cfg) = ''behind_proxy'' then
        JObj [(''firedoze_http'', JObj [(''listen'', listen (caddyHTTPPort (cfgCaddy cfg))), (''routes'', JArr routes)])]
      else
        JObj [(''firedoze_http'', JObj [(''listen'', listen (caddyHTTPPort (cfgCaddy cfg))),
                 (''routes'', JArr (map redirectToHTTPSRoute publicHosts @ [routeNotFoundRoute]))]),
              (''firedoze_https'', JObj [(''listen'', listen (caddyHTTPSPort (cfgCaddy cfg))), (''routes'', JArr routes),
                 (''tls_connection_policies'', JArr [JObj []])])])"

definition caddyConfig :: "Config \<Rightarrow> VM list \<Rightarrow> Route list \<Rightarrow> string list \<Rightarrow> json" where
  "caddyConfig cfg vms aliases protectedHosts =
     (case proxied cfg vms aliases protectedHosts of (publicHosts, proxies) \<Rightarrow>
      let routes = routeAuthRoute (wakeProxyUpstream cfg) # baseDomainRoute (cfgBaseDomain cfg) # proxies @ [routeNotFoundRoute] in
      JObj [(''admin'', JObj [(''disabled'', JBool True)]),
            (''apps'', JObj [(''http'', JObj [(''http_port'', JNum (caddyHTTPPort (cfgCaddy cfg))),
               (''https_port'', JNum (caddyHTTPSPort (cfgCaddy cfg))), (''servers'', caddyServers cfg publicHosts routes)])])])"

section \<open>The manager\<close>

definition Reconcile :: "Config \<Rightarrow> ('z service_scheme, unit) prog" where
  "Reconcile cfg =
     bind ListVMs (\<lambda>vms.
     bind ListRoutes (\<lambda>aliases.
     bind ListRouteProtections (\<lambda>protectedHosts.
     let data = compactJSON (caddyConfig cfg vms aliases protectedHosts) in
     bind call (\<lambda>_.
     modify (\<lambda>s. s\<lparr>caddyData := Some data\<rparr>)))))"

definition caddyManagerStop :: "('z service_scheme, unit) prog" where
  "caddyManagerStop = bind call (\<lambda>_. modify (\<lambda>s. s\<lparr>caddyData := None\<rparr>))"

section \<open>Where the configuration sends requests\<close>

text \<open>The addresses a configuration has Caddy connect to.\<close>

fun dials :: "json \<Rightarrow> string list" where
  "dials (JArr vs) = concat (map dials vs)"
| "dials (JObj kvs) = concat (map (\<lambda>(k, v). (case v of JStr a \<Rightarrow> if k = ''dial'' then [a] else [] | _ \<Rightarrow> dials v)) kvs)"
| "dials _ = []"

lemma dials_routes [simp]:
  "dials (reverseProxyRoute h u) = [u]" "dials (routeAuthRoute u) = [u]" "dials (baseDomainRoute h) = []"
  "dials routeNotFoundRoute = []" "dials (redirectToHTTPSRoute h) = []"
  by (simp_all add: reverseProxyRoute_def routeAuthRoute_def baseDomainRoute_def routeNotFoundRoute_def
      redirectToHTTPSRoute_def proxyHandler_def hostMatch_def)

lemma reverseProxyRoute_inj: "reverseProxyRoute h u = reverseProxyRoute h' u \<longleftrightarrow> h = h'"
  by (simp add: reverseProxyRoute_def hostMatch_def)

lemma set_addHost [simp]: "set (addHost h hs) = insert h (set hs)"
  by (auto simp: addHost_def)

lemma addVMs_spec:
  "set (fst (addVMs cfg vms (H, R))) = set H \<union> (\<lambda>vm. vmName vm @ ''.'' @ cfgBaseDomain cfg) ` {vm \<in> set vms. published vm}"
  "snd (addVMs cfg vms (H, R)) = R @ map (\<lambda>vm. reverseProxyRoute (vmName vm @ ''.'' @ cfgBaseDomain cfg) (wakeProxyUpstream cfg)) (filter published vms)"
  by (induction vms arbitrary: H R) (auto simp: Let_def)

definition aliasOf :: "VM list \<Rightarrow> Route \<Rightarrow> bool" where
  "aliasOf vms a \<longleftrightarrow> (case find (\<lambda>vm. vmName vm = routeVMName a) (rev vms) of None \<Rightarrow> False
     | Some vm \<Rightarrow> vmPrivateIP vm \<noteq> [] \<and> vmPublicHTTP vm)"

lemma addAliases_spec:
  "set (fst (addAliases cfg vms as (H, R))) = set H \<union> (\<lambda>a. routeName a @ ''.'' @ cfgBaseDomain cfg) ` {a \<in> set as. aliasOf vms a}"
  "snd (addAliases cfg vms as (H, R)) = R @ map (\<lambda>a. reverseProxyRoute (routeName a @ ''.'' @ cfgBaseDomain cfg) (wakeProxyUpstream cfg)) (filter (aliasOf vms) as)"
  by (induction as arbitrary: H R) (auto simp: Let_def aliasOf_def published_def split: option.splits)

lemma addProtected_spec:
  "set (snd (addProtected cfg ps (H, R))) = set R \<union> (\<lambda>h. reverseProxyRoute h (wakeProxyUpstream cfg)) ` (set ps - set H)"
  by (induction ps arbitrary: H R) auto

lemma proxied_spec:
  "set (snd (proxied cfg vms as ps)) = (\<lambda>h. reverseProxyRoute h (wakeProxyUpstream cfg)) `
     ((\<lambda>vm. vmName vm @ ''.'' @ cfgBaseDomain cfg) ` {vm \<in> set vms. published vm} \<union>
      (\<lambda>a. routeName a @ ''.'' @ cfgBaseDomain cfg) ` {a \<in> set as. aliasOf vms a} \<union> (set ps - {cfgBaseDomain cfg}))"
proof -
  obtain H1 R1 where 1: "addVMs cfg vms ([cfgBaseDomain cfg], []) = (H1, R1)" by fastforce
  obtain H2 R2 where 2: "addAliases cfg vms as (H1, R1) = (H2, R2)" by fastforce
  let ?V = "(\<lambda>vm. vmName vm @ ''.'' @ cfgBaseDomain cfg) ` {vm \<in> set vms. published vm}"
    and ?A = "(\<lambda>a. routeName a @ ''.'' @ cfgBaseDomain cfg) ` {a \<in> set as. aliasOf vms a}"
    and ?r = "\<lambda>h. reverseProxyRoute h (wakeProxyUpstream cfg)"
  have "set H1 = {cfgBaseDomain cfg} \<union> ?V" "set R1 = ?r ` ?V"
    using addVMs_spec [of cfg vms "[cfgBaseDomain cfg]" "[]"] unfolding 1 by (simp_all add: image_image)
  then have "set H2 = {cfgBaseDomain cfg} \<union> ?V \<union> ?A" "set R2 = ?r ` (?V \<union> ?A)"
    using addAliases_spec [of cfg vms as H1 R1] unfolding 2 by (simp_all add: image_Un image_image)
  then have "set (snd (proxied cfg vms as ps)) = ?r ` (?V \<union> ?A) \<union> ?r ` (set ps - ({cfgBaseDomain cfg} \<union> ?V \<union> ?A))"
    by (simp add: proxied_def 1 2 addProtected_spec)
  moreover have "?r ` X \<union> ?r ` (Y - ({b} \<union> X)) = ?r ` (X \<union> (Y - {b}))" for X Y b by blast
  ultimately show ?thesis by (simp only: Un_assoc)
qed

text \<open>
  C33: What Caddy is told to serve.  The configuration has Caddy connect to the wake proxy and to no
  other address, so no request reaches a machine around the checks of the wake proxy; and the host
  names it proxies are exactly those of the published machines with an address, of the aliases of
  such machines, and of the protected host names other than the base domain.
\<close>

theorem caddy_only_wake_proxy:
  "set (dials (caddyConfig cfg vms as ps)) = {wakeProxyUpstream cfg} \<and>
   (reverseProxyRoute host (wakeProxyUpstream cfg) \<in> set (snd (proxied cfg vms as ps)) \<longleftrightarrow>
      (\<exists>vm \<in> set vms. vmPrivateIP vm \<noteq> [] \<and> vmPublicHTTP vm \<and> host = DefaultHost (vmName vm) (cfgBaseDomain cfg)) \<or>
      (\<exists>a \<in> set as. aliasOf vms a \<and> host = DefaultHost (routeName a) (cfgBaseDomain cfg)) \<or>
      host \<in> set ps \<and> host \<noteq> cfgBaseDomain cfg)"
proof
  obtain H R where p: "proxied cfg vms as ps = (H, R)" by fastforce
  have R: "set R \<subseteq> range (\<lambda>h. reverseProxyRoute h (wakeProxyUpstream cfg))" using proxied_spec [of cfg vms as ps] p by auto
  have r: "set (concat (map dials rs)) \<subseteq> {wakeProxyUpstream cfg}" if "set rs \<subseteq> range (\<lambda>h. reverseProxyRoute h (wakeProxyUpstream cfg))" for rs
    using that by (induction rs) auto
  have "concat (map (dials \<circ> redirectToHTTPSRoute) hs) = []" for hs by (induction hs) auto
  then show "set (dials (caddyConfig cfg vms as ps)) = {wakeProxyUpstream cfg}"
    using r [OF R] by (auto simp: caddyConfig_def p caddyServers_def Let_def)
  show "reverseProxyRoute host (wakeProxyUpstream cfg) \<in> set (snd (proxied cfg vms as ps)) \<longleftrightarrow>
      (\<exists>vm \<in> set vms. vmPrivateIP vm \<noteq> [] \<and> vmPublicHTTP vm \<and> host = DefaultHost (vmName vm) (cfgBaseDomain cfg)) \<or>
      (\<exists>a \<in> set as. aliasOf vms a \<and> host = DefaultHost (routeName a) (cfgBaseDomain cfg)) \<or>
      host \<in> set ps \<and> host \<noteq> cfgBaseDomain cfg"
    unfolding proxied_spec by (auto simp: image_iff reverseProxyRoute_inj DefaultHost_def published_def)
qed

end
