(* ===== verification/ColdStorage.thy ===== *)
theory ColdStorage
  imports Vmm
begin

text \<open>
  \<open>internal/firecracker/cold_storage.go\<close>: disks of machines that have been stopped for long move to
  a second directory and come back when the machine starts.

  \<open>diskContent\<close> is what the next start of a machine finds: the disk in the machine's directory or,
  without one, the archived disk.  Shown here: whatever calls fail and wherever a copy breaks off,
  neither archiving nor restoring changes the content of any machine's disk, provided that the cold
  directory is neither the state directory nor inside its machine directories; and that archiving
  loses the only copy when both directories are the same.
\<close>

section \<open>Operations\<close>

definition second :: int where
  "second = 1000000000"

definition coldStorageEnabled :: "Config \<Rightarrow> bool" where
  "coldStorageEnabled cfg \<longleftrightarrow>
     coldDir (cfgColdStorage cfg) \<noteq> [] \<and> coldArchiveStoppedAfterSeconds (cfgColdStorage cfg) > 0"

definition shouldArchiveStoppedVM :: "Config \<Rightarrow> VM \<Rightarrow> int \<Rightarrow> bool" where
  "shouldArchiveStoppedVM cfg vm now =
     (if vmState vm \<noteq> ''stopped'' \<or> vmStoppedAt vm = [] then False
      else case parseRFC3339 (vmStoppedAt vm) of
        None \<Rightarrow> False
      | Some stoppedAt \<Rightarrow>
          (let threshold = wrap64 (coldArchiveStoppedAfterSeconds (cfgColdStorage cfg) * second) in
           \<not> now < stoppedAt + threshold))"

text \<open>\<open>if err := os.Remove(p); err != nil && !os.IsNotExist(err) { return err }\<close>\<close>

definition removeIfExists :: "string \<Rightarrow> ('z fsys_scheme, unit) prog" where
  "removeIfExists p = bind (attempt (osRemove p)) (\<lambda>r.
     case r of Inr _ \<Rightarrow> ret () | Inl e \<Rightarrow> if isNotExist e then ret () else throw e)"

text \<open>The part of \<open>ArchiveStoppedVM\<close> that is under the clean-up of the temporary file.\<close>

definition moveToCold :: "Config \<Rightarrow> VM \<Rightarrow> string \<Rightarrow> ('z mgr_scheme, unit) prog" where
  "moveToCold cfg vm tmpPath =
     (let hot = diskPath (layoutOf cfg (vmName vm));
          coldPath = pathJoin [coldVMDir cfg (vmName vm), ''rootfs.ext4''] in
      bind (copyRegularFile tmpPath hot) (\<lambda>_.
      bind ctxCheck (\<lambda>_.
      bind (removeIfExists coldPath) (\<lambda>_.
      bind (osRename tmpPath coldPath) (\<lambda>_.
      bind (SetVMArchivedDiskPath (vmUUID vm) coldPath) (\<lambda>_.
      osRemove hot))))))"

definition archiveDisk :: "Config \<Rightarrow> VM \<Rightarrow> ('z mgr_scheme, unit) prog" where
  "archiveDisk cfg vm =
     bind (attempt (osStat (diskPath (layoutOf cfg (vmName vm))))) (\<lambda>st.
     case st of
       Inl e \<Rightarrow> if isNotExist e then ret () else throw e
     | Inr _ \<Rightarrow>
         bind (osMkdirAll (coldVMDir cfg (vmName vm))) (\<lambda>_.
         bind (osTemp (File []) (coldVMDir cfg (vmName vm)) ''rootfs.ext4.'' ''.tmp'') (\<lambda>tmpPath.
         bind call (\<lambda>_.
         deferring (osRemove tmpPath) (moveToCold cfg vm tmpPath)))))"

definition ArchiveStoppedVM :: "Config \<Rightarrow> string \<Rightarrow> int \<Rightarrow> ('z mgr_scheme, unit) prog" where
  "ArchiveStoppedVM cfg u now =
     (if \<not> coldStorageEnabled cfg then ret () else
      bind (beginColdArchiveOperation u) (\<lambda>_.
      deferring (endColdArchiveOperation u) (
        bind (GetVM u) (\<lambda>vm.
        if \<not> shouldArchiveStoppedVM cfg vm now then ret () else
        bind (gets (\<lambda>s. isRunning s (vmUUID vm))) (\<lambda>r. if r then ret () else archiveDisk cfg vm)))))"

text \<open>The part of \<open>hydrateColdDisk\<close> that is under the clean-up of the temporary file.\<close>

definition moveToHot :: "Config \<Rightarrow> VM \<Rightarrow> string \<Rightarrow> string \<Rightarrow> ('z mgr_scheme, unit) prog" where
  "moveToHot cfg vm coldPath tmpPath =
     bind (copyRegularFile tmpPath coldPath) (\<lambda>_.
     bind (osRename tmpPath (diskPath (layoutOf cfg (vmName vm)))) (\<lambda>_.
     bind (SetVMArchivedDiskPath (vmUUID vm) []) (\<lambda>_.
     bind (ignoring (osRemove coldPath)) (\<lambda>_.
     ignoring (osRemove (pathDir coldPath))))))"

definition hydrateColdDisk :: "Config \<Rightarrow> VM \<Rightarrow> ('z mgr_scheme, unit) prog" where
  "hydrateColdDisk cfg vm =
     (if coldDir (cfgColdStorage cfg) = [] \<and> vmArchivedDiskPath vm = [] then ret () else
      let l = layoutOf cfg (vmName vm) in
      bind (attempt (osStat (diskPath l))) (\<lambda>st.
      case st of
        Inr _ \<Rightarrow>
          if vmArchivedDiskPath vm \<noteq> [] then
            bind (SetVMArchivedDiskPath (vmUUID vm) []) (\<lambda>_. ignoring (osRemove (vmArchivedDiskPath vm)))
          else ret ()
      | Inl e \<Rightarrow>
          if \<not> isNotExist e then throw e else
          let archived = (vmArchivedDiskPath vm \<noteq> []);
              coldPath = (if archived then vmArchivedDiskPath vm else coldDiskPath cfg (vmName vm)) in
          if coldPath = [] then ret () else
          bind (attempt (osStat coldPath)) (\<lambda>st.
          case st of
            Inl e \<Rightarrow> if isNotExist e then (if archived then throw (Wrap ''archived disk'' e) else ret ()) else throw e
          | Inr _ \<Rightarrow>
            bind (osMkdirAll (vmDir l)) (\<lambda>_.
            bind (osTemp (File []) (vmDir l) ''rootfs.ext4.'' ''.restore.tmp'') (\<lambda>tmpPath.
            bind call (\<lambda>_.
            deferring (osRemove tmpPath) (moveToHot cfg vm coldPath tmpPath)))))))"

text \<open>One round of the monitor, and its rounds at the times the ticker gives until the context ends.\<close>

definition ColdStorageMonitor_check :: "Config \<Rightarrow> int \<Rightarrow> ('z mgr_scheme, unit) prog" where
  "ColdStorageMonitor_check cfg now = bind (attempt ListVMs) (\<lambda>r.
     case r of Inl _ \<Rightarrow> ret ()
     | Inr vms \<Rightarrow> forEach vms (\<lambda>vm.
         if vmState vm \<noteq> ''stopped'' then ret () else ignoring (ArchiveStoppedVM cfg (vmUUID vm) now)))"

definition ColdStorageMonitor_Run :: "Config \<Rightarrow> int list \<Rightarrow> ('z mgr_scheme, unit) prog" where
  "ColdStorageMonitor_Run cfg ticks =
     (if \<not> coldStorageEnabled cfg then ret () else forEach ticks (ColdStorageMonitor_check cfg))"

section \<open>Where the disks are\<close>

definition hotPath :: "Config \<Rightarrow> string \<Rightarrow> string" where
  "hotPath cfg n = diskPath (layoutOf cfg n)"

definition diskContent :: "Config \<Rightarrow> 'z store_scheme \<Rightarrow> string \<Rightarrow> node option" where
  "diskContent cfg s u = (case find (\<lambda>r. cUuid r = u) (vmsT s) of
      None \<Rightarrow> None
    | Some r \<Rightarrow> (case look s (hotPath cfg (cName r)) of
          Some n \<Rightarrow> Some n
        | None \<Rightarrow> (let cold = (if cArchivedDiskPath r \<noteq> [] then cArchivedDiskPath r else coldDiskPath cfg (cName r)) in
            if cold = [] then None else look s cold)))"

text \<open>
  The two directories are absolute, different, and neither lies inside the machine directories of
  the other.
\<close>

definition separateDirs :: "Config \<Rightarrow> bool" where
  "separateDirs cfg \<longleftrightarrow> (let S = cfgStateDir cfg; C = coldDir (cfgColdStorage cfg) in
     isAbs S \<and> (C = [] \<or> isAbs C \<and> elems C \<noteq> elems S \<and>
       \<not> prefix (elems S @ [''vms'']) (elems C) \<and> \<not> prefix (elems C @ [''vms'']) (elems S)))"

definition archivePathsOK :: "Config \<Rightarrow> 'z store_scheme \<Rightarrow> bool" where
  "archivePathsOK cfg s \<longleftrightarrow> (\<forall>r \<in> set (vmsT s). plainElem (cName r) \<and>
     (cArchivedDiskPath r = [] \<or> cArchivedDiskPath r = coldDiskPath cfg (cName r)))"

section \<open>Paths\<close>

lemma plain_names [simp]: "plainElem ''vms''" "plainElem ''rootfs.ext4''" "plainElem ''run''" "plainElem ''sleep''"
  "plainElem ''vmstate''" "plainElem ''memory''" "plainElem ''snapshots''"
  "plainElem ''firecracker.json''" "plainElem ''firecracker.sock''" "plainElem ''stdout.log''" "plainElem ''stderr.log''"
  by (simp_all add: plainElem_def)

lemma separate_prefix:
  assumes "S \<noteq> C" and "\<not> prefix (S @ [v]) C" and "\<not> prefix (C @ [v]) S"
  shows "\<not> prefix (S @ v # xs) (C @ v # ys)"
proof
  assume p: "prefix (S @ v # xs) (C @ v # ys)"
  have s: "prefix (S @ [v]) (C @ v # ys)" using p by (rule prefix_order.trans [rotated]) simp
  have c: "prefix (C @ [v]) (C @ v # ys)" by simp
  consider "length S < length C" | "length C < length S" | "length S = length C" by linarith
  then show False
  proof cases
    case 1
    have "prefix (S @ [v]) C" by (rule prefix_length_prefix [OF s]) (use 1 in auto)
    with assms show False by blast
  next
    case 2
    have "prefix S (C @ v # ys)" using s by (meson prefixI prefix_order.trans)
    then have "prefix (C @ [v]) S" using 2 c by (intro prefix_length_prefix [OF c]) auto
    with assms show False by blast
  next
    case 3
    with p assms(1) show False by (auto simp: prefix_def)
  qed
qed

text \<open>Paths below the machine directory of one of the two trees.\<close>

definition roots :: "Config \<Rightarrow> string list set" where
  "roots cfg = {elems (cfgStateDir cfg)} \<union>
     (if coldDir (cfgColdStorage cfg) = [] then {} else {elems (coldDir (cfgColdStorage cfg))})"

definition tree :: "string list \<Rightarrow> string list \<Rightarrow> string" where
  "tree D xs = rendered (D @ ''vms'' # xs)"

lemma roots_plain: "separateDirs cfg \<Longrightarrow> D \<in> roots cfg \<Longrightarrow> plainElems D"
  by (auto simp: roots_def separateDirs_def Let_def elems_plain split: if_splits)

lemma tree_below:
  assumes "separateDirs cfg" "D \<in> roots cfg" "D' \<in> roots cfg" "plainElems xs" "plainElems ys"
  shows "below (tree D xs) (tree D' ys) \<longleftrightarrow> D = D' \<and> prefix xs ys"
proof -
  have "below (tree D xs) (tree D' ys) \<longleftrightarrow> prefix (D @ ''vms'' # xs) (D' @ ''vms'' # ys)"
    using assms roots_plain [OF assms(1)] unfolding tree_def by (intro below_rendered) auto
  also have "\<dots> \<longleftrightarrow> D = D' \<and> prefix xs ys"
  proof (cases "D = D'")
    case False
    let ?S = "elems (cfgStateDir cfg)" and ?C = "elems (coldDir (cfgColdStorage cfg))"
    from False assms(2,3) have "coldDir (cfgColdStorage cfg) \<noteq> []" and o: "D = ?S \<and> D' = ?C \<or> D = ?C \<and> D' = ?S"
      by (auto simp: roots_def split: if_splits)
    with assms(1) have "\<not> prefix (?S @ [''vms'']) ?C \<and> \<not> prefix (?C @ [''vms'']) ?S"
      by (simp add: separateDirs_def Let_def)
    with o have "\<not> prefix (D @ [''vms'']) D'" "\<not> prefix (D' @ [''vms'']) D" by metis+
    with False have "\<not> prefix (D @ ''vms'' # xs) (D' @ ''vms'' # ys)" by (rule separate_prefix)
    with False show ?thesis by simp
  qed simp
  finally show ?thesis .
qed

lemma tree_eq:
  assumes "separateDirs cfg" "D \<in> roots cfg" "D' \<in> roots cfg" "plainElems xs" "plainElems ys"
  shows "tree D xs = tree D' ys \<longleftrightarrow> D = D' \<and> xs = ys"
  using tree_below [OF assms] tree_below [OF assms(1,3,2,5,4)] by (metis below_refl prefix_order.antisym)

definition hotRoot :: "Config \<Rightarrow> string list" where
  "hotRoot cfg = elems (cfgStateDir cfg)"

definition coldRoot :: "Config \<Rightarrow> string list" where
  "coldRoot cfg = elems (coldDir (cfgColdStorage cfg))"

lemma roots_in [simp]: "hotRoot cfg \<in> roots cfg" "coldDir (cfgColdStorage cfg) \<noteq> [] \<Longrightarrow> coldRoot cfg \<in> roots cfg"
  by (simp_all add: hotRoot_def coldRoot_def roots_def)

lemma roots_distinct: "separateDirs cfg \<Longrightarrow> coldDir (cfgColdStorage cfg) \<noteq> [] \<Longrightarrow> coldRoot cfg \<noteq> hotRoot cfg"
  by (auto simp: separateDirs_def Let_def hotRoot_def coldRoot_def)

lemma hot_tree:
  assumes "separateDirs cfg" "plainElem n"
  shows "vmDir (layoutOf cfg n) = tree (hotRoot cfg) [n]" "hotPath cfg n = tree (hotRoot cfg) [n, ''rootfs.ext4'']"
  using assms
  by (simp_all add: separateDirs_def Let_def hotPath_def layoutOf_def tree_def hotRoot_def pathJoin_rendered elems_plain)

lemma cold_tree:
  assumes "separateDirs cfg" "plainElem n" "coldDir (cfgColdStorage cfg) \<noteq> []"
  shows "coldVMDir cfg n = tree (coldRoot cfg) [n]" "coldDiskPath cfg n = tree (coldRoot cfg) [n, ''rootfs.ext4'']"
    "pathDir (coldDiskPath cfg n) = coldVMDir cfg n"
proof -
  have C: "isAbs (coldDir (cfgColdStorage cfg))" using assms by (simp add: separateDirs_def Let_def)
  then show d: "coldVMDir cfg n = tree (coldRoot cfg) [n]"
    using assms by (simp add: coldVMDir_def tree_def coldRoot_def pathJoin_rendered)
  with C assms show p: "coldDiskPath cfg n = tree (coldRoot cfg) [n, ''rootfs.ext4'']"
    by (simp add: coldDiskPath_def Let_def tree_def coldRoot_def pathJoin_rendered elems_plain)
  show "pathDir (coldDiskPath cfg n) = coldVMDir cfg n"
    using pathDir_rendered [of "coldRoot cfg @ [''vms'', n]" "''rootfs.ext4''"] C assms
    by (simp add: p d tree_def coldRoot_def elems_plain)
qed

definition diskPaths :: "Config \<Rightarrow> string set" where
  "diskPaths cfg = {tree D [n, ''rootfs.ext4''] | D n. D \<in> roots cfg \<and> plainElem n}"

lemma disk_in [simp]: "D \<in> roots cfg \<Longrightarrow> plainElem n \<Longrightarrow> tree D [n, ''rootfs.ext4''] \<in> diskPaths cfg"
  unfolding diskPaths_def by blast

lemma plain_temp: "plainElem (''rootfs.ext4.'' @ natDec k @ ''.tmp'')" "plainElem (''rootfs.ext4.'' @ natDec k @ ''.restore.tmp'')"
  using natDec_digits [of "CHR ''/''" k] by (auto simp: plainElem_def)

lemma temp_tree: "tempPath (tree D [n]) pre suf k = tree D [n, pre @ natDec k @ suf]"
  using rendered_snoc [of "D @ [''vms'', n]" "pre @ natDec k @ suf"] by (simp add: tempPath_def tree_def)

text \<open>
  Nothing on the way to a machine directory is a disk, nothing at or below a temporary file is, and
  only the disk itself is at or below a disk.
\<close>

lemma disk_not_above:
  assumes "separateDirs cfg" "D \<in> roots cfg" "plainElem n" "q \<in> diskPaths cfg"
  shows "\<not> below q (tree D [n])"
  using assms by (auto simp: diskPaths_def tree_below)

lemma disk_not_temp:
  assumes "separateDirs cfg" "D \<in> roots cfg" "plainElem n" "plainElem t" "t \<noteq> ''rootfs.ext4''" "q \<in> diskPaths cfg"
  shows "\<not> below (tree D [n, t]) q"
  using assms by (auto simp: diskPaths_def tree_below)

lemma disk_below_disk:
  assumes "separateDirs cfg" "p \<in> diskPaths cfg" "q \<in> diskPaths cfg" "below p q"
  shows "q = p"
  using assms by (auto simp: diskPaths_def tree_below)

section \<open>Disks are kept\<close>

text \<open>What a machine of a given name finds in a table of files.\<close>

definition nameContent :: "Config \<Rightarrow> (string \<times> node) list \<Rightarrow> string \<Rightarrow> node option" where
  "nameContent cfg fs n = (case map_of fs (hotPath cfg n) of
      Some x \<Rightarrow> Some x
    | None \<Rightarrow> if coldDir (cfgColdStorage cfg) = [] then None else map_of fs (coldDiskPath cfg n))"

definition disksAre :: "Config \<Rightarrow> (string \<times> string) list \<Rightarrow> (string \<Rightarrow> node option) \<Rightarrow> 'z store_scheme \<Rightarrow> bool" where
  "disksAre cfg keys N s \<longleftrightarrow> map (\<lambda>r. (cUuid r, cName r)) (vmsT s) = keys \<and> archivePathsOK cfg s \<and>
     (\<forall>n. plainElem n \<longrightarrow> nameContent cfg (files s) n = N n)"

lemma coldDiskPath_empty:
  "separateDirs cfg \<Longrightarrow> plainElem n \<Longrightarrow> coldDiskPath cfg n = [] \<longleftrightarrow> coldDir (cfgColdStorage cfg) = []"
  using cold_tree(2) [of cfg n] by (auto simp: coldDiskPath_def coldVMDir_def tree_def)

lemma find_key: "find (\<lambda>r. cUuid r = u) rows = Some r \<Longrightarrow> r \<in> set rows \<and> cUuid r = u"
  by (metis (mono_tags, lifting) find_Some_iff nth_mem)

lemma diskContent_name:
  assumes "separateDirs cfg" "archivePathsOK cfg s"
  shows "diskContent cfg s u = Option.bind (map_of (map (\<lambda>r. (cUuid r, cName r)) (vmsT s)) u) (nameContent cfg (files s))"
proof -
  have m: "map_of (map (\<lambda>r. (cUuid r, cName r)) rows) u = map_option cName (find (\<lambda>r. cUuid r = u) rows)" for rows
    by (induction rows) auto
  show ?thesis
  proof (cases "find (\<lambda>r. cUuid r = u) (vmsT s)")
    case (Some r)
    then have "plainElem (cName r)" "cArchivedDiskPath r = [] \<or> cArchivedDiskPath r = coldDiskPath cfg (cName r)"
      using find_key [OF Some] assms(2) by (auto simp: archivePathsOK_def)
    with Some show ?thesis
      using coldDiskPath_empty [OF assms(1)]
      by (auto simp: m diskContent_def nameContent_def Let_def split: option.splits)
  qed (simp add: m diskContent_def)
qed

lemma disksAre_content:
  assumes "separateDirs cfg" "disksAre cfg keys N s" "disksAre cfg keys N t"
  shows "diskContent cfg s = diskContent cfg t"
proof
  fix u
  have "archivePathsOK cfg s" "archivePathsOK cfg t" and k: "map (\<lambda>r. (cUuid r, cName r)) (vmsT t) = keys"
    "map (\<lambda>r. (cUuid r, cName r)) (vmsT s) = keys"
    using assms by (auto simp: disksAre_def)
  moreover have "nameContent cfg (files s) n = nameContent cfg (files t) n" if "(u, n) \<in> set keys" for n
  proof -
    from that have "plainElem n" using k(1) assms(3) by (auto simp: disksAre_def archivePathsOK_def)
    then show ?thesis using assms by (simp add: disksAre_def)
  qed
  ultimately show "diskContent cfg s u = diskContent cfg t u"
    using assms(1) by (auto simp: diskContent_name dest: map_of_SomeD split: Option.bind_splits)
qed

lemma disksAre_frame [simp]:
  "disksAre cfg keys N (s\<lparr>outcomes := rs\<rparr>) = disksAre cfg keys N s"
  "disksAre cfg keys N ((t :: 'z mgr_scheme)\<lparr>vmOps := ops\<rparr>) = disksAre cfg keys N t"
  "disksAre cfg keys N (t\<lparr>coldArchives := as\<rparr>) = disksAre cfg keys N t"
  by (simp_all add: disksAre_def archivePathsOK_def)

text \<open>Changes that do not touch a disk.\<close>

lemma nameContent_cong:
  assumes "separateDirs cfg" "\<And>q. q \<in> diskPaths cfg \<Longrightarrow> map_of fs q = map_of gs q" "plainElem n"
  shows "nameContent cfg fs n = nameContent cfg gs n"
proof -
  have "hotPath cfg n \<in> diskPaths cfg" "coldDir (cfgColdStorage cfg) \<noteq> [] \<Longrightarrow> coldDiskPath cfg n \<in> diskPaths cfg"
    using assms(1,3) by (simp_all add: hot_tree cold_tree)
  with assms(2) show ?thesis by (auto simp: nameContent_def split: option.splits)
qed

lemma disksAre_files:
  assumes "separateDirs cfg" "disksAre cfg keys N s" "\<And>q. q \<in> diskPaths cfg \<Longrightarrow> map_of fs q = look s q"
  shows "disksAre cfg keys N (s\<lparr>outcomes := rs, files := fs\<rparr>)"
  using assms nameContent_cong [OF assms(1,3)] by (simp add: disksAre_def archivePathsOK_def)

lemma disksAre_archived:
  assumes "disksAre cfg keys N s" "\<And>r. r \<in> set (vmsT s) \<Longrightarrow> cUuid r = u \<Longrightarrow> p = [] \<or> p = coldDiskPath cfg (cName r)"
  shows "disksAre cfg keys N (s\<lparr>outcomes := rs, vmsT := map (\<lambda>r. if cUuid r = u then r\<lparr>cArchivedDiskPath := p\<rparr> else r) (vmsT s)\<rparr>)"
proof -
  let ?rows = "map (\<lambda>r. if cUuid r = u then r\<lparr>cArchivedDiskPath := p\<rparr> else r) (vmsT s)"
  have "map (\<lambda>r. (cUuid r, cName r)) ?rows = map (\<lambda>r. (cUuid r, cName r)) (vmsT s)" by simp
  moreover have "\<forall>r \<in> set (vmsT s). cUuid r = u \<longrightarrow> p = [] \<or> p = coldDiskPath cfg (cName r)" using assms(2) by blast
  ultimately show ?thesis using assms(1) unfolding disksAre_def archivePathsOK_def by fastforce
qed

text \<open>The state of an archive run: the disks are kept and the hot disk is there.\<close>

definition hotIs :: "Config \<Rightarrow> (string \<times> string) list \<Rightarrow> (string \<Rightarrow> node option) \<Rightarrow> string \<Rightarrow> node \<Rightarrow> 'z store_scheme \<Rightarrow> bool" where
  "hotIs cfg keys N n x s \<longleftrightarrow> disksAre cfg keys N s \<and> look s (hotPath cfg n) = Some x"

lemma hotIs_files:
  assumes "separateDirs cfg" "plainElem n" "hotIs cfg keys N n x s" "\<And>q. q \<in> diskPaths cfg \<Longrightarrow> map_of fs q = look s q"
  shows "hotIs cfg keys N n x (s\<lparr>outcomes := rs, files := fs\<rparr>)"
proof -
  have "hotPath cfg n \<in> diskPaths cfg" using assms(1,2) by (simp add: hot_tree)
  then show ?thesis using assms disksAre_files [OF assms(1) _ assms(4)] by (simp add: hotIs_def)
qed

lemma hotIs_outcomes [simp]: "hotIs cfg keys N n x (s\<lparr>outcomes := rs\<rparr>) = hotIs cfg keys N n x s"
  by (simp add: hotIs_def)

text \<open>Assertions that look at the disks only.\<close>

definition diskOnly :: "Config \<Rightarrow> ('z store_scheme \<Rightarrow> bool) \<Rightarrow> bool" where
  "diskOnly cfg I \<longleftrightarrow> (\<forall>s rs fs. I s \<longrightarrow> (\<forall>q \<in> diskPaths cfg. map_of fs q = look s q) \<longrightarrow> I (s\<lparr>outcomes := rs, files := fs\<rparr>))"

lemma diskOnlyD:
  "diskOnly cfg I \<Longrightarrow> I s \<Longrightarrow> (\<And>q. q \<in> diskPaths cfg \<Longrightarrow> map_of fs q = look s q) \<Longrightarrow> I (s\<lparr>outcomes := rs, files := fs\<rparr>)"
  by (auto simp: diskOnly_def)

lemma diskOnly_outcomes: "diskOnly cfg I \<Longrightarrow> I s \<Longrightarrow> I (s\<lparr>outcomes := rs\<rparr>)"
  using diskOnlyD [of cfg I s "files s" rs] by simp

lemma diskOnly_hot: "separateDirs cfg \<Longrightarrow> plainElem n \<Longrightarrow> diskOnly cfg (hotIs cfg keys N n x)"
  by (auto simp: diskOnly_def intro: hotIs_files)

lemma mkdir_keeps_disks:
  assumes "separateDirs cfg" "diskOnly cfg I" "plainElem m" "D \<in> roots cfg" "I s"
  shows "wp (osMkdirAll (tree D [m])) (\<lambda>_. I) (\<lambda>_. I) s"
proof (rule wp_osMkdirAll)
  fix rs
  have "q \<notin> set (ancestors (tree D [m]))" if "q \<in> diskPaths cfg" for q
    using disk_not_above [OF assms(1,4,3) that] ancestors_below by blast
  then show "I (s\<lparr>outcomes := rs, files := mkdirs (ancestors (tree D [m])) (files s)\<rparr>)"
    by (intro diskOnlyD [OF assms(2,5)]) (auto simp: map_of_mkdirs split: option.splits)
qed (use assms diskOnly_outcomes in blast)

lemma temp_not_disk:
  assumes "separateDirs cfg" "D \<in> roots cfg" "plainElem n" "plainElem t" "t \<noteq> ''rootfs.ext4''"
  shows "tree D [n, t] \<notin> diskPaths cfg"
  using disk_not_temp [OF assms] by (metis below_refl)

lemma temp_keeps_disks:
  assumes "separateDirs cfg" "diskOnly cfg I" "plainElem m" "D \<in> roots cfg" "I s"
    and t: "\<And>k. plainElem (pre @ natDec k @ suf) \<and> pre @ natDec k @ suf \<noteq> ''rootfs.ext4''"
  shows "wp (osTemp (File []) (tree D [m]) pre suf)
    (\<lambda>p s. I s \<and> (\<exists>k. p = tree D [m, pre @ natDec k @ suf])) (\<lambda>_. I) s"
proof (rule wp_osTemp)
  fix rs p k assume p: "p = tempPath (tree D [m]) pre suf k"
  then have p': "p = tree D [m, pre @ natDec k @ suf]" by (simp add: temp_tree)
  then have "p \<notin> diskPaths cfg" using temp_not_disk [OF assms(1,4,3)] t by metis
  then show "I (s\<lparr>outcomes := rs, files := put p (File []) (files s)\<rparr>) \<and> (\<exists>k. p = tree D [m, pre @ natDec k @ suf])"
    using p' by (auto intro!: diskOnlyD [OF assms(2,5)])
qed (use assms diskOnly_outcomes in blast)

lemma copy_keeps_disks:
  assumes "separateDirs cfg" "diskOnly cfg I" "I s" "p \<notin> diskPaths cfg" "q \<in> diskPaths cfg" "look s q = Some x"
  shows "wp (copyRegularFile p q) (\<lambda>_ t. I t \<and> look t p = Some x) (\<lambda>_. I) s"
proof (rule wp_copyRegularFile)
  show "p \<noteq> q" using assms by blast
  fix rs fs b assume b: "look s q = Some (File b)" and fs: "map_of fs = (look s)(p \<mapsto> File b)"
  then have "I (s\<lparr>outcomes := rs, files := fs\<rparr>)" using assms by (intro diskOnlyD [OF assms(2,3)]) auto
  then show "I (s\<lparr>outcomes := rs, files := fs\<rparr>) \<and> look (s\<lparr>outcomes := rs, files := fs\<rparr>) p = Some x"
    using fs b assms(6) by simp
next
  fix e rs fs assume "\<And>q. q \<noteq> p \<Longrightarrow> map_of fs q = look s q"
  then show "I (s\<lparr>outcomes := rs, files := fs\<rparr>)"
    using assms(4) by (intro diskOnlyD [OF assms(2,3)]) metis
qed

lemma wp_removeIfExists:
  assumes "\<And>rs. Q () (s\<lparr>outcomes := rs, files := del (\<lambda>q. q = p) (files s)\<rparr>)"
    and "\<And>rs. look s p = None \<Longrightarrow> Q () (s\<lparr>outcomes := rs\<rparr>)" and "\<And>e rs. E e (s\<lparr>outcomes := rs\<rparr>)"
  shows "wp (removeIfExists p) Q E s"
  unfolding removeIfExists_def wp_bind wp_attempt
  by (rule wp_osRemove) (auto simp: wp_rules intro: assms)

text \<open>While the hot disk is there, the cold disk of the same machine is free to change.\<close>

lemma hotIs_shadow:
  assumes sep: "separateDirs cfg" and n: "plainElem n" and h: "hotIs cfg keys N n x s"
    and fs: "\<And>q. q \<in> diskPaths cfg \<Longrightarrow> q \<noteq> coldDiskPath cfg n \<Longrightarrow> map_of fs q = look s q"
    and C: "coldDir (cfgColdStorage cfg) \<noteq> []"
  shows "hotIs cfg keys N n x (s\<lparr>outcomes := rs, files := fs\<rparr>)"
proof -
  have cold: "coldDiskPath cfg n = tree (coldRoot cfg) [n, ''rootfs.ext4'']" using sep n C by (rule cold_tree(2))
  have hot: "map_of fs (hotPath cfg m) = look s (hotPath cfg m)" if "plainElem m" for m
    using fs [of "hotPath cfg m"] that sep n C roots_distinct [OF sep C]
    by (simp add: hot_tree cold tree_eq [OF sep])
  have "nameContent cfg fs m = nameContent cfg (files s) m" if m: "plainElem m" for m
  proof (cases "m = n")
    case True
    then show ?thesis using hot [OF m] h by (simp add: nameContent_def hotIs_def)
  next
    case False
    then have "map_of fs (coldDiskPath cfg m) = look s (coldDiskPath cfg m)"
      using fs [of "coldDiskPath cfg m"] m sep n C by (simp add: cold_tree cold tree_eq [OF sep])
    then show ?thesis using hot [OF m] by (simp add: nameContent_def split: option.splits)
  qed
  then show ?thesis using h hot [OF n] by (simp add: hotIs_def disksAre_def archivePathsOK_def)
qed

text \<open>Once the cold disk has the same content, the hot disk may go.\<close>

lemma hot_may_go:
  assumes sep: "separateDirs cfg" and n: "plainElem n" and h: "hotIs cfg keys N n x s"
    and C: "coldDir (cfgColdStorage cfg) \<noteq> []" and same: "look s (coldDiskPath cfg n) = Some x"
  shows "disksAre cfg keys N (s\<lparr>outcomes := rs, files := del (\<lambda>q. q = hotPath cfg n) (files s)\<rparr>)"
proof -
  have "nameContent cfg (del (\<lambda>q. q = hotPath cfg n) (files s)) m = nameContent cfg (files s) m" if m: "plainElem m" for m
    using m n sep C roots_distinct [OF sep C] h same
    by (auto simp: nameContent_def hotIs_def hot_tree cold_tree tree_eq [OF sep] split: option.splits)
  then show ?thesis using h by (simp add: hotIs_def disksAre_def archivePathsOK_def)
qed

lemma disksAre_remove_temp:
  assumes "separateDirs cfg" "disksAre cfg keys N s" "p \<notin> diskPaths cfg"
  shows "wp (osRemove p) (\<lambda>_. disksAre cfg keys N) (\<lambda>_. disksAre cfg keys N) s"
  by (rule wp_osRemove) (use assms in \<open>auto intro!: disksAre_files\<close>)

lemma publish_keeps_hot:
  assumes sep: "separateDirs cfg" and n: "plainElem n" and C: "coldDir (cfgColdStorage cfg) \<noteq> []"
    and t: "plainElem t" "t \<noteq> ''rootfs.ext4''" and p: "p = tree (coldRoot cfg) [n, t]"
    and h: "hotIs cfg keys N n x s" "look s p = Some x"
  shows "wp (bind (removeIfExists (coldDiskPath cfg n)) (\<lambda>_. osRename p (coldDiskPath cfg n)))
    (\<lambda>_ s. hotIs cfg keys N n x s \<and> look s (coldDiskPath cfg n) = Some x) (\<lambda>_. hotIs cfg keys N n x) s"
    (is "wp _ ?Q ?E s")
proof -
  have pd: "p \<notin> diskPaths cfg" using temp_not_disk [OF sep _ n t] C p by simp
  have cd: "coldDiskPath cfg n \<in> diskPaths cfg" using sep n C by (simp add: cold_tree)
  have under: "\<not> below p q" if "q \<in> diskPaths cfg" for q using disk_not_temp [OF sep _ n t that] C p by simp
  have rename: "wp (osRename p (coldDiskPath cfg n)) ?Q ?E s'"
    if s': "hotIs cfg keys N n x s'" "look s' p = Some x" for s'
  proof (rule wp_osRename)
    fix rs m
    have "map_of (moveTree p (coldDiskPath cfg n) (files s')) q = look s' q" if "q \<in> diskPaths cfg" "q \<noteq> coldDiskPath cfg n" for q
      using that under [OF that(1)] disk_below_disk [OF sep cd that(1)] by (auto simp: map_of_moveTree)
    with s'(1) show "?Q () (s'\<lparr>outcomes := rs, files := moveTree p (coldDiskPath cfg n) (files s')\<rparr>)"
      using sep n C s'(2) by (auto intro!: hotIs_shadow simp: map_of_moveTree)
  qed (use s' cd pd in auto)
  show ?thesis
    unfolding wp_bind
  proof (rule wp_removeIfExists)
    fix rs
    show "wp (osRename p (coldDiskPath cfg n)) ?Q ?E (s\<lparr>outcomes := rs, files := del (\<lambda>q. q = coldDiskPath cfg n) (files s)\<rparr>)"
      using sep n C h cd pd by (intro rename hotIs_shadow) auto
    show "wp (osRename p (coldDiskPath cfg n)) ?Q ?E (s\<lparr>outcomes := rs\<rparr>)"
      using h by (intro rename) auto
  qed (use h in simp)
qed

lemma coldPath_join: "coldDir (cfgColdStorage cfg) \<noteq> [] \<Longrightarrow> separateDirs cfg \<Longrightarrow> plainElem n \<Longrightarrow>
    pathJoin [coldVMDir cfg n, ''rootfs.ext4''] = coldDiskPath cfg n"
  by (simp add: coldDiskPath_def Let_def cold_tree tree_def)

lemma moveToCold_keeps:
  assumes sep: "separateDirs cfg" and n: "plainElem (vmName vm)" and C: "coldDir (cfgColdStorage cfg) \<noteq> []"
    and t: "plainElem t" "t \<noteq> ''rootfs.ext4''" and p: "p = tree (coldRoot cfg) [vmName vm, t]"
    and names: "\<And>r. (vmUUID vm, r) \<in> set keys \<Longrightarrow> r = vmName vm"
    and h: "hotIs cfg keys N (vmName vm) x s"
  shows "wp (moveToCold cfg vm p) (\<lambda>_. disksAre cfg keys N) (\<lambda>_. disksAre cfg keys N) s"
proof -
  let ?n = "vmName vm" and ?hot = "hotIs cfg keys N (vmName vm) x"
  have pd: "p \<notin> diskPaths cfg" using temp_not_disk [OF sep _ n t] C p by simp
  have weaken: "?hot t \<Longrightarrow> disksAre cfg keys N t" for t by (simp add: hotIs_def)
  have rm: "wp (osRemove (hotPath cfg ?n)) (\<lambda>_. disksAre cfg keys N) (\<lambda>_. disksAre cfg keys N) t"
    if "?hot t" "look t (coldDiskPath cfg ?n) = Some x" for t
    by (rule wp_osRemove) (auto intro!: hot_may_go [OF sep n that(1) C that(2)] simp: weaken that)
  have arch: "wp (bind (SetVMArchivedDiskPath (vmUUID vm) (coldDiskPath cfg ?n)) (\<lambda>_. osRemove (hotPath cfg ?n)))
      (\<lambda>_. disksAre cfg keys N) (\<lambda>_. disksAre cfg keys N) t"
    if t: "?hot t" "look t (coldDiskPath cfg ?n) = Some x" for t
  proof -
    have "cName r = ?n" if "r \<in> set (vmsT t)" "cUuid r = vmUUID vm" for r
      using that t(1) by (intro names) (force simp: hotIs_def disksAre_def)
    then have d: "disksAre cfg keys N (t\<lparr>outcomes := rs, vmsT :=
        map (\<lambda>r. if cUuid r = vmUUID vm then r\<lparr>cArchivedDiskPath := coldDiskPath cfg ?n\<rparr> else r) (vmsT t)\<rparr>)" for rs
      using weaken [OF t(1)] by (intro disksAre_archived) auto
    show ?thesis unfolding SetVMArchivedDiskPath_def wp_bind
    proof (rule wp_updateVMRow)
      fix rs'
      let ?t = "t\<lparr>outcomes := rs', vmsT := map (\<lambda>r. if cUuid r = vmUUID vm then r\<lparr>cArchivedDiskPath := coldDiskPath cfg ?n\<rparr> else r) (vmsT t)\<rparr>"
      show "wp (osRemove (hotPath cfg ?n)) (\<lambda>_. disksAre cfg keys N) (\<lambda>_. disksAre cfg keys N) ?t"
        by (rule rm) (use d t in \<open>simp_all add: hotIs_def\<close>)
    qed (use d weaken [OF t(1)] in simp_all)
  qed
  have hd: "hotPath cfg ?n \<in> diskPaths cfg" "look s (hotPath cfg ?n) = Some x"
    using sep n h by (simp_all add: hot_tree hotIs_def)
  show ?thesis
    unfolding moveToCold_def Let_def coldPath_join [OF C sep n] hotPath_def [symmetric]
    by (rule wp_seq [OF copy_keeps_disks [OF sep diskOnly_hot [OF sep n] h pd hd]];
        (rule wp_seq [where P = "\<lambda>_ t. ?hot t \<and> look t p = Some x" and E' = "\<lambda>_. ?hot"])?;
        (rule wp_seq2 [OF publish_keeps_hot [OF sep n C t p]])?)
      (auto intro!: wp_ctxCheck_frame arch simp: weaken)
qed

lemma keys_unique: "distinct (map fst keys) \<Longrightarrow> (u, m) \<in> set keys \<Longrightarrow> (u, m') \<in> set keys \<Longrightarrow> m = m'"
  by (metis map_of_is_SomeI option.inject)

lemma found_vm:
  assumes "disksAre cfg keys N s" "find (\<lambda>r. cUuid r = u) (vmsT s) = Some r"
  shows "plainElem (cName r)" "(u, cName r) \<in> set keys" "cUuid r = u"
    "cArchivedDiskPath r = [] \<or> cArchivedDiskPath r = coldDiskPath cfg (cName r)"
  using assms find_key [OF assms(2)] by (force simp: disksAre_def archivePathsOK_def)+

lemma ops_keep_disks [keeps_rules]:
  "keeps (disksAre cfg keys N) (beginColdArchiveOperation u)" "keeps (disksAre cfg keys N) (endColdArchiveOperation u)"
  unfolding beginColdArchiveOperation_def endColdArchiveOperation_def
  by (intro keeps_rules keeps_modify; simp add: outcome_blind_def)+

lemma archiveDisk_keeps:
  assumes sep: "separateDirs cfg" and keys: "distinct (map fst keys)" and C: "coldDir (cfgColdStorage cfg) \<noteq> []"
    and n: "plainElem (vmName vm)" and u: "(vmUUID vm, vmName vm) \<in> set keys" and K: "disksAre cfg keys N s"
  shows "wp (archiveDisk cfg vm) (\<lambda>_. disksAre cfg keys N) (\<lambda>_. disksAre cfg keys N) s"
proof -
  let ?K = "disksAre cfg keys N" and ?n = "vmName vm" and ?t = "\<lambda>k. ''rootfs.ext4.'' @ natDec k @ ''.tmp''"
  have tmp: "plainElem (?t k) \<and> ?t k \<noteq> ''rootfs.ext4''" for k using plain_temp by simp
  have move: "wp (bind call (\<lambda>_. deferring (osRemove p) (moveToCold cfg vm p))) (\<lambda>_. ?K) (\<lambda>_. ?K) t"
    if h: "hotIs cfg keys N ?n x t" and p: "p = tree (coldRoot cfg) [?n, ?t k]" for p t k x
  proof -
    have "wp (deferring (osRemove p) (moveToCold cfg vm p)) (\<lambda>_. ?K) (\<lambda>_. ?K) (t\<lparr>outcomes := rs\<rparr>)" for rs
    proof (rule wp_defer)
      show "wp (moveToCold cfg vm p) (\<lambda>_. ?K) (\<lambda>_. ?K) (t\<lparr>outcomes := rs\<rparr>)"
        using h p tmp keys_unique [OF keys _ u] by (intro moveToCold_keeps [OF sep n C]) auto
      have "p \<notin> diskPaths cfg" using temp_not_disk [OF sep roots_in(2) [OF C] n] tmp p by metis
      then show "?K t' \<Longrightarrow> wp (osRemove p) (\<lambda>_. ?K) (\<lambda>_. ?K) t'" for t'
        by (intro disksAre_remove_temp [OF sep])
      then show "?K t' \<Longrightarrow> wp (osRemove p) (\<lambda>_. ?K) (\<lambda>_. ?K) t'" for t' .
    qed
    with h show ?thesis unfolding wp_bind by (auto intro!: wp_call_frame simp: hotIs_def)
  qed
  have disk: "wp (bind (osMkdirAll (tree (coldRoot cfg) [?n])) (\<lambda>_.
      bind (osTemp (File []) (tree (coldRoot cfg) [?n]) ''rootfs.ext4.'' ''.tmp'') (\<lambda>p.
      bind call (\<lambda>_. deferring (osRemove p) (moveToCold cfg vm p))))) (\<lambda>_. ?K) (\<lambda>_. ?K) t"
    if h: "hotIs cfg keys N ?n x t" for t x
    by (rule wp_seq [OF mkdir_keeps_disks [OF sep diskOnly_hot [OF sep n] n roots_in(2) [OF C] h]];
        (rule wp_seq [OF temp_keeps_disks [OF sep diskOnly_hot [OF sep n] n roots_in(2) [OF C] _ tmp]])?)
      (auto intro!: move simp: hotIs_def)
  show ?thesis
    unfolding archiveDisk_def wp_bind [of "attempt m" for m] wp_attempt cold_tree(1) [OF sep n C]
    by (rule wp_osStat) (use K in \<open>auto simp: wp_ret wp_throw wp_if hotIs_def hotPath_def intro!: disk\<close>)
qed

lemma ArchiveStoppedVM_keeps [keeps_rules]:
  assumes sep: "separateDirs cfg" and keys: "distinct (map fst keys)"
  shows "keeps (disksAre cfg keys N) (ArchiveStoppedVM cfg u now)"
proof (cases "coldStorageEnabled cfg")
  case True
  then have C: "coldDir (cfgColdStorage cfg) \<noteq> []" by (simp add: coldStorageEnabled_def)
  let ?K = "disksAre cfg keys N"
  have body: "wp (bind (GetVM u) (\<lambda>vm. if \<not> shouldArchiveStoppedVM cfg vm now then ret () else
      bind (gets (\<lambda>s. isRunning s (vmUUID vm))) (\<lambda>r. if r then ret () else archiveDisk cfg vm)))
      (\<lambda>_. ?K) (\<lambda>_. ?K) s" if K: "?K s" for s
    unfolding wp_bind [of "GetVM m" for m]
  proof (rule wp_GetVM)
    fix rs r assume "find (\<lambda>r. cUuid r = u) (vmsT s) = Some r"
    note r = found_vm [OF K this]
    then have "wp (archiveDisk cfg (scanVM r)) (\<lambda>_. ?K) (\<lambda>_. ?K) (s\<lparr>outcomes := rs\<rparr>)"
      using K by (intro archiveDisk_keeps [OF sep keys C]) (simp_all add: scanVM_def)
    then show "wp (if \<not> shouldArchiveStoppedVM cfg (scanVM r) now then ret () else
        bind (gets (\<lambda>s. isRunning s (vmUUID (scanVM r)))) (\<lambda>b. if b then ret () else archiveDisk cfg (scanVM r)))
        (\<lambda>_. ?K) (\<lambda>_. ?K) (s\<lparr>outcomes := rs\<rparr>)"
      using K by (simp add: wp_rules)
  qed (use K in simp)
  from True show ?thesis unfolding ArchiveStoppedVM_def
    by (simp, intro keeps_bind keeps_deferring ops_keep_disks keeps_wpI body)
qed (simp add: ArchiveStoppedVM_def keeps_ret)

text \<open>The way back.\<close>

definition coldIs :: "Config \<Rightarrow> (string \<times> string) list \<Rightarrow> (string \<Rightarrow> node option) \<Rightarrow> string \<Rightarrow> node \<Rightarrow> 'z store_scheme \<Rightarrow> bool" where
  "coldIs cfg keys N n x s \<longleftrightarrow> disksAre cfg keys N s \<and> look s (hotPath cfg n) = None \<and> look s (coldDiskPath cfg n) = Some x"

lemma diskOnly_cold:
  assumes "separateDirs cfg" "plainElem n" "coldDir (cfgColdStorage cfg) \<noteq> []"
  shows "diskOnly cfg (coldIs cfg keys N n x)"
proof -
  have "hotPath cfg n \<in> diskPaths cfg" "coldDiskPath cfg n \<in> diskPaths cfg" using assms by (simp_all add: hot_tree cold_tree)
  then show ?thesis unfolding diskOnly_def coldIs_def by (auto intro!: disksAre_files [OF assms(1)])
qed

lemma remove_temp_keeps:
  assumes "diskOnly cfg I" "I s" "p \<notin> diskPaths cfg"
  shows "wp (osRemove p) (\<lambda>_. I) (\<lambda>_. I) s"
proof (rule wp_osRemove)
  show "I (s\<lparr>outcomes := rs, files := del (\<lambda>q. q = p) (files s)\<rparr>)" for rs
    using assms(3) by (intro diskOnlyD [OF assms(1,2)]) auto
qed (rule diskOnly_outcomes [OF assms(1,2)])

lemma wp_removeCold:
  assumes sep: "separateDirs cfg" and n: "plainElem n" and C: "coldDir (cfgColdStorage cfg) \<noteq> []" and h: "hotIs cfg keys N n x s"
  shows "wp (ignoring (osRemove (coldDiskPath cfg n))) (\<lambda>_. hotIs cfg keys N n x) (\<lambda>_. hotIs cfg keys N n x) s"
  unfolding wp_ignoring by (rule wp_osRemove) (use h in \<open>auto intro!: hotIs_shadow [OF sep n h _ C]\<close>)

lemma forget_archived:
  assumes "hotIs cfg keys N n x s"
  shows "wp (SetVMArchivedDiskPath u []) (\<lambda>_. hotIs cfg keys N n x) (\<lambda>_. disksAre cfg keys N) s"
proof -
  have d: "disksAre cfg keys N (s\<lparr>outcomes := rs, vmsT := map (\<lambda>r. if cUuid r = u then r\<lparr>cArchivedDiskPath := []\<rparr> else r) (vmsT s)\<rparr>)" for rs
    using assms by (intro disksAre_archived) (auto simp: hotIs_def)
  show ?thesis unfolding SetVMArchivedDiskPath_def
    by (rule wp_updateVMRow) (use assms d in \<open>simp_all add: hotIs_def\<close>)
qed

lemma moveToHot_keeps:
  assumes sep: "separateDirs cfg" and n: "plainElem (vmName vm)" and C: "coldDir (cfgColdStorage cfg) \<noteq> []"
    and t: "plainElem t" "t \<noteq> ''rootfs.ext4''" and p: "p = tree (hotRoot cfg) [vmName vm, t]"
    and h: "coldIs cfg keys N (vmName vm) x s"
  shows "wp (moveToHot cfg vm (coldDiskPath cfg (vmName vm)) p) (\<lambda>_. hotIs cfg keys N (vmName vm) x) (\<lambda>_. disksAre cfg keys N) s"
proof -
  let ?n = "vmName vm" and ?hot = "hotIs cfg keys N (vmName vm) x" and ?K = "disksAre cfg keys N"
  have pd: "p \<notin> diskPaths cfg" using temp_not_disk [OF sep roots_in(1) n t] p by simp
  have hd: "hotPath cfg ?n \<in> diskPaths cfg" and cd: "coldDiskPath cfg ?n \<in> diskPaths cfg" using sep n C by (simp_all add: hot_tree cold_tree)
  have under: "\<not> below p q" if "q \<in> diskPaths cfg" for q using disk_not_temp [OF sep roots_in(1) n t that] p by simp
  have rename: "wp (osRename p (hotPath cfg ?n)) (\<lambda>_. ?hot) (\<lambda>_. ?K) s'"
    if s': "coldIs cfg keys N ?n x s' \<and> look s' p = Some x" for s'
  proof (rule wp_osRename)
    fix rs m
    let ?fs = "moveTree p (hotPath cfg ?n) (files s')"
    have same: "map_of ?fs q = look s' q" if "q \<in> diskPaths cfg" "q \<noteq> hotPath cfg ?n" for q
      using that under [OF that(1)] disk_below_disk [OF sep hd that(1)] by (auto simp: map_of_moveTree)
    have hot: "map_of ?fs (hotPath cfg ?n) = Some x" using s' by (simp add: map_of_moveTree)
    have "nameContent cfg ?fs m = nameContent cfg (files s') m" if m: "plainElem m" for m
    proof (cases "m = ?n")
      case True
      then show ?thesis using hot s' C by (simp add: nameContent_def coldIs_def)
    next
      case False
      then have "hotPath cfg m \<noteq> hotPath cfg ?n" "coldDiskPath cfg m \<noteq> hotPath cfg ?n"
        using m n sep C roots_distinct [OF sep C] by (auto simp: hot_tree cold_tree tree_eq [OF sep])
      then show ?thesis using same m sep C by (simp add: nameContent_def hot_tree cold_tree split: option.splits)
    qed
    then show "?hot (s'\<lparr>outcomes := rs, files := ?fs\<rparr>)"
      using s' hot by (simp add: hotIs_def disksAre_def coldIs_def archivePathsOK_def)
  qed (use s' hd pd in \<open>auto simp: coldIs_def\<close>)
  have dir: "wp (ignoring (osRemove (pathDir (coldDiskPath cfg ?n)))) (\<lambda>_. ?hot) (\<lambda>_. ?K) s'" if "?hot s'" for s'
  proof -
    have "pathDir (coldDiskPath cfg ?n) \<notin> diskPaths cfg"
      unfolding cold_tree(3) [OF sep n C] cold_tree(1) [OF sep n C]
      using disk_not_above [OF sep roots_in(2) [OF C] n] below_refl by blast
    then show ?thesis unfolding wp_ignoring using that
      by (intro remove_temp_keeps [OF diskOnly_hot [OF sep n]]) auto
  qed
  have weaken: "coldIs cfg keys N ?n x t \<Longrightarrow> ?K t" "?hot t \<Longrightarrow> ?K t" for t by (simp_all add: coldIs_def hotIs_def)
  have "look s (coldDiskPath cfg ?n) = Some x" using h by (simp add: coldIs_def)
  note copy = copy_keeps_disks [OF sep diskOnly_cold [OF sep n C] h pd cd this]
  show ?thesis unfolding moveToHot_def hotPath_def [symmetric]
    by (rule wp_seq [OF copy]; (rule wp_seq [OF rename])?; (rule wp_seq [OF forget_archived])?;
        (rule wp_seq [OF wp_removeCold [OF sep n C]])?) (auto intro: dir simp: weaken)
qed

lemma hydrateColdDisk_keeps:
  assumes sep: "separateDirs cfg" and n: "plainElem (vmName vm)"
    and a: "vmArchivedDiskPath vm = [] \<or> vmArchivedDiskPath vm = coldDiskPath cfg (vmName vm)"
    and K: "disksAre cfg keys N s"
  shows "wp (hydrateColdDisk cfg vm) (\<lambda>_ t. disksAre cfg keys N t \<and> look t (hotPath cfg (vmName vm)) = N (vmName vm))
    (\<lambda>_. disksAre cfg keys N) s"
proof (cases "coldDir (cfgColdStorage cfg) = []")
  case True
  then have "vmArchivedDiskPath vm = []" using a by (simp add: coldDiskPath_def coldVMDir_def)
  moreover have "look s (hotPath cfg (vmName vm)) = N (vmName vm)"
    using K n True by (auto simp: disksAre_def nameContent_def split: option.splits)
  ultimately show ?thesis using K True by (simp add: hydrateColdDisk_def wp_rules)
next
  case C: False
  let ?K = "disksAre cfg keys N" and ?n = "vmName vm" and ?t = "\<lambda>k. ''rootfs.ext4.'' @ natDec k @ ''.restore.tmp''"
  let ?Q = "\<lambda>_ t. ?K t \<and> look t (hotPath cfg ?n) = N ?n" and ?c = "coldDiskPath cfg ?n"
  have N: "hotIs cfg keys N ?n x t \<Longrightarrow> N ?n = Some x" "coldIs cfg keys N ?n x t \<Longrightarrow> N ?n = Some x" for x t
    using n C by (auto simp: hotIs_def coldIs_def disksAre_def nameContent_def dest!: spec [of _ ?n])
  have c: "(if vmArchivedDiskPath vm \<noteq> [] then vmArchivedDiskPath vm else ?c) = ?c" using a by auto
  have tmp: "plainElem (?t k) \<and> ?t k \<noteq> ''rootfs.ext4''" for k using plain_temp by simp
  have move: "wp (bind call (\<lambda>_. deferring (osRemove p) (moveToHot cfg vm ?c p))) ?Q (\<lambda>_. ?K) t"
    if h: "coldIs cfg keys N ?n x t" and p: "p = tree (hotRoot cfg) [?n, ?t k]" for p t k x
  proof -
    have pd: "p \<notin> diskPaths cfg" using temp_not_disk [OF sep roots_in(1) n] tmp p by metis
    have "wp (deferring (osRemove p) (moveToHot cfg vm ?c p)) ?Q (\<lambda>_. ?K) (t\<lparr>outcomes := rs\<rparr>)" for rs
    proof (rule wp_defer)
      show "wp (moveToHot cfg vm ?c p) (\<lambda>_. hotIs cfg keys N ?n x) (\<lambda>_. ?K) (t\<lparr>outcomes := rs\<rparr>)"
        using h p tmp by (intro moveToHot_keeps [OF sep n C]) (auto simp: coldIs_def)
      show "?K t' \<Longrightarrow> wp (osRemove p) (\<lambda>_. ?K) (\<lambda>_. ?K) t'" for t'
        using pd by (intro disksAre_remove_temp [OF sep])
      show "wp (osRemove p) (\<lambda>_. ?Q ()) (\<lambda>_. ?Q ()) t'" if "hotIs cfg keys N ?n x t'" for t'
        by (rule wp_mono [OF remove_temp_keeps [OF diskOnly_hot [OF sep n] that pd]]) (auto simp: hotIs_def N(2) [OF h])
    qed
    with h show ?thesis unfolding wp_bind by (auto intro!: wp_call_frame simp: coldIs_def)
  qed
  have fetch: "wp (bind (osMkdirAll (vmDir (layoutOf cfg ?n))) (\<lambda>_.
      bind (osTemp (File []) (vmDir (layoutOf cfg ?n)) ''rootfs.ext4.'' ''.restore.tmp'') (\<lambda>p.
      bind call (\<lambda>_. deferring (osRemove p) (moveToHot cfg vm ?c p))))) ?Q (\<lambda>_. ?K) t"
    if h: "coldIs cfg keys N ?n x t" for t x
    unfolding hot_tree(1) [OF sep n]
    by (rule wp_seq [OF mkdir_keeps_disks [OF sep diskOnly_cold [OF sep n C] n roots_in(1) h]];
        (rule wp_seq [OF temp_keeps_disks [OF sep diskOnly_cold [OF sep n C] n roots_in(1) _ tmp]])?)
      (auto intro!: move simp: coldIs_def)
  have stale: "wp (bind (SetVMArchivedDiskPath (vmUUID vm) []) (\<lambda>_. ignoring (osRemove ?c))) ?Q (\<lambda>_. ?K) t"
    if h: "hotIs cfg keys N ?n x t" for t x
    by (rule wp_seq [OF forget_archived [OF h]], rule wp_mono [OF wp_removeCold [OF sep n C]])
      (auto simp: hotIs_def N(1) [OF h])
  have some: "look s (hotPath cfg ?n) = Some x \<Longrightarrow> Some x = N ?n" for x
    using K N(1) [of x s] by (simp add: hotIs_def)
  have none: "look s (hotPath cfg ?n) = None \<Longrightarrow> look s ?c = None \<Longrightarrow> N ?n = None"
    using K n C by (auto simp: disksAre_def nameContent_def dest!: spec [of _ ?n])
  show ?thesis
    unfolding hydrateColdDisk_def Let_def c wp_bind [of "attempt m" for m] wp_attempt hotPath_def [symmetric]
    using C a K none coldDiskPath_empty [OF sep n]
    by (auto simp: wp_if wp_ret wp_throw wp_bind [of "attempt m" for m] wp_attempt hotIs_def coldIs_def
        intro!: wp_osStat stale fetch some)
qed

section \<open>Properties\<close>

lemma monitor_keeps:
  assumes "separateDirs cfg" "distinct (map fst keys)"
  shows "keeps (disksAre cfg keys N) (ColdStorageMonitor_Run cfg ticks)"
  unfolding ColdStorageMonitor_Run_def ColdStorageMonitor_check_def using assms
  by (intro keeps_rules) (simp_all add: outcome_blind_def)

lemma disksAre_start:
  "archivePathsOK cfg s \<Longrightarrow> disksAre cfg (map (\<lambda>r. (cUuid r, cName r)) (vmsT s)) (nameContent cfg (files s)) s"
  by (simp add: disksAre_def)

text \<open>
  C4: Archiving loses and changes no disk when the state directory and the directory of the cold
  storage are apart (\<open>separateDirs\<close>: absolute, different, neither among the machine directories of the
  other) and every archive path in the table is the one the cold storage itself writes
  (\<open>archivePathsOK\<close>, which the monitor keeps).  Then, whatever machines are due at whatever times, and
  whichever calls fail or are cancelled half-way, after any number of rounds of the monitor every
  machine still has the disk content it had, in its directory or archived.
\<close>

theorem cold_storage_keeps_disks:
  assumes "separateDirs cfg" and "wfStore s" and "archivePathsOK cfg s"
  shows "diskContent cfg (snd (ColdStorageMonitor_Run cfg ticks s)) = diskContent cfg s \<and>
    archivePathsOK cfg (snd (ColdStorageMonitor_Run cfg ticks s))"
proof -
  let ?K = "disksAre cfg (map (\<lambda>r. (cUuid r, cName r)) (vmsT s)) (nameContent cfg (files s))"
  have "distinct (map fst (map (\<lambda>r. (cUuid r, cName r)) (vmsT s)))" using assms(2) by (simp add: wfStore_def comp_def)
  then have "?K (snd (ColdStorageMonitor_Run cfg ticks s))"
    using assms by (intro keepsD [OF monitor_keeps] disksAre_start)
  then show ?thesis using disksAre_content [OF assms(1) _ disksAre_start [OF assms(3)]] by (auto simp: disksAre_def)
qed

text \<open>
  C32: Under the same two conditions, directories that are apart and archive paths that the cold
  storage wrote, restoring the disk of a stored machine from cold storage loses and changes no disk of
  any machine, whichever calls fail.  When it succeeds, the machine's own directory holds exactly the
  content the machine had before.
\<close>

theorem hydrate_keeps_disks:
  assumes "separateDirs cfg" and "archivePathsOK cfg s" and "find (\<lambda>r. cUuid r = u) (vmsT s) = Some r"
    and "hydrateColdDisk cfg (scanVM r) s = (res, t)"
  shows "diskContent cfg t = diskContent cfg s \<and> (res = Inr () \<longrightarrow> look t (hotPath cfg (cName r)) = diskContent cfg s u)"
proof -
  let ?keys = "map (\<lambda>r. (cUuid r, cName r)) (vmsT s)" and ?N = "nameContent cfg (files s)"
  note K = disksAre_start [OF assms(2)]
  note r = found_vm [OF K assms(3)]
  have w: "wp (hydrateColdDisk cfg (scanVM r)) (\<lambda>_ t. disksAre cfg ?keys ?N t \<and> look t (hotPath cfg (cName r)) = ?N (cName r))
      (\<lambda>_. disksAre cfg ?keys ?N) s"
    using hydrateColdDisk_keeps [OF assms(1) _ _ K, of "scanVM r"] r by (simp add: scanVM_def)
  then have "disksAre cfg ?keys ?N t" using assms(4) by (cases res) (auto simp: wp_def)
  then have "diskContent cfg t = diskContent cfg s" by (rule disksAre_content [OF assms(1) _ K])
  moreover have "diskContent cfg s u = ?N (cName r)"
    using r assms(3) coldDiskPath_empty [OF assms(1)]
    by (auto simp: diskContent_def nameContent_def Let_def split: option.splits)
  moreover have "look t (hotPath cfg (cName r)) = ?N (cName r)" if "res = Inr ()"
    using w assms(4) that by (simp add: wp_def)
  ultimately show ?thesis by simp
qed

definition coldCfg :: Config where
  "coldCfg = Default\<lparr>cfgStateDir := ''/s'', cfgColdStorage := \<lparr>coldDir = ''/c'', coldArchiveStoppedAfterSeconds = 60\<rparr>\<rparr>"

text \<open>One stopped machine; its disk is where the argument says.\<close>

definition coldState :: "string \<Rightarrow> string \<Rightarrow> mgr" where
  "coldState path archived = sampleMgr\<lparr>
     vmsT := [(vmRowOf ''2026-01-01T00:00:00.000Z'' ''u1'' sampleParams)\<lparr>cArchivedDiskPath := archived\<rparr>],
     files := [(path, File ''data'')]\<rparr>"

lemma coldCfg_elems: "elems ''/s'' = [''s'']" "elems ''/c'' = [''c'']"
  by (simp_all add: elems_def cleanStack_def split_def cleanStep_def isAbs_def hasPrefix_def)

lemma coldCfg_paths:
  "separateDirs coldCfg" "hotPath coldCfg ''dev'' = ''/s/vms/dev/rootfs.ext4''"
  "coldDiskPath coldCfg ''dev'' = ''/c/vms/dev/rootfs.ext4''"
proof -
  show sep: "separateDirs coldCfg"
    by (simp add: separateDirs_def coldCfg_def coldCfg_elems isAbs_def hasPrefix_def)
  have "plainElem ''dev''" by (simp add: plainElem_def)
  then show "hotPath coldCfg ''dev'' = ''/s/vms/dev/rootfs.ext4''" "coldDiskPath coldCfg ''dev'' = ''/c/vms/dev/rootfs.ext4''"
    using hot_tree [OF sep, of "''dev''"] cold_tree [OF sep, of "''dev''"]
    by (simp_all add: coldCfg_def tree_def hotRoot_def coldRoot_def coldCfg_elems renderPath_def)
qed

lemma coldState_ok:
  assumes "archived = [] \<or> archived = ''/c/vms/dev/rootfs.ext4''"
  shows "archivePathsOK coldCfg (coldState p archived)" "wfStore (coldState p archived)"
  using assms coldCfg_paths
  by (auto simp: archivePathsOK_def coldState_def vmRowOf_def sampleParams_def plainElem_def wfStore_def)

lemma cold_storage_keeps_disks_witness:
  "diskContent coldCfg (snd (ColdStorageMonitor_Run coldCfg [1800000000000000000]
     (coldState ''/s/vms/dev/rootfs.ext4'' []\<lparr>outcomes := [Success, Success, Success, Failure ''disk full'' 2]\<rparr>))) ''u1''
   = Some (File ''data'')"
proof -
  let ?s = "coldState ''/s/vms/dev/rootfs.ext4'' []\<lparr>outcomes := [Success, Success, Success, Failure ''disk full'' 2]\<rparr>"
  have "wfStore ?s" "archivePathsOK coldCfg ?s" using coldState_ok [of "[]"] by (simp_all add: archivePathsOK_def)
  then show ?thesis
    using cold_storage_keeps_disks [OF coldCfg_paths(1), of ?s "[1800000000000000000]"] coldCfg_paths
    by (simp add: diskContent_def coldState_def vmRowOf_def sampleParams_def)
qed

lemma hydrate_keeps_disks_witness:
  "let s = coldState ''/c/vms/dev/rootfs.ext4'' ''/c/vms/dev/rootfs.ext4'' in
   diskContent coldCfg (snd (hydrateColdDisk coldCfg (scanVM (hd (vmsT s))) s)) ''u1'' = Some (File ''data'')"
proof -
  let ?s = "coldState ''/c/vms/dev/rootfs.ext4'' ''/c/vms/dev/rootfs.ext4''"
  have "archivePathsOK coldCfg ?s" using coldState_ok by simp
  moreover have "find (\<lambda>r. cUuid r = ''u1'') (vmsT ?s) = Some (hd (vmsT ?s))" by (simp add: coldState_def vmRowOf_def)
  ultimately have "diskContent coldCfg (snd (hydrateColdDisk coldCfg (scanVM (hd (vmsT ?s))) ?s)) = diskContent coldCfg ?s"
    using hydrate_keeps_disks [OF coldCfg_paths(1), of ?s "''u1''" "hd (vmsT ?s)"
        "fst (hydrateColdDisk coldCfg (scanVM (hd (vmsT ?s))) ?s)" "snd (hydrateColdDisk coldCfg (scanVM (hd (vmsT ?s))) ?s)"]
    by simp
  moreover have "diskContent coldCfg ?s ''u1'' = Some (File ''data'')"
    using coldCfg_paths by (simp add: diskContent_def coldState_def vmRowOf_def sampleParams_def)
  ultimately show ?thesis by (simp add: Let_def)
qed

definition sameDirCfg :: Config where
  "sameDirCfg = Default\<lparr>cfgStateDir := ''/s'', cfgColdStorage := \<lparr>coldDir = ''/s'', coldArchiveStoppedAfterSeconds = 60\<rparr>\<rparr>"

text \<open>
  The separation of the directories is needed.  With the cold directory equal to the state
  directory, an archive run in which nothing fails reports success and deletes the only copy of the
  disk: the path it has just renamed the copy to is the path it removes last.
\<close>

theorem archive_in_place_loses_disk:
  "let s = coldState ''/s/vms/dev/rootfs.ext4'' []; (r, t) = ArchiveStoppedVM sameDirCfg ''u1'' 1800000000000000000 s in
   diskContent sameDirCfg s ''u1'' = Some (File ''data'') \<and> r = Inr () \<and> diskContent sameDirCfg t ''u1'' = None"
  by code_simp

end
