(* ===== verification/Lifecycle.thy ===== *)
theory Lifecycle
  imports ColdStorage
begin

text \<open>
  The operations of \<open>Manager\<close> in \<open>internal/firecracker/manager.go\<close> that the API, the proxies and the
  daemon call: create, restore, update, delete, start, resume, reboot, stop, sleep, snapshots, the
  clean-up at daemon start and the memory target.

  \<open>errors.Join\<close> of several errors is represented by the first of them.
\<close>

section \<open>Creation\<close>

text \<open>The defaults and checks that \<open>CreateVM\<close> and \<open>RestoreSnapshot\<close> share; \<open>disk\<close> is the default size.\<close>

definition fillVMParams :: "Config \<Rightarrow> int \<Rightarrow> CreateVMParams \<Rightarrow> err + CreateVMParams" where
  "fillVMParams cfg disk p =
     (let f = cfgFirecracker cfg;
          p = p\<lparr>cpVCPUs := (if cpVCPUs p = 0 then fcDefaultVCPUs f else cpVCPUs p),
                cpMemoryMinMiB := (if cpMemoryMinMiB p = 0 then fcDefaultMemoryMinMiB f else cpMemoryMinMiB p),
                cpMemoryMaxMiB := (if cpMemoryMaxMiB p = 0 then fcDefaultMemoryMaxMiB f else cpMemoryMaxMiB p)\<rparr> in
      if cpMemoryMinMiB p > cpMemoryMaxMiB p
      then Inl (Msg ''memory_min_mib must be less than or equal to memory_max_mib'')
      else case validateMemoryHotplugRange (cpMemoryMinMiB p) (cpMemoryMaxMiB p) of
        Inl e \<Rightarrow> Inl e
      | Inr _ \<Rightarrow>
          (let p = p\<lparr>cpDiskBytes := (if cpDiskBytes p = 0 then disk else cpDiskBytes p),
                     cpDefaultHTTPPort := (if cpDefaultHTTPPort p = 0 then cfgDefaultHTTPPort cfg else cpDefaultHTTPPort p),
                     cpAutoWake := (if \<not> cpAutoWakeSet p then True else cpAutoWake p)\<rparr> in
           if cpIdleSleepAfterSeconds p < 0 then Inl (Msg ''idle_sleep_after_seconds cannot be negative'') else Inr p))"

definition choosePrivateIP :: "Config \<Rightarrow> CreateVMParams \<Rightarrow> ('z store_scheme, CreateVMParams) prog" where
  "choosePrivateIP cfg p = (if cpPrivateIP p = []
     then bind (nextPrivateIP cfg) (\<lambda>ip. ret (p\<lparr>cpPrivateIP := ipString ip\<rparr>)) else ret p)"

definition storeVM :: "host \<Rightarrow> string \<Rightarrow> CreateVMParams \<Rightarrow> ('z store_scheme, VM) prog" where
  "storeVM h newUUID p = bind (attempt (CreateVM (hUuidParses h) newUUID p)) (\<lambda>r.
     case r of Inr vm \<Rightarrow> ret vm
     | Inl e \<Rightarrow> if errIs e StoreErrAlreadyExists then throw (Wrap ''vm'' (Sentinel ErrAlreadyExists)) else throw e)"

definition mgrCreateVM :: "host \<Rightarrow> string \<Rightarrow> CreateVMParams \<Rightarrow> ('z mgr_scheme, VM) prog" where
  "mgrCreateVM h newUUID p =
     bind (RouteExists (cpName p)) (\<lambda>routeExists.
     if routeExists then throw (Wrap ''route reserves VM name'' (Sentinel ErrAlreadyExists)) else
     bind (fromSum (fillVMParams (hCfg h) (fcDefaultDiskBytes (cfgFirecracker (hCfg h))) p)) (\<lambda>p.
     bind (choosePrivateIP (hCfg h) p) (\<lambda>p.
     bind (baseImageMetadata (hCfg h)) (\<lambda>metadata.
     storeVM h newUUID (applyBaseImageMetadata p metadata)))))"

definition RestoreSnapshot :: "host \<Rightarrow> string \<Rightarrow> string \<Rightarrow> CreateVMParams \<Rightarrow> ('z mgr_scheme, VM) prog" where
  "RestoreSnapshot h newUUID snapshotName p =
     (if snapshotName = [] then throw (Msg ''snapshot name is required'') else
      if cpName p = [] then throw (Msg ''vm name is required'') else
      bind (VMExists (cpName p)) (\<lambda>ex.
      if ex then throw (Wrap ''vm'' (Sentinel ErrAlreadyExists)) else
      bind (RouteExists (cpName p)) (\<lambda>routeExists.
      if routeExists then throw (Wrap ''route reserves VM name'' (Sentinel ErrAlreadyExists)) else
      bind (GetSnapshot snapshotName) (\<lambda>snapshot.
      bind (wrapping ''snapshot disk'' (osStat (snapDiskPath snapshot))) (\<lambda>diskInfo.
      bind (fromSum (fillVMParams (hCfg h) (nodeSize diskInfo) p)) (\<lambda>p.
      bind (choosePrivateIP (hCfg h) p) (\<lambda>p.
      let p = p\<lparr>cpBaseImageID := snapBaseImageID snapshot, cpKernelID := snapKernelID snapshot,
                cpBaseImageMetadata := snapBaseImageMetadata snapshot\<rparr>;
          l = layoutOf (hCfg h) (cpName p) in
      bind (osMkdirAll (vmDir l)) (\<lambda>_.
      bind (wrapping ''copy snapshot disk'' (copyFile h (diskPath l) (snapDiskPath snapshot))) (\<lambda>_.
      bind (if cpDiskBytes p > nodeSize diskInfo then osTruncate (diskPath l) (nat (cpDiskBytes p)) else ret ()) (\<lambda>_.
      bind (wrapping ''resize snapshot disk filesystem'' (resizeExt4Image h (diskPath l))) (\<lambda>_.
      bind (wrapping ''rewrite guest identity'' (rewriteGuestIdentity h (diskPath l) (cpName p))) (\<lambda>_.
      storeVM h newUUID p))))))))))))"

definition mgrUpdateVM :: "string \<Rightarrow> UpdateVMParams \<Rightarrow> ('z mgr_scheme, VM) prog" where
  "mgrUpdateVM u p =
     (if (case upDefaultHTTPPort p of None \<Rightarrow> False | Some port \<Rightarrow> port \<le> 0 \<or> port > 65535)
      then throw (Msg ''default_http_port must be between 1 and 65535'')
      else if (case upIdleSleepAfterSeconds p of None \<Rightarrow> False | Some n \<Rightarrow> n < 0)
      then throw (Msg ''idle_sleep_after_seconds cannot be negative'')
      else UpdateVM u p)"

section \<open>Memory target\<close>

definition setVMMemoryTarget :: "VM \<Rightarrow> int \<Rightarrow> ('z mgr_scheme, MemoryHotplugUsage) prog" where
  "setVMMemoryTarget vm target =
     (let requested = requestedMiB vm target;
          fixed = (\<lambda>n. \<lparr>muTotalMiB = 0, muRequestedMiB = 0, muPluggedMiB = 0, muEffectiveMiB = n\<rparr>) in
      bind (gets (\<lambda>s. isRunning s (vmUUID vm))) (\<lambda>r.
      if \<not> r then throw (Sentinel ErrNotRunning) else
      if vmMemoryMaxMiB vm = vmMemoryMinMiB vm then ret (fixed (vmMemoryMinMiB vm)) else
      bind (virtioMemUsableForVM vm) (\<lambda>usable.
      if \<not> usable then ret (fixed (vmMemoryMaxMiB vm)) else
      bind (firecrackerPatchMemoryHotplug requested) (\<lambda>_.
      bind firecrackerGetMemoryHotplug (\<lambda>(total, req, plug).
      ret \<lparr>muTotalMiB = total, muRequestedMiB = req, muPluggedMiB = plug, muEffectiveMiB = vmMemoryMinMiB vm + plug\<rparr>)))))"

definition RecordVMMemoryReportByPrivateIP ::
  "string \<Rightarrow> int option \<Rightarrow> GuestMemoryReport \<Rightarrow> ('z mgr_scheme, MemoryHotplugUsage) prog" where
  "RecordVMMemoryReportByPrivateIP privateIP target report =
     bind (GetVMByPrivateIP privateIP) (\<lambda>vm.
     bind (gets clock) (\<lambda>now.
     let report = report\<lparr>grReportedAt := formatRFC3339 now,
           grLastTargetMiB := (case target of None \<Rightarrow> grLastTargetMiB report | Some t \<Rightarrow> t)\<rparr> in
     bind (modify (\<lambda>s. s\<lparr>guestMemoryReports :=
         (vmUUID vm, report) # filter (\<lambda>e. fst e \<noteq> vmUUID vm) (guestMemoryReports s)\<rparr>)) (\<lambda>_.
     case target of
       None \<Rightarrow> ret \<lparr>muTotalMiB = 0, muRequestedMiB = 0, muPluggedMiB = 0, muEffectiveMiB = 0\<rparr>
     | Some t \<Rightarrow> setVMMemoryTarget vm t)))"

section \<open>Stop, sleep, start\<close>

definition StopVM :: "string \<Rightarrow> ('z mgr_scheme, unit) prog" where
  "StopVM u =
     bind (GetVM u) (\<lambda>vm.
     bind (gets (\<lambda>s. procOf s u)) (\<lambda>p.
     case p of
       None \<Rightarrow> SetVMState u ''stopped''
     | Some p \<Rightarrow>
         bind (ignoring (firecrackerAction ''SendCtrlAltDel'')) (\<lambda>_.
         bind (waitForProcessExit p) (\<lambda>_.
         bind (ignoring (cleanupAfterExit p)) (\<lambda>_.
         SetVMState u ''stopped'')))))"

definition SleepVM :: "host \<Rightarrow> string \<Rightarrow> ('z mgr_scheme, VM) prog" where
  "SleepVM h u =
     bind (GetVM u) (\<lambda>vm.
     bind (gets (\<lambda>s. procOf s u)) (\<lambda>p.
     case p of
       None \<Rightarrow> if vmState vm = ''sleeping'' then ret vm else throw (Wrap (vmName vm) (Sentinel ErrNotRunning))
     | Some p \<Rightarrow>
         let l = layoutOf (hCfg h) (vmName vm) in
         bind (osMkdirAll (sleepDir l)) (\<lambda>_.
         bind (firecrackerSetVMState ''Paused'') (\<lambda>_.
         bind (attempt (firecrackerCreateSnapshot h u (sleepStatePath l) (sleepMemPath l))) (\<lambda>r.
         case r of
           Inl e \<Rightarrow> bind (ignoring (firecrackerSetVMState ''Resumed'')) (\<lambda>_. throw e)
         | Inr _ \<Rightarrow>
             bind (stopProcess p ''sleeping'') (\<lambda>_.
             bind (SetVMState u ''sleeping'') (\<lambda>_.
             GetVM u)))))))"

definition resumeVM :: "host \<Rightarrow> VM \<Rightarrow> ('z mgr_scheme, VM) prog" where
  "resumeVM h vm =
     (let l = layoutOf (hCfg h) (vmName vm) in
      bind (wrapping ''sleep state'' (osStat (sleepStatePath l))) (\<lambda>_.
      bind (wrapping ''sleep memory'' (osStat (sleepMemPath l))) (\<lambda>_.
      bind (osMkdirAll (runtimeDir l)) (\<lambda>_.
      bind (wrapping ''prepare network'' (prepareNetwork h vm)) (\<lambda>netdev.
      bind (ignoring (osRemove (socketPath l))) (\<lambda>_.
      bind (attempt (launchProcess h vm l netdev None)) (\<lambda>r.
      case r of
        Inl e \<Rightarrow> bind (ignoring (cleanupNetwork (pnTapName netdev))) (\<lambda>_. throw e)
      | Inr p \<Rightarrow>
          bind (attempt (bind (waitForSocket (socketPath l)) (\<lambda>_.
              firecrackerLoadSnapshot h (vmUUID vm) (sleepStatePath l) (sleepMemPath l)))) (\<lambda>r.
          case r of
            Inl e \<Rightarrow> bind (ignoring (stopProcess p ''stopped'')) (\<lambda>_. throw e)
          | Inr _ \<Rightarrow>
              bind (SetVMState (vmUUID vm) ''running'') (\<lambda>_.
              GetVM (vmUUID vm))))))))))"

definition firecrackerConfigFor :: "Config \<Rightarrow> VM \<Rightarrow> layout \<Rightarrow> preparedNetwork \<Rightarrow> hostMemoryConfig \<Rightarrow> firecrackerConfig" where
  "firecrackerConfigFor cfg vm l netdev mem = \<lparr>
     fcBootSource = \<lparr>bsKernelImagePath = fcBaseKernelPath (cfgFirecracker cfg),
       bsInitrdPath = fcBaseInitrdPath (cfgFirecracker cfg), bsBootArgs = bootArgs cfg netdev\<rparr>,
     fcDrives = [\<lparr>drID = ''rootfs'', drPathOnHost = diskPath l, drIsRootDevice = True, drIsReadOnly = False\<rparr>],
     fcNetworkInterfaces = [\<lparr>niIfaceID = ''eth0'', niHostDevName = pnTapName netdev, niGuestMAC = pnGuestMAC netdev\<rparr>],
     fcMachineConfig = \<lparr>mcVCPUCount = vmVCPUs vm, mcMemSizeMiB = hmBootMiB mem, mcSMT = False\<rparr>,
     fcMemoryHotplug = hmHotplug mem\<rparr>"

text \<open>\<open>StartVM\<close> from the point where it holds the guard.\<close>

definition startGuarded :: "host \<Rightarrow> string \<Rightarrow> ('z mgr_scheme, VM) prog" where
  "startGuarded h u =
     bind (GetVM u) (\<lambda>vm.
     bind (memoryConfigForHost vm) (\<lambda>mem.
     if vmState vm = ''sleeping'' then resumeVM h vm else
     bind (wrapping ''restore cold disk'' (hydrateColdDisk (hCfg h) vm)) (\<lambda>_.
     let l = layoutOf (hCfg h) (vmName vm) in
     bind (osMkdirAll (vmDir l)) (\<lambda>_.
     bind (osMkdirAll (runtimeDir l)) (\<lambda>_.
     bind (wrapping ''prepare disk''
            (ensureDisk h (diskPath l) (fcBaseRootfsPath (cfgFirecracker (hCfg h))) (vmDiskBytes vm))) (\<lambda>diskCreated.
     bind (if diskCreated then
             bind (wrapping ''resize disk filesystem'' (resizeExt4Image h (diskPath l))) (\<lambda>_.
             wrapping ''rewrite guest identity'' (rewriteGuestIdentity h (diskPath l) (vmName vm)))
           else ret ()) (\<lambda>_.
     bind (wrapping ''rewrite guest network helper'' (rewriteGuestNetworkHelper h (diskPath l))) (\<lambda>_.
     bind (wrapping ''prepare network'' (prepareNetwork h vm)) (\<lambda>netdev.
     bind (writeFirecrackerConfig (configPath l) (firecrackerConfigFor (hCfg h) vm l netdev mem)) (\<lambda>_.
     bind (ignoring (osRemove (socketPath l))) (\<lambda>_.
     bind (launchProcess h vm l netdev (Some (configPath l))) (\<lambda>p.
     bind (attempt (waitForSocket (socketPath l))) (\<lambda>r.
     case r of
       Inl e \<Rightarrow> bind (ignoring (StopVM u)) (\<lambda>_. throw e)
     | Inr _ \<Rightarrow>
         bind (SetVMState u ''running'') (\<lambda>_.
         GetVM u))))))))))))))"

definition StartVM :: "host \<Rightarrow> string \<Rightarrow> ('z mgr_scheme, VM) prog" where
  "StartVM h u = bind (beginStartOperationCancelingColdArchive u) (\<lambda>_. deferring (endVMOperation u) (startGuarded h u))"

definition RebootVM :: "host \<Rightarrow> string \<Rightarrow> ('z mgr_scheme, VM) prog" where
  "RebootVM h u =
     bind (GetVM u) (\<lambda>vm.
     bind (gets (\<lambda>s. isRunning s u)) (\<lambda>r.
     if r then bind (StopVM u) (\<lambda>_. StartVM h u) else
     bind (if vmState vm = ''sleeping'' then
             bind (osRemoveAll (sleepDir (layoutOf (hCfg h) (vmName vm)))) (\<lambda>_. SetVMState u ''stopped'')
           else ret ()) (\<lambda>_.
     StartVM h u)))"

section \<open>Several machines\<close>

text \<open>A loop that collects the errors of its rounds and joins them.\<close>

fun collectErrs :: "'a list \<Rightarrow> ('a \<Rightarrow> ('s, unit) prog) \<Rightarrow> ('s, err list) prog" where
  "collectErrs [] f = ret []"
| "collectErrs (x # xs) f = bind (attempt (f x)) (\<lambda>r. bind (collectErrs xs f) (\<lambda>es.
     ret (case r of Inl e \<Rightarrow> e # es | Inr _ \<Rightarrow> es)))"

definition joinErrs :: "('s, err list) prog \<Rightarrow> ('s, unit) prog" where
  "joinErrs m = bind m (\<lambda>es. case es of [] \<Rightarrow> ret () | e # _ \<Rightarrow> throw (Wrap [] e))"

definition RunningVMNames :: "('z mgr_scheme, string list) prog" where
  "RunningVMNames = gets (\<lambda>s. sort (map procName (running s)))"

definition SleepRunningVMs :: "host \<Rightarrow> ('z mgr_scheme, unit) prog" where
  "SleepRunningVMs h = bind RunningVMNames (\<lambda>names.
     joinErrs (collectErrs names (\<lambda>n. wrapping (''sleep '' @ n)
       (bind (GetVMByName n) (\<lambda>vm. bind (SleepVM h (vmUUID vm)) (\<lambda>_. ret ()))))))"

definition StartVMs :: "host \<Rightarrow> string list \<Rightarrow> ('z mgr_scheme, unit) prog" where
  "StartVMs h names = joinErrs (collectErrs names (\<lambda>n.
     bind (wrapping (''start '' @ n) (GetVMByName n)) (\<lambda>vm.
     bind (attempt (StartVM h (vmUUID vm))) (\<lambda>r.
     case r of Inr _ \<Rightarrow> ret ()
     | Inl e \<Rightarrow> if errIs e ErrAlreadyRunning then ret () else throw (Wrap (''start '' @ n) e)))))"

definition ReconcileStartup :: "('z mgr_scheme, unit) prog" where
  "ReconcileStartup = bind ListVMs (\<lambda>vms.
     joinErrs (collectErrs vms (\<lambda>vm.
       bind (ignoring (cleanupNetwork (tapName (vmName vm)))) (\<lambda>_.
       if vmState vm \<noteq> ''running'' then ret ()
       else wrapping ''mark lost'' (SetVMState (vmUUID vm) ''lost'')))))"

section \<open>Deletion and snapshots\<close>

text \<open>\<open>DeleteVM\<close> from the point where it holds the guard.\<close>

definition deleteGuarded :: "Config \<Rightarrow> string \<Rightarrow> VM \<Rightarrow> ('z mgr_scheme, unit) prog" where
  "deleteGuarded cfg u vm =
     bind (gets (\<lambda>s. isRunning s u)) (\<lambda>r.
     bind (if r then StopVM u else ret ()) (\<lambda>_.
     bind (osRemoveAll (vmDir (layoutOf cfg (vmName vm)))) (\<lambda>_.
     bind (if vmArchivedDiskPath vm \<noteq> [] then removeIfExists (vmArchivedDiskPath vm) else ret ()) (\<lambda>_.
     bind (if coldVMDir cfg (vmName vm) \<noteq> [] then osRemoveAll (coldVMDir cfg (vmName vm)) else ret ()) (\<lambda>_.
     bind (DeleteRoutesForVM u) (\<lambda>_.
     bind (DeleteVM u) (\<lambda>_.
     modify (\<lambda>s. s\<lparr>guestMemoryReports := filter (\<lambda>e. fst e \<noteq> u) (guestMemoryReports s)\<rparr>))))))))"

definition mgrDeleteVM :: "Config \<Rightarrow> string \<Rightarrow> ('z mgr_scheme, unit) prog" where
  "mgrDeleteVM cfg u =
     bind (GetVM u) (\<lambda>vm.
     bind (beginVMOperationCancelingColdArchive u) (\<lambda>_.
     deferring (endVMOperation u) (deleteGuarded cfg u vm)))"

text \<open>\<open>SaveSnapshot\<close> from the point where it holds the guard.\<close>

definition snapshotGuarded :: "host \<Rightarrow> string \<Rightarrow> VM \<Rightarrow> ('z mgr_scheme, Snapshot) prog" where
  "snapshotGuarded h name vm =
     bind (gets (\<lambda>s. isRunning s (vmUUID vm))) (\<lambda>r.
     if vmState vm = ''running'' \<or> r then throw (Wrap ''cannot snapshot running VM'' (Sentinel ErrRunning)) else
     if vmState vm \<noteq> ''stopped'' then throw (Wrap ''cannot snapshot VM'' (Sentinel ErrNotStopped)) else
     bind (vmDiskPath (hCfg h) vm) (\<lambda>disk.
     let sl = snapshotLayoutOf (hCfg h) name in
     bind (osMkdirAll (snDir sl)) (\<lambda>_.
     bind (wrapping ''copy vm disk'' (copyFile h (snDiskPath sl) disk)) (\<lambda>_.
     CreateSnapshot \<lparr>csName = name, csSourceVMUUID = vmUUID vm, csSourceVM = vmName vm, csStatePath = [],
       csMemPath = [], csDiskPath = snDiskPath sl, csBaseImageID = vmBaseImageID vm, csKernelID = vmKernelID vm,
       csBaseImageMetadata = vmBaseImageMetadata vm\<rparr>))))"

definition SaveSnapshot :: "host \<Rightarrow> CreateSnapshotParams \<Rightarrow> ('z mgr_scheme, Snapshot) prog" where
  "SaveSnapshot h p =
     (if csName p = [] then throw (Msg ''snapshot name is required'') else
      if csSourceVMUUID p = [] then throw (Msg ''source VM is required'') else
      bind (SnapshotExists (csName p)) (\<lambda>ex.
      if ex then throw (Msg ''snapshot already exists'') else
      bind (GetVM (csSourceVMUUID p)) (\<lambda>vm.
      bind (beginVMOperationCancelingColdArchive (vmUUID vm)) (\<lambda>_.
      deferring (endVMOperation (vmUUID vm)) (snapshotGuarded h (csName p) vm)))))"

definition mgrDeleteSnapshot :: "Config \<Rightarrow> string \<Rightarrow> ('z mgr_scheme, unit) prog" where
  "mgrDeleteSnapshot cfg n =
     bind (GetSnapshot n) (\<lambda>_.
     bind (osRemoveAll (snDir (snapshotLayoutOf cfg n))) (\<lambda>_.
     DeleteSnapshot n))"

end
