(* ===== verification/Requests.thy ===== *)
theory Requests
  imports Lifecycle
begin

text \<open>
  What the operations of \<open>Manager\<close> keep, under every pattern of failing calls: the table invariant,
  the operation guards of \<open>beginVMOperation\<close> and the process table. The operations, the end of a
  Firecracker process and the rounds of the cold storage monitor are then the steps of a transition
  system, and the invariant holds in every state it reaches.
\<close>

section \<open>Operations on top of steady steps\<close>

lemma collectErrs_keep [keeps_rules]: "(\<And>x. keeps I (f x)) \<Longrightarrow> keeps I (collectErrs xs f)"
  by (induction xs) (auto intro!: keeps_rules)

lemma joinErrs_keep [keeps_rules]: "keeps I m \<Longrightarrow> keeps I (joinErrs m)"
  unfolding joinErrs_def by (auto intro!: keeps_rules split: list.splits)

lemma removeIfExists_keep [keeps_rules]: "files_blind I \<Longrightarrow> keeps I (removeIfExists p)"
  unfolding removeIfExists_def by (intro keeps_rules)

lemma cold_steady [keeps_rules]:
  assumes "steady I"
  shows "keeps I (archiveDisk cfg vm)" "keeps I (hydrateColdDisk cfg vm)"
  unfolding archiveDisk_def moveToCold_def hydrateColdDisk_def moveToHot_def Let_def
  by (intro keeps_rules steadyD [OF assms] assms)+

lemma stop_steady [keeps_rules]:
  assumes "steady I"
  shows "keeps I (StopVM u)" "keeps I (SleepVM h u)" "keeps I (setVMMemoryTarget vm t)" "keeps I ReconcileStartup"
    "keeps I (choosePrivateIP cfg p)"
  unfolding StopVM_def SleepVM_def setVMMemoryTarget_def ReconcileStartup_def choosePrivateIP_def Let_def
  by (intro keeps_rules steadyD [OF assms] assms)+

lemma resumeVM_steady [keeps_rules]:
  assumes "steady I" and "launchable vm I"
  shows "keeps I (resumeVM h vm)"
  unfolding resumeVM_def Let_def by (intro keeps_rules steadyD [OF assms(1)] assms)

text \<open>The keys of the machine table; a machine with its row under its UUID and its name.\<close>

definition vmKeys :: "'z store_scheme \<Rightarrow> (string \<times> string) list" where
  "vmKeys s = map (\<lambda>r. (cUuid r, cName r)) (vmsT s)"

definition keyed :: "VM \<Rightarrow> 'z store_scheme \<Rightarrow> bool" where
  "keyed vm s \<longleftrightarrow> (vmUUID vm, vmName vm) \<in> set (vmKeys s)"

lemma vmKeys_update:
  "(\<And>r. cUuid (f r) = cUuid r \<and> cName (f r) = cName r) \<Longrightarrow>
   vmKeys (s\<lparr>vmsT := map (\<lambda>r. if cUuid r = u then f r else r) (vmsT s)\<rparr>) = vmKeys s"
  by (simp add: vmKeys_def)

lemma vmKeys_frame [simp]:
  "vmKeys (s\<lparr>outcomes := a\<rparr>) = vmKeys s" "vmKeys (s\<lparr>files := b\<rparr>) = vmKeys s" "vmKeys (t\<lparr>running := c\<rparr>) = vmKeys t"
  "vmKeys (t\<lparr>taps := d\<rparr>) = vmKeys t" "vmKeys (t\<lparr>guests := e\<rparr>) = vmKeys t" "vmKeys (t\<lparr>plugged := f\<rparr>) = vmKeys t"
  "vmKeys (t\<lparr>entropy := g\<rparr>) = vmKeys t" "vmKeys (t\<lparr>guestMemoryReports := h\<rparr>) = vmKeys t"
  "vmKeys (t\<lparr>baseSignature := i, baseMetadata := j\<rparr>) = vmKeys t"
  by (simp_all add: vmKeys_def)

lemma vmKeys_rows: "map (\<lambda>r. (cUuid r, cName r)) rows = vmKeys s \<Longrightarrow> vmKeys (s\<lparr>vmsT := rows\<rparr>) = vmKeys s"
  by (simp add: vmKeys_def)

lemma keeps_keys:
  assumes "\<And>s rs. I (s\<lparr>outcomes := rs\<rparr>) = I s"
    and "\<And>s rows. map (\<lambda>r. (cUuid r, cName r)) rows = vmKeys s \<Longrightarrow> I s \<Longrightarrow> I (s\<lparr>vmsT := rows\<rparr>)"
  shows "keeps I (SetVMState u st)" "keeps I (SetVMArchivedDiskPath u p)"
  unfolding SetVMState_def SetVMArchivedDiskPath_def
  by (rule keeps_updateVMRow; use assms in \<open>simp add: outcome_blind_def vmKeys_def\<close>)+

lemma keyed_steady [simp]: "steady (keyed vm)"
  unfolding steady_def files_blind_def
  by (auto intro!: keeps_keys simp: outcome_blind_def keyed_def) (simp_all add: vmKeys_def flip: set_map)

lemma steady_conj [intro]: "steady I \<Longrightarrow> steady J \<Longrightarrow> steady (\<lambda>s. I s \<and> J s)"
  unfolding steady_def files_blind_def outcome_blind_def by (simp add: keeps_def del: split_paired_All)

lemma keeps_GetVM_bind:
  assumes "outcome_blind I" and "\<And>vm. vmUUID vm = u \<Longrightarrow> keeps (\<lambda>s. I s \<and> keyed vm s) (f vm)"
  shows "keeps I (bind (GetVM u) f)"
proof (rule keeps_wpI)
  fix s assume "I s"
  then have I: "I (s\<lparr>outcomes := rs\<rparr>)" for rs using assms(1) by (simp add: outcome_blind_def)
  show "wp (bind (GetVM u) f) (\<lambda>_. I) (\<lambda>_. I) s"
    unfolding wp_bind
  proof (rule wp_GetVM)
    fix rs r assume "find (\<lambda>r. cUuid r = u) (vmsT s) = Some r"
    then have "r \<in> set (vmsT s)" "cUuid r = u" using find_key by fast+
    then have "keyed (scanVM r) (s\<lparr>outcomes := rs\<rparr>)" "vmUUID (scanVM r) = u"
      by (auto simp: keyed_def vmKeys_def scanVM_def)
    then show "wp (f (scanVM r)) (\<lambda>_. I) (\<lambda>_. I) (s\<lparr>outcomes := rs\<rparr>)"
      using I by (intro wp_mono [OF keeps_wp [OF assms(2)]]) auto
  qed (rule I)
qed

lemma startGuarded_steady [keeps_rules]:
  assumes "steady I" and "\<And>vm. launchable vm (\<lambda>s. I s \<and> keyed vm s)"
  shows "keeps I (startGuarded h u)"
  unfolding startGuarded_def Let_def
  by (rule keeps_GetVM_bind [OF steadyD(2) [OF assms(1)]])
     (intro keeps_rules steadyD [OF steady_conj [OF assms(1) keyed_steady]] steady_conj [OF assms(1) keyed_steady] assms)

section \<open>The guards\<close>

text \<open>
  The state \<open>t\<close> holds no guard that \<open>s\<close> does not hold, and the guards of machines other than \<open>u\<close>
  are those of \<open>s\<close>.
\<close>

definition guardsBack :: "string \<Rightarrow> 'z mgr_scheme \<Rightarrow> 'z mgr_scheme \<Rightarrow> bool" where
  "guardsBack u s t \<longleftrightarrow> set (vmOps t) \<subseteq> set (vmOps s) \<and> set (coldArchives t) \<subseteq> set (coldArchives s) \<and>
     set (vmOps s) \<subseteq> insert u (set (vmOps t)) \<and> set (coldArchives s) \<subseteq> insert u (set (coldArchives t))"

definition guardsAre :: "string list \<Rightarrow> string list \<Rightarrow> 'z mgr_scheme \<Rightarrow> bool" where
  "guardsAre ops as s \<longleftrightarrow> vmOps s = ops \<and> coldArchives s = as"

lemma guardsAre_steady [simp]: "steady (guardsAre ops as)"
  unfolding steady_def files_blind_def guardsAre_def SetVMState_def SetVMArchivedDiskPath_def
  by (auto intro!: keeps_updateVMRow simp: outcome_blind_def)

definition guardTaken :: "string \<Rightarrow> 'z mgr_scheme \<Rightarrow> 'z mgr_scheme \<Rightarrow> bool" where
  "guardTaken u s t \<longleftrightarrow> set (vmOps t) = insert u (set (vmOps s) - {u}) \<and>
     set (coldArchives t) \<subseteq> set (coldArchives s) \<and> set (coldArchives s) \<subseteq> insert u (set (coldArchives t))"

lemma begin_wp:
  shows "wp (beginVMOperationCancelingColdArchive u) (\<lambda>_. guardTaken u s) (\<lambda>_. guardsBack u s) s"
    and "wp (beginStartOperationCancelingColdArchive u) (\<lambda>_. guardTaken u s) (\<lambda>_. guardsBack u s) s"
    and "wp (beginColdArchiveOperation u) (\<lambda>_ t. set (vmOps t) = insert u (set (vmOps s)) \<and>
           set (coldArchives t) = insert u (set (coldArchives s))) (\<lambda>_. guardsBack u s) s"
  unfolding beginVMOperationCancelingColdArchive_def beginStartOperationCancelingColdArchive_def
    beginColdArchiveOperation_def awaitColdArchive_def endColdArchiveOperation_def beginVMOperation_def
  by (auto simp: wp_rules guardTaken_def guardsBack_def isRunning_def procOf_def intro!: wp_ctxCheck_frame)

lemma guarded_wp:
  assumes body: "\<And>ops as. keeps (guardsAre ops as) m"
  shows "wp (bind (beginVMOperationCancelingColdArchive u) (\<lambda>_. deferring (endVMOperation u) m))
           (\<lambda>_. guardsBack u s) (\<lambda>_. guardsBack u s) s"
    and "wp (bind (beginStartOperationCancelingColdArchive u) (\<lambda>_. deferring (endVMOperation u) m))
           (\<lambda>_. guardsBack u s) (\<lambda>_. guardsBack u s) s"
    and "wp (bind (beginColdArchiveOperation u) (\<lambda>_. deferring (endColdArchiveOperation u) m))
           (\<lambda>_. guardsBack u s) (\<lambda>_. guardsBack u s) s"
proof -
  have run: "wp (deferring d m) (\<lambda>_. P) (\<lambda>_. P) t"
    if "\<And>t'. guardsAre (vmOps t) (coldArchives t) t' \<Longrightarrow> wp d (\<lambda>_. P) (\<lambda>_. P) t'" for d t P
    unfolding wp_deferring
    by (rule wp_mono [OF keeps_wp [OF body [of "vmOps t" "coldArchives t"]]]) (auto simp: guardsAre_def intro: that)
  show "wp (bind (beginVMOperationCancelingColdArchive u) (\<lambda>_. deferring (endVMOperation u) m))
      (\<lambda>_. guardsBack u s) (\<lambda>_. guardsBack u s) s"
    by (rule wp_seq [OF begin_wp(1)], rule run)
       (auto simp: endVMOperation_def wp_rules guardsBack_def guardsAre_def guardTaken_def)
  show "wp (bind (beginStartOperationCancelingColdArchive u) (\<lambda>_. deferring (endVMOperation u) m))
      (\<lambda>_. guardsBack u s) (\<lambda>_. guardsBack u s) s"
    by (rule wp_seq [OF begin_wp(2)], rule run)
       (auto simp: endVMOperation_def wp_rules guardsBack_def guardsAre_def guardTaken_def)
  show "wp (bind (beginColdArchiveOperation u) (\<lambda>_. deferring (endColdArchiveOperation u) m))
      (\<lambda>_. guardsBack u s) (\<lambda>_. guardsBack u s) s"
    by (rule wp_seq [OF begin_wp(3)], rule run)
       (auto simp: endColdArchiveOperation_def wp_rules guardsBack_def guardsAre_def guardTaken_def)
qed

lemma wp_snd: "wp m (\<lambda>_. P) (\<lambda>_. P) s \<longleftrightarrow> P (snd (m s))"
  by (simp add: wp_def split: prod.splits sum.splits)

lemma guardsBack_outcomes [simp]: "guardsBack u s (s\<lparr>outcomes := rs\<rparr>)" "guardsBack u s s"
  "guardsBack u (s\<lparr>outcomes := rs\<rparr>) = guardsBack u s"
  by (auto simp: guardsBack_def)

lemma guardsAre_launchable: "launchable vm (\<lambda>s. guardsAre ops as s \<and> keyed vm s)"
  by (simp add: launchable_def guardsAre_def keyed_def)

lemma guardsAre_blind: "outcome_blind (guardsAre ops as)"
  by (rule steadyD) simp

lemma tables_keep_guards:
  shows "keeps (guardsAre ops as) (DeleteVM u)" "keeps (guardsAre ops as) (DeleteRoutesForVM u)"
    "keeps (guardsAre ops as) (CreateSnapshot p)"
  unfolding DeleteVM_def DeleteRoutesForVM_def CreateSnapshot_def
  by (intro keeps_rules keeps_exec keeps_modify guardsAre_blind; simp add: guardsAre_def)+

lemma guarded_bodies:
  shows "keeps (guardsAre ops as) (deleteGuarded cfg u vm)" "keeps (guardsAre ops as) (snapshotGuarded h n vm)"
    "keeps (guardsAre ops as) (startGuarded h u)"
  unfolding deleteGuarded_def snapshotGuarded_def Let_def
  by (intro keeps_rules keeps_modify tables_keep_guards guardsAre_launchable steadyD [OF guardsAre_steady] guardsAre_steady;
      simp add: guardsAre_def)+

lemma vmUUID_found: "find (\<lambda>r. cUuid r = u) rows = Some r \<Longrightarrow> vmUUID (scanVM r) = u"
  using find_key by (fastforce simp: scanVM_def)

lemma guarded_later:
  assumes "\<And>ops as. keeps (guardsAre ops as) m"
  shows "wp (bind (beginVMOperationCancelingColdArchive u) (\<lambda>_. deferring (endVMOperation u) m))
           (\<lambda>_. guardsBack u s) (\<lambda>_. guardsBack u s) (s\<lparr>outcomes := rs\<rparr>)"
  using guarded_wp(1) [of m u "s\<lparr>outcomes := rs\<rparr>"] assms by simp

lemma guards_back:
  shows "guardsBack u s (snd (StartVM h u s))" "guardsBack u s (snd (mgrDeleteVM cfg u s))"
    "guardsBack (csSourceVMUUID p) s (snd (SaveSnapshot h p s))" "guardsBack u s (snd (ArchiveStoppedVM cfg u now s))"
proof -
  show "guardsBack u s (snd (StartVM h u s))"
    unfolding StartVM_def wp_snd [symmetric] by (intro guarded_wp guarded_bodies)
  show "guardsBack u s (snd (mgrDeleteVM cfg u s))"
    unfolding mgrDeleteVM_def wp_snd [symmetric] wp_bind
    by (auto intro!: wp_GetVM guarded_later guarded_bodies simp: wp_bind [symmetric])
  show "guardsBack (csSourceVMUUID p) s (snd (SaveSnapshot h p s))"
    unfolding SaveSnapshot_def SnapshotExists_def wp_snd [symmetric] wp_bind wp_if wp_throw
    by (auto intro!: wp_query_frame wp_GetVM guarded_later guarded_bodies
        simp: wp_if wp_throw wp_bind [symmetric] vmUUID_found)
  have "keeps (guardsAre ops as) (bind (GetVM u) (\<lambda>vm.
      if \<not> shouldArchiveStoppedVM cfg vm now then ret () else
      bind (gets (\<lambda>s. isRunning s (vmUUID vm))) (\<lambda>r. if r then ret () else archiveDisk cfg vm)))" for ops as
    by (intro keeps_rules guardsAre_blind guardsAre_steady)
  then show "guardsBack u s (snd (ArchiveStoppedVM cfg u now s))"
    unfolding ArchiveStoppedVM_def wp_snd [symmetric] by (auto simp: wp_ret intro: guarded_wp(3))
qed

text \<open>
  C14: The operations that take the guard of a machine give it back, on success, on every error and
  when their context is cancelled: \<open>StartVM\<close>, \<open>DeleteVM\<close>, \<open>SaveSnapshot\<close> and \<open>ArchiveStoppedVM\<close> leave no
  guard behind that was not held before, and never touch the guard of another machine. (A guard
  that is left behind would make every later operation on the machine fail.)
\<close>

theorem guards_released:
  "guardsBack u s (snd (StartVM h u s)) \<and> guardsBack u s (snd (mgrDeleteVM cfg u s)) \<and>
   guardsBack (csSourceVMUUID p) s (snd (SaveSnapshot h p s)) \<and> guardsBack u s (snd (ArchiveStoppedVM cfg u now s))"
  by (intro conjI guards_back)

section \<open>Stopping\<close>

lemma notRunning_steady [simp]: "steady (\<lambda>s. \<not> isRunning s u)"
  unfolding steady_def files_blind_def isRunning_def procOf_def
  by (auto intro!: keeps_keys simp: outcome_blind_def find_None_iff)

lemma wp_ignoring_any: "(\<And>t. Q () t) \<Longrightarrow> wp (ignoring m) Q E s"
  by (simp add: wp_def ignoring_def split: prod.splits)

lemma processExit_ends: "wp (processExit p) (\<lambda>_ t. \<not> isRunning t (procUUID p)) E s"
  unfolding processExit_def Let_def wp_bind wp_gets wp_modify
  by (intro wp_ignoring_any) (simp add: isRunning_def procOf_def find_None_iff)

lemma wp_keeps_after: "keeps I m \<Longrightarrow> I s \<Longrightarrow> wp m (\<lambda>_. I) (\<lambda>_ _. True) s"
  by (rule wp_mono [OF keeps_wp]) auto

lemma procOf_uuid: "procOf s u = Some p \<Longrightarrow> procUUID p = u"
  unfolding procOf_def by (auto simp: find_Some_iff)

lemma procOf_None: "procOf s u = None \<Longrightarrow> \<not> isRunning s u"
  by (simp add: isRunning_def)

lemma StopVM_stops: "wp (StopVM u) (\<lambda>_ t. \<not> isRunning t u) (\<lambda>_ _. True) s"
proof -
  let ?I = "\<lambda>t. \<not> isRunning t u"
  have exit: "wp (waitForProcessExit p) (\<lambda>_. ?I) (\<lambda>_ _. True) t" if "procUUID p = u" for p t
    unfolding waitForProcessExit_def wp_bind wp_gets wp_if wp_ret
    using processExit_ends [of p] that by (auto intro!: wp_ctxCheck_frame)
  have stop: "wp (bind (ignoring (firecrackerAction a)) (\<lambda>_. bind (waitForProcessExit p) (\<lambda>_.
      bind (ignoring (cleanupAfterExit p)) (\<lambda>_. SetVMState u ''stopped'')))) (\<lambda>_. ?I) (\<lambda>_ _. True) t"
    if "procUUID p = u" for p t a
  proof -
    have "keeps ?I (bind (ignoring (cleanupAfterExit p)) (\<lambda>_. SetVMState u ''stopped''))"
      by (intro keeps_rules steadyD [OF notRunning_steady] notRunning_steady)
    then show ?thesis
      unfolding wp_bind [of "ignoring (firecrackerAction a)"]
      by (intro wp_ignoring_any wp_seq [OF exit [OF that]] wp_keeps_after) auto
  qed
  show ?thesis
    unfolding StopVM_def wp_bind [of "GetVM u"] wp_bind [of "gets f" for f] wp_gets
    by (rule wp_GetVM) (auto intro!: stop wp_keeps_after [OF steadyD(13) [OF notRunning_steady]]
        simp: procOf_None procOf_uuid split: option.splits)
qed

section \<open>The process table\<close>

text \<open>Every process belongs to a machine of the table, and a machine has at most one.\<close>

definition procsOK :: "'z mgr_scheme \<Rightarrow> bool" where
  "procsOK s \<longleftrightarrow> distinct (map procUUID (running s)) \<and> (\<forall>p \<in> set (running s). (procUUID p, procName p) \<in> set (vmKeys s))"

lemma procsOK_steady [simp]: "steady procsOK"
  unfolding steady_def files_blind_def
  by (auto intro!: keeps_keys simp: outcome_blind_def procsOK_def distinct_map_filter vmKeys_rows map_if_key simp del: map_map)

lemma procsOK_launchable: "launchable vm (\<lambda>s. procsOK s \<and> keyed vm s)"
  by (auto simp: launchable_def procsOK_def keyed_def distinct_map_filter)

section \<open>Operations as steps\<close>

text \<open>A predicate that the guarded operations keep as well.\<close>

definition sturdy :: "('z mgr_scheme \<Rightarrow> bool) \<Rightarrow> bool" where
  "sturdy I \<longleftrightarrow> steady I \<and> (\<forall>h u. keeps I (StartVM h u)) \<and> (\<forall>cfg u now. keeps I (ArchiveStoppedVM cfg u now))"

lemma sturdyD:
  assumes "sturdy I"
  shows "steady I" "keeps I (StartVM h u)" "keeps I (ArchiveStoppedVM cfg u now)"
  using assms by (simp_all add: sturdy_def)

lemma sturdy_ops [keeps_rules]:
  assumes "sturdy I"
  shows "keeps I (RebootVM h u)" "keeps I (SleepRunningVMs h)" "keeps I (StartVMs h ns)" "keeps I (ColdStorageMonitor_Run cfg ticks)"
    "keeps I (RecordVMMemoryReportByPrivateIP ip t rep)"
  unfolding RebootVM_def SleepRunningVMs_def RunningVMNames_def StartVMs_def ColdStorageMonitor_Run_def
    ColdStorageMonitor_check_def RecordVMMemoryReportByPrivateIP_def Let_def
  by ((intro keeps_rules keeps_modify sturdyD [OF assms] steadyD [OF sturdyD(1) [OF assms]]);
      simp add: steadyD [OF sturdyD(1) [OF assms]])+

lemma sturdyI:
  assumes "steady I" and "\<And>vm. launchable vm (\<lambda>s. I s \<and> keyed vm s)"
    and "\<And>s ops. I (s\<lparr>vmOps := ops\<rparr>) = I s" and "\<And>s as. I (s\<lparr>coldArchives := as\<rparr>) = I s"
  shows "sturdy I"
proof -
  have g: "keeps I (beginStartOperationCancelingColdArchive u)" "keeps I (endVMOperation u)"
    "keeps I (beginColdArchiveOperation u)" "keeps I (endColdArchiveOperation u)" for u
    using assms(3,4) steadyD(2) [OF assms(1)] by (intro guards_steady; simp)+
  show ?thesis
    unfolding sturdy_def StartVM_def ArchiveStoppedVM_def
    by (intro conjI allI keeps_rules g assms(1,2) steadyD [OF assms(1)])
qed

lemma wfStore_sturdy [simp]: "sturdy wfStore"
proof (rule sturdyI)
  show "steady wfStore"
    unfolding steady_def files_blind_def by (auto intro!: keeps_rules simp: wfStore_def)
qed (simp_all add: launchable_def wfStore_def keyed_def vmKeys_def)

lemma procsOK_sturdy [simp]: "sturdy procsOK"
  by (rule sturdyI [OF procsOK_steady procsOK_launchable]) (simp_all add: procsOK_def vmKeys_def)

lemma guardsBack_empty: "(\<And>s. guardsBack u s (snd (m s))) \<Longrightarrow> keeps (guardsAre [] []) m"
  unfolding keeps_def guardsAre_def guardsBack_def by (metis set_empty subset_empty)

lemma guards_sturdy [simp]: "sturdy (guardsAre [] [])"
  unfolding sturdy_def using guards_back by (intro conjI allI guardsAre_steady) (blast intro: guardsBack_empty)+

lemmas sturdy_simps = sturdyD(1) [OF wfStore_sturdy]
  steadyD(1,2) [OF sturdyD(1), OF wfStore_sturdy] steadyD(1,2) [OF procsOK_steady] steadyD(1,2) [OF guardsAre_steady]

section \<open>Operations on the tables\<close>

lemma mgr_tables_wf [keeps_rules]:
  shows "keeps wfStore (mgrCreateVM h n p)" "keeps wfStore (RestoreSnapshot h n sn p)" "keeps wfStore (mgrUpdateVM u up)"
    "keeps wfStore (mgrDeleteVM cfg u)" "keeps wfStore (SaveSnapshot h sp)" "keeps wfStore (mgrDeleteSnapshot cfg sn)"
proof -
  have g: "keeps wfStore (beginVMOperationCancelingColdArchive u)" "keeps wfStore (endVMOperation u)" for u
    by (intro guards_steady sturdy_simps; simp add: wfStore_def)+
  show "keeps wfStore (mgrCreateVM h n p)" "keeps wfStore (RestoreSnapshot h n sn p)" "keeps wfStore (mgrUpdateVM u up)"
    "keeps wfStore (mgrDeleteSnapshot cfg sn)"
    unfolding mgrCreateVM_def storeVM_def RestoreSnapshot_def mgrUpdateVM_def mgrDeleteSnapshot_def Let_def
    by (intro keeps_rules sturdy_simps)+
  show "keeps wfStore (mgrDeleteVM cfg u)" "keeps wfStore (SaveSnapshot h sp)"
    unfolding mgrDeleteVM_def SaveSnapshot_def deleteGuarded_def snapshotGuarded_def Let_def
    by (intro keeps_rules keeps_modify g sturdy_simps; simp add: wfStore_def)+
qed

text \<open>A predicate that writes keep which remove no machine.\<close>

definition growing :: "('z mgr_scheme \<Rightarrow> bool) \<Rightarrow> bool" where
  "growing I \<longleftrightarrow> sturdy I \<and>
     (\<forall>s rows. set (vmKeys s) \<subseteq> set (map (\<lambda>r. (cUuid r, cName r)) rows) \<longrightarrow> I s \<longrightarrow> I (s\<lparr>vmsT := rows\<rparr>)) \<and>
     (\<forall>s x. I (s\<lparr>routesT := x\<rparr>) = I s) \<and> (\<forall>s x. I (s\<lparr>snapshotsT := x\<rparr>) = I s) \<and> (\<forall>s x. I (s\<lparr>protectionsT := x\<rparr>) = I s)"

lemma growingD:
  assumes "growing I"
  shows "sturdy I" "steady I" "outcome_blind I" "files_blind I"
    "set (vmKeys s) \<subseteq> set (map (\<lambda>r. (cUuid r, cName r)) rows) \<Longrightarrow> I s \<Longrightarrow> I (s\<lparr>vmsT := rows\<rparr>)"
    "I (s\<lparr>routesT := x\<rparr>) = I s" "I (s\<lparr>snapshotsT := y\<rparr>) = I s" "I (s\<lparr>protectionsT := z\<rparr>) = I s"
  using assms steadyD(1,2) [OF sturdyD(1)] sturdyD(1) by (auto simp: growing_def)

lemma growing_writes [keeps_rules]:
  assumes "growing I"
  shows "keeps I (TouchVMActivity u)" "keeps I (UpdateVM u up)" "keeps I (CreateVM f n cp)" "keeps I (CreateRoute rp)"
    "keeps I (DeleteRoute rn)" "keeps I (DeleteRoutesForVM u)" "keeps I (CreateSnapshot sp)" "keeps I (DeleteSnapshot sn)"
    "keeps I (ProtectRouteHostname hn)" "keeps I (UnprotectRouteHostname hn)"
proof -
  note g = growingD [OF assms]
  have update: "keeps I (updateVMRow u k)" if "\<And>s r. cUuid (k s r) = cUuid r \<and> cName (k s r) = cName r" for u k
    by (rule keeps_updateVMRow [OF g(3)], rule g(5)) (use that in \<open>auto simp: vmKeys_def\<close>)
  show "keeps I (TouchVMActivity u)" "keeps I (UpdateVM u up)"
    unfolding TouchVMActivity_def UpdateVM_def Let_def by (intro keeps_rules update g; simp)+
  show "keeps I (CreateVM f n cp)"
    unfolding CreateVM_def by (intro keeps_rules keeps_exec g; (rule g(5))?; auto simp: vmKeys_def)
  show "keeps I (CreateRoute rp)"
    "keeps I (DeleteRoute rn)" "keeps I (DeleteRoutesForVM u)" "keeps I (CreateSnapshot sp)" "keeps I (DeleteSnapshot sn)"
    "keeps I (ProtectRouteHostname hn)" "keeps I (UnprotectRouteHostname hn)"
    unfolding CreateRoute_def DeleteRoute_def DeleteRoutesForVM_def CreateSnapshot_def DeleteSnapshot_def
      ProtectRouteHostname_def UnprotectRouteHostname_def Let_def
    by (intro keeps_rules keeps_exec keeps_modify g(3); simp add: g)+
qed

lemma growing_ops [keeps_rules]:
  assumes "growing I"
  shows "keeps I (mgrCreateVM h n p)" "keeps I (RestoreSnapshot h n sn p)" "keeps I (mgrUpdateVM u up)"
    "keeps I (mgrDeleteSnapshot cfg sn)"
  unfolding mgrCreateVM_def storeVM_def RestoreSnapshot_def mgrUpdateVM_def mgrDeleteSnapshot_def Let_def
  by (intro keeps_rules assms growingD [OF assms])+

lemma growing_instances [simp]: "growing procsOK" "growing (guardsAre [] [])"
  by (auto simp: growing_def procsOK_def guardsAre_def vmKeys_def)

lemma guarded_ops_guards [keeps_rules]:
  "keeps (guardsAre [] []) (mgrDeleteVM cfg u)" "keeps (guardsAre [] []) (SaveSnapshot h p)"
  by (rule guardsBack_empty, rule guards_back)+

lemma deleteGuarded_procs: "keeps (procsOK :: 'z mgr_scheme \<Rightarrow> bool) (deleteGuarded cfg u vm)"
proof (rule keeps_wpI)
  let ?I = "\<lambda>s :: 'z mgr_scheme. procsOK s \<and> \<not> isRunning s u"
  have st: "steady ?I" by (intro steady_conj procsOK_steady notRunning_steady)
  have rows: "keeps ?I (DeleteRoutesForVM u)" "keeps ?I (DeleteVM u)"
    "keeps ?I (modify (\<lambda>s. s\<lparr>guestMemoryReports := filter (\<lambda>e. fst e \<noteq> u) (guestMemoryReports s)\<rparr>))"
    unfolding DeleteRoutesForVM_def DeleteVM_def
    by (intro keeps_rules keeps_exec keeps_modify steadyD(2) [OF st];
        auto simp: procsOK_def vmKeys_def isRunning_def procOf_def find_None_iff; blast)+
  fix s :: "'z mgr_scheme" assume s: "procsOK s"
  have "wp (if isRunning s u then StopVM u else ret ()) (\<lambda>_. ?I) (\<lambda>_. procsOK) s"
    using wp_conj [OF StopVM_stops [of u] keeps_wp [OF stop_steady(1) [OF procsOK_steady, of u] s]] s
    by (simp add: wp_ret conj_commute)
  then show "wp (deleteGuarded cfg u vm) (\<lambda>_. procsOK) (\<lambda>_. procsOK) s"
    unfolding deleteGuarded_def wp_bind [of "gets f" for f] wp_gets
    by (rule wp_seq) (intro wp_mono [OF keeps_wp [of ?I]] keeps_rules rows steadyD [OF st]; simp)+
qed

lemma guarded_ops_procs [keeps_rules]:
  shows "keeps procsOK (mgrDeleteVM cfg u)" "keeps procsOK (SaveSnapshot h p)"
  unfolding mgrDeleteVM_def SaveSnapshot_def snapshotGuarded_def Let_def
  by (intro keeps_rules deleteGuarded_procs growing_instances procsOK_steady steadyD [OF procsOK_steady];
      simp add: procsOK_def vmKeys_def)+

section \<open>The transition system\<close>

datatype request =
    Create string CreateVMParams | Restore string string CreateVMParams | Update string UpdateVMParams | Delete string
  | Start string | Stop string | Sleep string | Reboot string
  | Snap CreateSnapshotParams | DropSnapshot string | Report string "int option" GuestMemoryReport
  | StartAll "string list" | SleepAll | Reconcile | Archive "int list" | Exited Process
  | Touch string | AddRoute CreateRouteParams | DropRoute string | Protect string | Unprotect string

text \<open>The operation a request stands for, its result dropped.\<close>

definition perform :: "host \<Rightarrow> request \<Rightarrow> ('z mgr_scheme, unit) prog" where
  "perform h req = (case req of
      Create n p \<Rightarrow> ignoring (mgrCreateVM h n p)
    | Restore n sn p \<Rightarrow> ignoring (RestoreSnapshot h n sn p)
    | Update u p \<Rightarrow> ignoring (mgrUpdateVM u p)
    | Delete u \<Rightarrow> ignoring (mgrDeleteVM (hCfg h) u)
    | Start u \<Rightarrow> ignoring (StartVM h u)
    | Stop u \<Rightarrow> ignoring (StopVM u)
    | Sleep u \<Rightarrow> ignoring (SleepVM h u)
    | Reboot u \<Rightarrow> ignoring (RebootVM h u)
    | Snap p \<Rightarrow> ignoring (SaveSnapshot h p)
    | DropSnapshot n \<Rightarrow> ignoring (mgrDeleteSnapshot (hCfg h) n)
    | Report ip t r \<Rightarrow> ignoring (RecordVMMemoryReportByPrivateIP ip t r)
    | StartAll ns \<Rightarrow> ignoring (StartVMs h ns)
    | SleepAll \<Rightarrow> ignoring (SleepRunningVMs h)
    | Reconcile \<Rightarrow> ignoring ReconcileStartup
    | Archive ticks \<Rightarrow> ignoring (ColdStorageMonitor_Run (hCfg h) ticks)
    | Exited p \<Rightarrow> ignoring (processExit p)
    | Touch u \<Rightarrow> ignoring (TouchVMActivity u)
    | AddRoute p \<Rightarrow> ignoring (CreateRoute p)
    | DropRoute n \<Rightarrow> ignoring (DeleteRoute n)
    | Protect n \<Rightarrow> ignoring (ProtectRouteHostname n)
    | Unprotect n \<Rightarrow> ignoring (UnprotectRouteHostname n))"

text \<open>
  The states a daemon reaches from \<open>s\<close>: requests come in any order with any pattern of failures,
  and between them time passes and the world outside (the pending outcomes, the files) changes.
\<close>

inductive reachable :: "host \<Rightarrow> 'z mgr_scheme \<Rightarrow> 'z mgr_scheme \<Rightarrow> bool" for h s where
  start: "reachable h s s"
| handle: "reachable h s t \<Longrightarrow> reachable h s (snd (perform h req t))"
| pass: "reachable h s t \<Longrightarrow> reachable h s (t\<lparr>clock := c, sqlnow := q, outcomes := rs, files := fs\<rparr>)"

definition serviceInv :: "'z mgr_scheme \<Rightarrow> bool" where
  "serviceInv s \<longleftrightarrow> wfStore s \<and> procsOK s \<and> guardsAre [] [] s"

lemma perform_growing:
  assumes "growing I" and "\<And>cfg u. keeps I (mgrDeleteVM cfg u)" and "\<And>h p. keeps I (SaveSnapshot h p)"
  shows "keeps I (perform h req)"
  unfolding perform_def
  by (cases req; simp only: request.case;
      intro keeps_rules assms growingD [OF assms(1)] sturdyD [OF growingD(1) [OF assms(1)]] steadyD [OF growingD(2) [OF assms(1)]])

lemma perform_keeps:
  "keeps wfStore (perform h req)" "keeps procsOK (perform h req)" "keeps (guardsAre [] []) (perform h req)"
proof -
  show "keeps wfStore (perform h req)"
    unfolding perform_def
    by (cases req; simp only: request.case; intro keeps_rules wfStore_sturdy sturdyD [OF wfStore_sturdy])
qed (intro perform_growing growing_instances keeps_rules)+

lemma perform_serviceInv: "serviceInv s \<Longrightarrow> serviceInv (snd (perform h req s))"
  unfolding serviceInv_def by (blast intro: keepsD [OF perform_keeps(1)] keepsD [OF perform_keeps(2)] keepsD [OF perform_keeps(3)])

text \<open>
  C2: In every state the service reaches from an empty one, whatever requests arrive in whatever
  order, whichever of their calls fail and whenever Firecracker processes die: the table invariant
  holds, every process belongs to a machine that exists under the process's UUID and name, a
  machine has at most one process, and no guard is held between operations.
\<close>

theorem reachable_serviceInv:
  assumes "serviceInv s" and "reachable h s t"
  shows "serviceInv t"
  using assms(2)
proof (induction rule: reachable.induct)
  case (handle t req)
  then show ?case by (simp add: perform_serviceInv)
qed (use assms(1) in \<open>auto simp: serviceInv_def wfStore_def procsOK_def vmKeys_def guardsAre_def\<close>)

text \<open>A service with one stopped machine, which then is snapshotted and deleted.\<close>

definition oneMachine :: mgr where
  "oneMachine = sampleMgr\<lparr>vmsT := [vmRowOf ''2026-01-01T00:00:00.000Z'' ''u1'' sampleParams]\<rparr>"

lemma oneMachine_ok: "serviceInv oneMachine"
  by (auto simp: oneMachine_def serviceInv_def wfStore_def procsOK_def guardsAre_def)

lemma reachable_serviceInv_witness:
  "\<exists>t. reachable sampleHost oneMachine t \<and> serviceInv t \<and> vmsT t = []"
proof -
  let ?t = "snd (perform sampleHost (Delete ''u1'') oneMachine)"
  have "reachable sampleHost oneMachine ?t" by (intro reachable.intros)
  moreover from oneMachine_ok this have "serviceInv ?t" by (rule reachable_serviceInv)
  moreover have "vmsT ?t = []" by code_simp
  ultimately show ?thesis by blast
qed

end
