(* ===== verification/Lifecycle_Results.thy ===== *)
theory Lifecycle_Results
  imports Requests
begin

text \<open>
  What the operations of \<open>Manager\<close> have done when they report success, and that a machine that is put
  to sleep and woken goes on from the state it was in.
\<close>

section \<open>Deletion\<close>

text \<open>Nothing is left of the machine of row \<open>r\<close>.\<close>

definition gone :: "Config \<Rightarrow> vmRow \<Rightarrow> 'z mgr_scheme \<Rightarrow> bool" where
  "gone cfg r t \<longleftrightarrow> \<not> isRunning t (cUuid r) \<and> (\<forall>x \<in> set (vmsT t). cUuid x \<noteq> cUuid r) \<and>
     (\<forall>x \<in> set (routesT t). rVmUuid x \<noteq> cUuid r) \<and> cUuid r \<notin> fst ` set (guestMemoryReports t) \<and>
     (\<forall>p. below (vmDir (layoutOf cfg (cName r))) p \<longrightarrow> look t p = None) \<and>
     (cArchivedDiskPath r \<noteq> [] \<longrightarrow> look t (cArchivedDiskPath r) = None) \<and>
     (coldVMDir cfg (cName r) \<noteq> [] \<longrightarrow> (\<forall>p. below (coldVMDir cfg (cName r)) p \<longrightarrow> look t p = None))"

text \<open>The paths that belong to the machine of row \<open>r\<close>.\<close>

definition ownPath :: "Config \<Rightarrow> 'z mgr_scheme \<Rightarrow> vmRow \<Rightarrow> string \<Rightarrow> bool" where
  "ownPath cfg s r q \<longleftrightarrow> below (vmDir (layoutOf cfg (cName r))) q \<or> cArchivedDiskPath r \<noteq> [] \<and> q = cArchivedDiskPath r \<or>
     coldVMDir cfg (cName r) \<noteq> [] \<and> below (coldVMDir cfg (cName r)) q \<or>
     (\<exists>p \<in> set (running s). procUUID p = cUuid r \<and> q = procSocketPath p)"

text \<open>From \<open>s\<close> to \<open>t\<close> nothing has changed but rows and processes of the machine \<open>u\<close> and the paths in \<open>own\<close>.\<close>

definition restAsBefore :: "string \<Rightarrow> (string \<Rightarrow> bool) \<Rightarrow> 'z mgr_scheme \<Rightarrow> 'z mgr_scheme \<Rightarrow> bool" where
  "restAsBefore u own s t \<longleftrightarrow> filter (\<lambda>r. cUuid r \<noteq> u) (vmsT t) = filter (\<lambda>r. cUuid r \<noteq> u) (vmsT s) \<and>
     filter (\<lambda>r. rVmUuid r \<noteq> u) (routesT t) = filter (\<lambda>r. rVmUuid r \<noteq> u) (routesT s) \<and>
     snapshotsT t = snapshotsT s \<and> protectionsT t = protectionsT s \<and>
     filter (\<lambda>p. procUUID p \<noteq> u) (running t) = filter (\<lambda>p. procUUID p \<noteq> u) (running s) \<and> set (running t) \<subseteq> set (running s) \<and>
     (\<forall>q. \<not> own q \<longrightarrow> look t q = look s q)"

lemma keysAre_steady [simp]: "steady (\<lambda>s. vmKeys s = ks)"
  unfolding steady_def files_blind_def
  by (auto intro!: keeps_keys simp: outcome_blind_def vmKeys_rows)

lemma rest_frame [simp]:
  "restAsBefore u own s (t\<lparr>outcomes := a\<rparr>) = restAsBefore u own s t" "restAsBefore u own s (t\<lparr>taps := b\<rparr>) = restAsBefore u own s t"
  "restAsBefore u own s (t\<lparr>vmOps := c\<rparr>) = restAsBefore u own s t" "restAsBefore u own s (t\<lparr>coldArchives := d\<rparr>) = restAsBefore u own s t"
  "restAsBefore u own s (t\<lparr>guestMemoryReports := e\<rparr>) = restAsBefore u own s t" "restAsBefore u own s s"
  by (simp_all add: restAsBefore_def)

lemma rest_blind [simp]: "outcome_blind (restAsBefore u own s)"
  by (simp add: outcome_blind_def)

lemma rest_files:
  "own p \<Longrightarrow> keeps (restAsBefore u own s) (osRemove p)" "own p \<Longrightarrow> keeps (restAsBefore u own s) (removeIfExists p)"
  "(\<And>q. below p q \<Longrightarrow> own q) \<Longrightarrow> keeps (restAsBefore u own s) (osRemoveAll p)"
proof -
  show rm: "keeps (restAsBefore u own s) (osRemove p)" if "own p"
    by (rule keeps_wpI, rule wp_osRemove) (use that in \<open>auto simp: restAsBefore_def\<close>)
  show "keeps (restAsBefore u own s) (removeIfExists p)" if "own p"
    unfolding removeIfExists_def by (intro keeps_rules rm that)
  show "keeps (restAsBefore u own s) (osRemoveAll p)" if "\<And>q. below p q \<Longrightarrow> own q"
    by (rule keeps_wpI, rule wp_osRemoveAll) (use that in \<open>auto simp: restAsBefore_def\<close>)
qed

lemma filter_map_other: "(\<And>r. cUuid (f r) = cUuid r) \<Longrightarrow>
    filter (\<lambda>r. cUuid r \<noteq> u) (map (\<lambda>r. if cUuid r = u then f r else r) rows) = filter (\<lambda>r. cUuid r \<noteq> u) rows"
  by (induction rows) auto

lemma rest_tables:
  "keeps (restAsBefore u own s) (SetVMState u st)" "keeps (restAsBefore u own s) (DeleteRoutesForVM u)"
  "keeps (restAsBefore u own s) (DeleteVM u)"
proof -
  show "keeps (restAsBefore u own s) (SetVMState u st)"
    unfolding SetVMState_def by (rule keeps_updateVMRow) (simp_all add: restAsBefore_def filter_map_other)
  show "keeps (restAsBefore u own s) (DeleteRoutesForVM u)" "keeps (restAsBefore u own s) (DeleteVM u)"
    unfolding DeleteRoutesForVM_def DeleteVM_def
    by (intro keeps_rules keeps_exec keeps_modify rest_blind; simp add: restAsBefore_def)+
qed

lemma rest_StopVM:
  assumes "\<And>p. p \<in> set (running s) \<Longrightarrow> procUUID p = u \<Longrightarrow> own (procSocketPath p)"
  shows "keeps (restAsBefore u own s) (StopVM u)"
proof (rule keeps_wpI)
  let ?I = "restAsBefore u own s"
  have clean: "keeps ?I (cleanupAfterExit p)" if "own (procSocketPath p)" for p
    unfolding cleanupAfterExit_def cleanupNetwork_def deleteTap_def
    using that by (intro keeps_rules keeps_modify rest_files rest_blind; simp)
  have exit: "keeps ?I (processExit p)" if "own (procSocketPath p)" "procUUID p = u" for p
    unfolding processExit_def Let_def that(2)
    by (intro keeps_rules keeps_modify clean that rest_tables; auto simp: restAsBefore_def)
  have stop: "keeps ?I (bind (ignoring (firecrackerAction a)) (\<lambda>_. bind (waitForProcessExit p) (\<lambda>_.
      bind (ignoring (cleanupAfterExit p)) (\<lambda>_. SetVMState u ''stopped''))))" if "own (procSocketPath p)" "procUUID p = u" for a p
    unfolding waitForProcessExit_def firecrackerAction_def by (intro keeps_rules exit clean rest_tables rest_blind that)
  fix t assume t: "?I t"
  have "own (procSocketPath p)" if "procOf t u = Some p" for p
  proof -
    have "p \<in> set (running t)" using that by (auto simp: procOf_def find_Some_iff)
    then show ?thesis using t assms [of p] procOf_uuid [OF that] by (auto simp: restAsBefore_def)
  qed
  moreover have "procOf (t\<lparr>outcomes := rs\<rparr>) u = procOf t u" for rs by (simp add: procOf_def)
  ultimately show "wp (StopVM u) (\<lambda>_. ?I) (\<lambda>_. ?I) t"
    unfolding StopVM_def wp_bind [of "GetVM u"] wp_bind [of "gets f" for f] wp_gets
    using t by (intro wp_GetVM) (auto intro!: keeps_wp stop rest_tables dest: procOf_uuid split: option.splits)
qed

lemma rest_delete:
  assumes "cUuid r = u"
  shows "keeps (restAsBefore u (ownPath cfg s r) s) (deleteGuarded cfg u (scanVM r))"
  unfolding deleteGuarded_def
  by (intro keeps_bind keeps_gets keeps_modify rest_tables)
     (auto simp: ownPath_def scanVM_def assms intro!: keeps_ret rest_StopVM rest_files)

lemma deleteGuarded_gone:
  assumes "cUuid r = u"
  shows "wp (deleteGuarded cfg u (scanVM r)) (\<lambda>_. gone cfg r) (\<lambda>_ _. True) s"
proof -
  let ?I = "\<lambda>s. \<not> isRunning s u"
  have stop: "wp (if isRunning s u then StopVM u else ret ()) (\<lambda>_. ?I) (\<lambda>_ _. True) s"
    using StopVM_stops [of u] by (auto simp: wp_ret)
  have rest: "wp (bind (osRemoveAll (vmDir (layoutOf cfg (cName r)))) (\<lambda>_.
      bind (if cArchivedDiskPath r \<noteq> [] then removeIfExists (cArchivedDiskPath r) else ret ()) (\<lambda>_.
      bind (if coldVMDir cfg (cName r) \<noteq> [] then osRemoveAll (coldVMDir cfg (cName r)) else ret ()) (\<lambda>_.
      bind (DeleteRoutesForVM u) (\<lambda>_. bind (DeleteVM u) (\<lambda>_.
      modify (\<lambda>s. s\<lparr>guestMemoryReports := filter (\<lambda>e. fst e \<noteq> u) (guestMemoryReports s)\<rparr>)))))))
     (\<lambda>_. gone cfg r) (\<lambda>_ _. True) t" if "?I t" for t
    using that assms unfolding DeleteRoutesForVM_def DeleteVM_def
    by (auto simp: wp_rules gone_def isRunning_def procOf_def
        intro!: wp_osRemoveAll wp_removeIfExists wp_exec_frame wp_query_frame wp_call_frame)
  show ?thesis
    unfolding deleteGuarded_def wp_bind [of "gets f" for f] wp_gets
    by (rule wp_seq [OF stop]) (use rest in \<open>auto simp: scanVM_def\<close>)
qed

lemma gone_endVMOperation [simp]: "gone cfg r (t\<lparr>vmOps := ops\<rparr>) = gone cfg r t"
  by (simp add: gone_def isRunning_def procOf_def)

lemma vmKeys_guards [simp]: "vmKeys (t\<lparr>vmOps := ops\<rparr>) = vmKeys t" "vmKeys (t\<lparr>coldArchives := as\<rparr>) = vmKeys t"
  by (simp_all add: vmKeys_def)

text \<open>
  C15: When \<open>DeleteVM\<close> reports success, nothing is left of the machine: no row, no route, no
  Firecracker process, no memory report, no file in its directory, no archived disk where the row
  recorded one, and none in its directory of the cold storage.  Everything else is as it was: the rows
  and routes of the other machines, the snapshots, the protected names, the other processes, and every
  path but the machine's own.
\<close>

theorem deleted_machine_is_gone:
  assumes "mgrDeleteVM cfg u s = (Inr (), t)"
  shows "\<exists>r \<in> set (vmsT s). cUuid r = u \<and> gone cfg r t \<and> restAsBefore u (ownPath cfg s r) s t"
proof -
  let ?Q = "\<lambda>t. \<exists>r \<in> set (vmsT s). cUuid r = u \<and> gone cfg r t \<and> restAsBefore u (ownPath cfg s r) s t"
  have "wp (mgrDeleteVM cfg u) (\<lambda>_. ?Q) (\<lambda>_ _. True) s"
    unfolding mgrDeleteVM_def wp_bind [of "GetVM u"]
  proof (rule wp_GetVM)
    fix rs r assume "find (\<lambda>r. cUuid r = u) (vmsT s) = Some r"
    then have r: "r \<in> set (vmsT s)" "cUuid r = u" using find_key by fast+
    let ?I = "restAsBefore u (ownPath cfg s r) s"
    have "wp (deferring (endVMOperation u) (deleteGuarded cfg u (scanVM r))) (\<lambda>_. ?Q) (\<lambda>_ _. True) t'" if "?I t'" for t'
      unfolding wp_deferring
      by (rule wp_mono [OF wp_conj [OF deleteGuarded_gone [OF r(2)] keeps_wp [OF rest_delete [OF r(2)] that]]])
         (use r in \<open>auto simp: endVMOperation_def wp_modify\<close>)
    moreover have "keeps ?I (beginVMOperationCancelingColdArchive u)" by (intro guards_steady) simp_all
    ultimately show "wp (bind (beginVMOperationCancelingColdArchive u) (\<lambda>_. deferring (endVMOperation u) (deleteGuarded cfg u (scanVM r))))
        (\<lambda>_. ?Q) (\<lambda>_ _. True) (s\<lparr>outcomes := rs\<rparr>)"
      by (intro wp_seq [OF wp_keeps_after [of ?I]]) auto
  qed simp
  then show ?thesis using assms by (rule wpD_Inr)
qed

definition routedMachine :: mgr where
  "routedMachine = coldState ''/s/vms/dev/rootfs.ext4'' []
     \<lparr>routesT := [\<lparr>rName = ''web'', rVmUuid = ''u1'', rPort = 80, rIsDefault = 1\<rparr>]\<rparr>"

lemma deleted_machine_is_gone_witness:
  "\<exists>r \<in> set (vmsT routedMachine). cUuid r = ''u1'' \<and> gone coldCfg r (snd (mgrDeleteVM coldCfg ''u1'' routedMachine)) \<and>
     restAsBefore ''u1'' (ownPath coldCfg routedMachine r) routedMachine (snd (mgrDeleteVM coldCfg ''u1'' routedMachine))"
proof -
  have "fst (mgrDeleteVM coldCfg ''u1'' routedMachine) = Inr ()" by code_simp
  then have "mgrDeleteVM coldCfg ''u1'' routedMachine = (Inr (), snd (mgrDeleteVM coldCfg ''u1'' routedMachine))"
    by (metis prod.collapse)
  from deleted_machine_is_gone [OF this] show ?thesis .
qed

section \<open>Start, stop, sleep\<close>

definition inState :: "string \<Rightarrow> string \<Rightarrow> 'z store_scheme \<Rightarrow> bool" where
  "inState u st s \<longleftrightarrow> (\<forall>r \<in> set (vmsT s). cUuid r = u \<longrightarrow> cState r = st) \<and> (\<exists>r \<in> set (vmsT s). cUuid r = u)"

lemma wp_SetVMState:
  assumes "\<And>rows rs. inState u st (s\<lparr>vmsT := rows\<rparr>) \<Longrightarrow> Q () (s\<lparr>outcomes := rs, vmsT := rows\<rparr>)"
  shows "wp (SetVMState u st) Q (\<lambda>_ _. True) s"
  unfolding SetVMState_def
  by (rule wp_updateVMRow) (auto simp: inState_def list_ex_iff simp del: if_image_distrib intro!: assms)

lemma wp_GetVM_state:
  assumes "inState u st s" and "\<And>rs vm. vmContent s u = Some vm \<Longrightarrow> vmUUID vm = u \<Longrightarrow> vmState vm = st \<Longrightarrow> Q vm (s\<lparr>outcomes := rs\<rparr>)"
  shows "wp (GetVM u) Q (\<lambda>_ _. True) s"
proof (rule wp_GetVM)
  fix rs r assume f: "find (\<lambda>r. cUuid r = u) (vmsT s) = Some r"
  then have "r \<in> set (vmsT s)" "cUuid r = u" using find_key by fast+
  then show "Q (scanVM r) (s\<lparr>outcomes := rs\<rparr>)"
    using assms(1) f by (intro assms(2)) (simp_all add: vmContent_def scanVM_def inState_def)
qed simp

lemma wp_try:
  assumes "wp m P E' s" and "\<And>x t. P x t \<Longrightarrow> wp (f (Inr x)) Q E t" and "\<And>e t. E' e t \<Longrightarrow> wp (f (Inl e)) Q E t"
  shows "wp (bind (attempt m) f) Q E s"
  unfolding wp_bind wp_attempt by (rule wp_mono [OF assms])

lemma wp_fails: "wp (bind m (\<lambda>_. throw e)) Q (\<lambda>_ _. True) s"
  by (rule wp_any) (simp add: wp_throw)

lemma wp_cases: "wp m Q E s \<Longrightarrow> wp n Q E s \<Longrightarrow> wp (if b then m else n) Q E s"
  by simp

text \<open>The machine \<open>u\<close> has a process, and \<open>vm\<close> is its row in the state \<open>st\<close>.\<close>

definition upAs :: "string \<Rightarrow> string \<Rightarrow> VM \<Rightarrow> 'z mgr_scheme \<Rightarrow> bool" where
  "upAs u st vm t \<longleftrightarrow> isRunning t u \<and> vmContent t u = Some vm \<and> vmUUID vm = u \<and> vmState vm = st"

lemma started_wp: "isRunning s u \<Longrightarrow> wp (bind (SetVMState u st) (\<lambda>_. GetVM u)) (upAs u st) (\<lambda>_ _. True) s"
  unfolding wp_bind
  by (rule wp_SetVMState, rule wp_GetVM_state)
     (auto simp: isRunning_def procOf_def vmContent_def inState_def upAs_def)

lemma launchProcess_runs: "wp (launchProcess h vm l n c) (\<lambda>p t. isRunning t (vmUUID vm)) (\<lambda>_ _. True) s"
  unfolding launchProcess_def Let_def
  by (rule wp_any, rule wp_any, rule wp_any) (simp add: wp_rules isRunning_def procOf_def)

lemma waitForSocket_runs: "isRunning s u \<Longrightarrow> wp (waitForSocket sock) (\<lambda>_ t. isRunning t u) (\<lambda>_ _. True) s"
  unfolding waitForSocket_def by (auto simp: wp_rules isRunning_def procOf_def intro!: wp_call_frame)

lemma loadSnapshot_runs: "isRunning s u \<Longrightarrow> wp (firecrackerLoadSnapshot h v p q) (\<lambda>_ t. isRunning t u) (\<lambda>_ _. True) s"
  unfolding firecrackerLoadSnapshot_def
  by (auto simp: wp_rules isRunning_def procOf_def intro!: wp_call_frame split: option.splits node.splits prod.splits)

lemma resumeVM_wp: "wp (resumeVM h vm) (upAs (vmUUID vm) ''running'') (\<lambda>_ _. True) s"
  unfolding resumeVM_def Let_def
  by (rule wp_any, rule wp_any, rule wp_any, rule wp_any, rule wp_any, rule wp_try [OF launchProcess_runs],
      simp, rule wp_try [OF wp_seq [OF waitForSocket_runs loadSnapshot_runs]])
     (auto intro: wp_fails started_wp)

lemma startGuarded_wp: "wp (startGuarded h u) (upAs u ''running'') (\<lambda>_ _. True) s"
proof -
  have boot: "wp (bind (launchProcess h vm l n c) (\<lambda>p. bind (attempt (waitForSocket sock)) (\<lambda>r.
      case r of Inl e \<Rightarrow> bind (ignoring (StopVM u)) (\<lambda>_. throw e)
      | Inr _ \<Rightarrow> bind (SetVMState u ''running'') (\<lambda>_. GetVM u)))) (upAs u ''running'') (\<lambda>_ _. True) t"
    if "vmUUID vm = u" for vm l n c sock t
    by (rule wp_seq [OF launchProcess_runs], rule wp_try [OF waitForSocket_runs])
       (auto simp: that intro: wp_fails started_wp)
  show ?thesis
    unfolding startGuarded_def Let_def wp_bind [of "GetVM u" "\<lambda>vm. bind (memoryConfigForHost vm) (f vm)" for f]
    by (rule wp_GetVM, rule wp_any, rule wp_cases, rule wp_mono [OF resumeVM_wp], simp add: vmUUID_found, simp,
        ((rule boot, erule vmUUID_found) | rule wp_any)+, simp)
qed

lemma StartVM_wp: "wp (StartVM h u) (upAs u ''running'') (\<lambda>_ _. True) s"
  unfolding StartVM_def
  by (rule wp_any, unfold wp_deferring, rule wp_mono [OF startGuarded_wp])
     (auto simp: endVMOperation_def wp_modify upAs_def isRunning_def procOf_def vmContent_def)

lemma keysAre_sturdy [simp]: "sturdy (\<lambda>s. vmKeys s = ks)"
  by (rule sturdyI) (auto simp: launchable_def keyed_def)

lemma stopProcess_stops: "wp (stopProcess p st) (\<lambda>_ t. \<not> isRunning t (procUUID p)) (\<lambda>_ _. True) s"
proof -
  have exit: "wp (waitForProcessExit p) (\<lambda>_ t. \<not> isRunning t (procUUID p)) (\<lambda>_ _. True) t" for t
    unfolding waitForProcessExit_def wp_bind wp_gets wp_if wp_ret
    using processExit_ends [of p] by (auto intro!: wp_ctxCheck_frame)
  show ?thesis
    unfolding stopProcess_def
    by (rule wp_any, rule wp_seq [OF exit], rule wp_keeps_after) (auto intro: network_steady)
qed

text \<open>The last steps of a stop and of a sleep.\<close>

lemma stopped_wp: "\<not> isRunning s u \<Longrightarrow>
  wp (SetVMState u st) (\<lambda>_ t. \<not> isRunning t u \<and> inState u st t) (\<lambda>_ _. True) s"
  by (rule wp_SetVMState) (simp add: isRunning_def procOf_def inState_def)

lemma StopVM_wp: "wp (StopVM u) (\<lambda>_. inState u ''stopped'') (\<lambda>_ _. True) s"
proof -
  have "wp (SetVMState u ''stopped'') (\<lambda>_. inState u ''stopped'') (\<lambda>_ _. True) t" for t :: "'a mgr_scheme"
    by (rule wp_SetVMState) (simp add: inState_def)
  then show ?thesis
    unfolding StopVM_def by (auto intro!: wp_any split: option.splits)
qed

lemma SleepVM_wp:
  "wp (SleepVM h u) (\<lambda>vm t. \<not> isRunning t u \<and> vmContent t u = Some vm \<and> vmState vm = ''sleeping'') (\<lambda>_ _. True) s"
  (is "wp _ ?Q _ s")
proof -
  have final: "wp (bind (stopProcess p ''sleeping'') (\<lambda>_. bind (SetVMState u ''sleeping'') (\<lambda>_. GetVM u))) ?Q (\<lambda>_ _. True) t"
    if "procUUID p = u" for p t
    by (rule wp_seq [OF stopProcess_stops], rule wp_seq [OF stopped_wp])
       (auto simp: that isRunning_def procOf_def vmContent_def intro!: wp_GetVM_state)
  show ?thesis
    unfolding SleepVM_def Let_def wp_bind [of "GetVM u"] wp_bind [of "gets f" for f] wp_gets
  proof (rule wp_GetVM, goal_cases)
    case (1 rs r)
    show ?case
    proof (cases "procOf (s\<lparr>outcomes := rs\<rparr>) u")
      case None
      then show ?thesis using 1 procOf_None [OF None] by (auto simp: wp_if wp_ret wp_throw vmContent_def)
    next
      case (Some p)
      then show ?thesis
        by (simp only: option.case, intro wp_any) (auto intro: wp_fails final procOf_uuid split: sum.splits)
    qed
  qed simp
qed

end
