(* ===== verification/SleepWake.thy ===== *)
theory SleepWake
  imports Lifecycle_Results
begin

text \<open>
  Sleep and wake: \<open>SleepVM\<close> has Firecracker save the guest to two files of the machine directory and
  ends the process; \<open>StartVM\<close> of a sleeping machine starts a process and has it load the files.
  Shown here: a wake that succeeds gives the guest that was put to sleep, whatever happened in
  between and whichever calls failed on the way; and a wake succeeds when no call fails.
\<close>

section \<open>The paths of a machine\<close>

lemma plain_file_names [simp]:
  "plainElem ''firecracker.sock''" "plainElem ''stdout.log''" "plainElem ''stderr.log''" "plainElem ''vmstate''" "plainElem ''memory''"
  "plainElem ''forwarding''" "plainElem ''ip_forward''" "plainElem ''proc''" "plainElem ''sys''" "plainElem ''net''"
  "plainElem ''ipv6''" "plainElem ''ipv4''" "plainElem ''conf''" "plainElem ''all''"
  by (simp_all add: plainElem_def)

lemma layout_rendered:
  assumes "isAbs (cfgStateDir cfg)" and "plainElem n"
  defines "D \<equiv> elems (cfgStateDir cfg)"
  shows "runtimeDir (layoutOf cfg n) = rendered (D @ [''vms'', n, ''run''])"
    "sleepDir (layoutOf cfg n) = rendered (D @ [''vms'', n, ''sleep''])"
    "socketPath (layoutOf cfg n) = rendered (D @ [''vms'', n, ''run'', ''firecracker.sock''])"
    "stdoutPath (layoutOf cfg n) = rendered (D @ [''vms'', n, ''run'', ''stdout.log''])"
    "stderrPath (layoutOf cfg n) = rendered (D @ [''vms'', n, ''run'', ''stderr.log''])"
    "sleepStatePath (layoutOf cfg n) = rendered (D @ [''vms'', n, ''sleep'', ''vmstate''])"
    "sleepMemPath (layoutOf cfg n) = rendered (D @ [''vms'', n, ''sleep'', ''memory''])"
  using assms elems_plain [OF assms(1)]
  by (simp_all add: layoutOf_def Let_def pathJoin_rendered plain_file_names)

text \<open>The files of a sleeping machine are none of the files a process writes to or removes.\<close>

definition sleepFiles :: "Config \<Rightarrow> string \<Rightarrow> string set" where
  "sleepFiles cfg n = {sleepStatePath (layoutOf cfg n), sleepMemPath (layoutOf cfg n)}"

lemma forwarding_rendered:
  "''/proc/sys/net/ipv6/conf/all/forwarding'' = rendered [''proc'', ''sys'', ''net'', ''ipv6'', ''conf'', ''all'', ''forwarding'']"
  "''/proc/sys/net/ipv4/ip_forward'' = rendered [''proc'', ''sys'', ''net'', ''ipv4'', ''ip_forward'']"
  by (simp_all add: renderPath_def)

lemma sleepFiles_apart:
  assumes "isAbs (cfgStateDir cfg)" and "plainElem n"
  shows "socketPath (layoutOf cfg n) \<notin> sleepFiles cfg n" "stdoutPath (layoutOf cfg n) \<notin> sleepFiles cfg n"
    "stderrPath (layoutOf cfg n) \<notin> sleepFiles cfg n" "sleepStatePath (layoutOf cfg n) \<noteq> sleepMemPath (layoutOf cfg n)"
    "''/proc/sys/net/ipv6/conf/all/forwarding'' \<notin> sleepFiles cfg n" "''/proc/sys/net/ipv4/ip_forward'' \<notin> sleepFiles cfg n"
    "socketPath (layoutOf cfg n) \<noteq> ''/proc/sys/net/ipv6/conf/all/forwarding''" "socketPath (layoutOf cfg n) \<noteq> ''/proc/sys/net/ipv4/ip_forward''"
proof -
  note l = layout_rendered [OF assms] and p = elems_plain [OF assms(1)] assms(2)
  have last: "rendered xs \<noteq> rendered ys" if "xs \<noteq> []" "ys \<noteq> []" "plainElems xs" "plainElems ys" "last xs \<noteq> last ys" for xs ys
    using rendered_inj [OF that(1-4)] that(5) by metis
  show "socketPath (layoutOf cfg n) \<notin> sleepFiles cfg n" "stdoutPath (layoutOf cfg n) \<notin> sleepFiles cfg n"
    "stderrPath (layoutOf cfg n) \<notin> sleepFiles cfg n" "sleepStatePath (layoutOf cfg n) \<noteq> sleepMemPath (layoutOf cfg n)"
    "''/proc/sys/net/ipv6/conf/all/forwarding'' \<notin> sleepFiles cfg n" "''/proc/sys/net/ipv4/ip_forward'' \<notin> sleepFiles cfg n"
    "socketPath (layoutOf cfg n) \<noteq> ''/proc/sys/net/ipv6/conf/all/forwarding''" "socketPath (layoutOf cfg n) \<noteq> ''/proc/sys/net/ipv4/ip_forward''"
    unfolding sleepFiles_def l forwarding_rendered insert_iff empty_iff de_Morgan_disj not_False_eq_True
    by (intro conjI last TrueI; simp add: p)+
qed

section \<open>Steps that leave given files alone\<close>

definition holds :: "string set \<Rightarrow> (string \<Rightarrow> string) \<Rightarrow> 'z fsys_scheme \<Rightarrow> bool" where
  "holds A f s \<longleftrightarrow> (\<forall>p \<in> A. look s p = Some (File (f p)))"

lemma holds_blind [simp]: "outcome_blind (holds A f)"
  by (simp add: holds_def outcome_blind_def)

lemma holds_frame [simp]:
  "holds A f (s\<lparr>outcomes := a\<rparr>) = holds A f s" "holds A f (st\<lparr>vmsT := b\<rparr>) = holds A f st"
  "holds A f (m\<lparr>running := c\<rparr>) = holds A f m" "holds A f (m\<lparr>taps := d\<rparr>) = holds A f m"
  "holds A f (m\<lparr>guests := e\<rparr>) = holds A f m" "holds A f (m\<lparr>vmOps := g\<rparr>) = holds A f m"
  "holds A f (m\<lparr>coldArchives := h\<rparr>) = holds A f m"
  by (simp_all add: holds_def)

lemma holds_files [keeps_rules]:
  assumes "p \<notin> A"
  shows "keeps (holds A f) (osRemove p)" "keeps (holds A f) (osOpenAppend p)" "keeps (holds A f) (osWriteFile p b)"
  using assms by (auto intro!: keeps_wpI wp_osRemove wp_osOpenAppend wp_osWriteFile simp: holds_def) metis

lemma holds_mkdir [keeps_rules]: "keeps (holds A f) (osMkdirAll d)"
  by (auto intro!: keeps_wpI wp_osMkdirAll simp: holds_def map_of_mkdirs)

lemma holds_reads [keeps_rules]: "keeps (holds A f) (osStat p)" "keeps (holds A f) (osReadFile p)"
  by (auto intro!: keeps_wpI wp_osStat wp_osReadFile simp: holds_def)

lemma holds_state [keeps_rules]:
  "keeps (holds A f) (SetVMState u st)" "keeps (holds A f) (GetVM u)" "keeps (holds A f) (deleteTap n)"
  "keeps (holds A f) (cleanupNetwork n)" "keeps (holds A f) (memoryConfigForHost vm)"
  unfolding SetVMState_def deleteTap_def cleanupNetwork_def memoryConfigForHost_def virtioMemUsableForVM_def
    virtioMemSupportedForRange_def hostPhysicalAddressBits_def
  by (intro keeps_rules keeps_updateVMRow keeps_modify holds_blind; simp)+

lemma holds_process [keeps_rules]:
  assumes "procSocketPath p \<notin> A"
  shows "keeps (holds A f) (cleanupAfterExit p)" "keeps (holds A f) (stopProcess p st)"
proof -
  show c: "keeps (holds A f) (cleanupAfterExit p)"
    unfolding cleanupAfterExit_def by (intro keeps_rules assms)
  show "keeps (holds A f) (stopProcess p st)"
    unfolding stopProcess_def waitForProcessExit_def processExit_def Let_def
    by (intro keeps_rules c keeps_modify holds_blind; simp)
qed

lemma holds_network [keeps_rules]:
  assumes "''/proc/sys/net/ipv6/conf/all/forwarding'' \<notin> A" "''/proc/sys/net/ipv4/ip_forward'' \<notin> A"
  shows "keeps (holds A f) (prepareNetwork h vm)"
  unfolding prepareNetwork_def orDeleteTap_def Let_def
  by (intro keeps_rules keeps_modify holds_blind assms; simp)

lemma holds_launch [keeps_rules]:
  assumes "stdoutPath l \<notin> A" "stderrPath l \<notin> A"
  shows "keeps (holds A f) (launchProcess h vm l n None)"
  unfolding launchProcess_def Let_def bootGuest_def option.case
  by (intro keeps_rules keeps_modify holds_blind assms; simp)

lemma holds_socket [keeps_rules]: "p \<notin> A \<Longrightarrow> keeps (holds A f) (waitForSocket p)"
  unfolding waitForSocket_def by (intro keeps_rules keeps_modify holds_blind) (auto simp: holds_def)

section \<open>The round trip\<close>

lemma find_name: "find (\<lambda>r. cUuid r = u) rows = Some r \<Longrightarrow> map_of (map (\<lambda>r. (cUuid r, cName r)) rows) u = Some (cName r)"
  by (induction rows) (auto split: if_splits)

lemma name_by_key: "vmContent s u = Some vm \<Longrightarrow> map_of (vmKeys s) u = Some (vmName vm)"
  by (auto simp: vmContent_def vmKeys_def scanVM_def dest: find_name)

lemma keeps_conj: "keeps I m \<Longrightarrow> keeps J m \<Longrightarrow> keeps (\<lambda>s. I s \<and> J s) m"
  by (simp add: keeps_def)

text \<open>The files hold what Firecracker saves of a guest in the state \<open>g\<close>.\<close>

definition savedGuest :: "host \<Rightarrow> string \<Rightarrow> string \<Rightarrow> 'z fsys_scheme \<Rightarrow> bool" where
  "savedGuest h n g s \<longleftrightarrow> (case hSave h g of (st, mem) \<Rightarrow>
     look s (sleepStatePath (layoutOf (hCfg h) n)) = Some (File st) \<and>
     look s (sleepMemPath (layoutOf (hCfg h) n)) = Some (File mem))"

lemma savedGuest_keeps:
  fixes m :: "('z fsys_scheme, 'b) prog"
  assumes "isAbs (cfgStateDir (hCfg h))" "plainElem n" and "\<And>f. keeps (holds (sleepFiles (hCfg h) n) f) m"
  shows "keeps (savedGuest h n g) m"
proof -
  let ?l = "layoutOf (hCfg h) n"
  have "(savedGuest h n g :: 'z fsys_scheme \<Rightarrow> bool) = holds (sleepFiles (hCfg h) n) (\<lambda>p. if p = sleepStatePath ?l then fst (hSave h g) else snd (hSave h g))"
    using sleepFiles_apart(4) [OF assms(1,2)]
    by (auto simp: savedGuest_def holds_def sleepFiles_def fun_eq_iff split: prod.splits)
  with assms(3) show ?thesis by simp
qed

lemma createSnapshot_saves:
  assumes "sleepStatePath (layoutOf (hCfg h) n) \<noteq> sleepMemPath (layoutOf (hCfg h) n)"
  shows "wp (firecrackerCreateSnapshot h u (sleepStatePath (layoutOf (hCfg h) n)) (sleepMemPath (layoutOf (hCfg h) n)))
    (\<lambda>_ t. savedGuest h n (guests s u) t \<and> vmKeys t = vmKeys s) (\<lambda>_ _. True) s"
  using assms by (auto simp: wp_def firecrackerCreateSnapshot_def savedGuest_def next_outcome_def
      split: prod.splits outcome.splits list.splits)

lemma SleepVM_saves:
  assumes dirs: "isAbs (cfgStateDir (hCfg h))" "plainElem (vmName vm)"
    and vm: "vmContent s u = Some vm" and p: "procOf s u = Some p" "procSocketPath p \<notin> sleepFiles (hCfg h) (vmName vm)"
  shows "wp (SleepVM h u) (\<lambda>vm' t. vmContent t u = Some vm' \<and> vmState vm' = ''sleeping'' \<and> vmName vm' = vmName vm \<and>
    savedGuest h (vmName vm) (guests s u) t) (\<lambda>_ _. True) s" (is "wp _ ?Q _ s")
proof -
  let ?l = "layoutOf (hCfg h) (vmName vm)" and ?J = "\<lambda>t. guests t u = guests s u \<and> vmKeys t = vmKeys s"
  let ?K = "\<lambda>t. savedGuest h (vmName vm) (guests s u) t \<and> vmKeys t = vmKeys s"
  note apart = sleepFiles_apart [OF dirs]
  have J: "files_blind ?J" by (simp add: files_blind_def outcome_blind_def)
  have K: "keeps ?K (stopProcess p st)" for st
    by (intro keeps_conj savedGuest_keeps dirs keeps_rules p(2) keysAre_steady)
  have final: "wp (bind (SetVMState u ''sleeping'') (\<lambda>_. GetVM u)) ?Q (\<lambda>_ _. True) t" if "?K t" for t
  proof -
    have "wp (bind (SetVMState u ''sleeping'') (\<lambda>_. GetVM u)) (\<lambda>_. ?K) (\<lambda>_ _. True) t"
      using that by (intro wp_keeps_after [of ?K] keeps_conj savedGuest_keeps dirs keeps_rules holds_blind
          steadyD [OF keysAre_steady])
    moreover have "wp (bind (SetVMState u ''sleeping'') (\<lambda>_. GetVM u))
        (\<lambda>vm t. vmContent t u = Some vm \<and> vmState vm = ''sleeping'') (\<lambda>_ _. True) t"
      unfolding wp_bind by (rule wp_SetVMState, rule wp_GetVM_state) (auto simp: vmContent_def inState_def)
    ultimately show ?thesis
      by (rule wp_mono [OF wp_conj]) (use name_by_key [OF vm] in \<open>auto dest: name_by_key\<close>)
  qed
  show ?thesis
    unfolding SleepVM_def Let_def wp_bind [of "GetVM u"]
  proof (rule wp_GetVM, goal_cases)
    case (1 rs r)
    then have "scanVM r = vm" "procOf (s\<lparr>outcomes := rs\<rparr>) u = Some p" using vm p by (simp_all add: vmContent_def procOf_def)
    then show ?case
      unfolding wp_bind [of "gets f" for f] wp_gets
      apply (simp only: option.case)
      apply (rule wp_seq [OF wp_keeps_after [of ?J]])
      apply (intro keeps_rules J)
      apply simp
      apply (rule wp_seq [OF wp_keeps_after [of ?J]])
      apply (simp only: firecrackerSetVMState_def)
      apply (intro keeps_rules J files_blind_outcome)
      apply simp
      apply (rule wp_try [OF createSnapshot_saves [OF apart(4)]])
      apply simp_all
      apply (rule wp_seq [OF wp_keeps_after [OF K]])
      apply simp
      apply (rule final)
      apply (auto intro: wp_fails)
      done
  qed simp
qed

text \<open>The guest of \<open>u\<close> is the one that was saved in the state \<open>g\<close>.\<close>

definition loadedGuest :: "host \<Rightarrow> string \<Rightarrow> string \<Rightarrow> 'z mgr_scheme \<Rightarrow> bool" where
  "loadedGuest h u g s \<longleftrightarrow> hLoad h (hSave h g) = Some (guests s u)"

lemma loadedGuest_keeps: "keeps (loadedGuest h u g) (SetVMState v st)" "keeps (loadedGuest h u g) (GetVM v)"
  "keeps (loadedGuest h u g) (endVMOperation v)"
  unfolding SetVMState_def endVMOperation_def
  by (intro keeps_rules keeps_updateVMRow keeps_modify; simp add: loadedGuest_def outcome_blind_def)+

lemma loadSnapshot_loads:
  assumes "savedGuest h n g s"
  shows "wp (firecrackerLoadSnapshot h u (sleepStatePath (layoutOf (hCfg h) n)) (sleepMemPath (layoutOf (hCfg h) n)))
    (\<lambda>_. loadedGuest h u g) (\<lambda>_ _. True) s"
  using assms unfolding firecrackerLoadSnapshot_def savedGuest_def
  by (auto simp: wp_rules loadedGuest_def intro!: wp_call_frame split: prod.splits option.splits)

lemma resumeVM_loads:
  assumes dirs: "isAbs (cfgStateDir (hCfg h))" "plainElem (vmName vm)" and "savedGuest h (vmName vm) g s"
  shows "wp (resumeVM h vm) (\<lambda>_. loadedGuest h (vmUUID vm) g) (\<lambda>_ _. True) s"
proof -
  let ?K = "savedGuest h (vmName vm) g" and ?l = "layoutOf (hCfg h) (vmName vm)"
  note apart = sleepFiles_apart [OF dirs]
  have K: "keeps ?K (wrapping a (osStat x))" "keeps ?K (osMkdirAll d)" "keeps ?K (wrapping a (prepareNetwork h vm))"
    "keeps ?K (ignoring (osRemove (socketPath ?l)))" "keeps ?K (launchProcess h vm ?l n None)" "keeps ?K (waitForSocket (socketPath ?l))"
    for a x d n
    by (intro savedGuest_keeps dirs keeps_rules apart)+
  have load: "wp (bind (waitForSocket (socketPath ?l)) (\<lambda>_.
      firecrackerLoadSnapshot h (vmUUID vm) (sleepStatePath ?l) (sleepMemPath ?l))) (\<lambda>_. loadedGuest h (vmUUID vm) g) (\<lambda>_ _. True) t"
    if "?K t" for t
    by (rule wp_seq [OF wp_keeps_after [OF K(6) that]]) (auto intro: loadSnapshot_loads)
  note next_K = wp_seq [OF wp_keeps_after [of ?K]]
  show ?thesis
    unfolding resumeVM_def Let_def
    by (rule next_K, rule K, rule assms, rule next_K, rule K, assumption, rule next_K, rule K, assumption,
        rule next_K, rule K, assumption, rule next_K, rule K, assumption,
        rule wp_try [OF wp_keeps_after [of ?K]], rule K, assumption, simp, rule wp_try [OF load], assumption)
       (auto intro!: wp_fails wp_keeps_after keeps_rules loadedGuest_keeps)
qed

lemma StartVM_loads:
  assumes dirs: "isAbs (cfgStateDir (hCfg h))" "plainElem (vmName vm)"
    and vm: "vmContent s u = Some vm" "vmState vm = ''sleeping''" and saved: "savedGuest h (vmName vm) g s"
  shows "wp (StartVM h u) (\<lambda>_. loadedGuest h u g) (\<lambda>_ _. True) s"
proof -
  let ?K = "savedGuest h (vmName vm) g" and ?V = "\<lambda>s. vmContent s u = Some vm"
  have guard: "keeps (\<lambda>s. ?V s \<and> ?K s) (beginStartOperationCancelingColdArchive u)"
    by (intro guards_steady; simp add: outcome_blind_def savedGuest_def vmContent_def)
  have mem: "keeps ?K (memoryConfigForHost vm)" by (intro savedGuest_keeps dirs holds_state)
  have wake: "wp (bind (memoryConfigForHost vm) (\<lambda>mem. if vmState vm = ''sleeping'' then resumeVM h vm else f mem))
      (\<lambda>_. loadedGuest h (vmUUID vm) g) (\<lambda>_ _. True) t" if "?K t" for f t
    by (rule wp_seq [OF wp_keeps_after [OF mem that]]) (simp_all add: vm(2) resumeVM_loads [OF dirs])
  have body: "wp (startGuarded h u) (\<lambda>_. loadedGuest h u g) (\<lambda>_ _. True) t" if t: "?V t" "?K t" for t
    unfolding startGuarded_def Let_def wp_bind [of "GetVM u" "\<lambda>vm. bind (memoryConfigForHost vm) (f vm)" for f]
  proof (rule wp_GetVM, goal_cases)
    case (1 rs r)
    then have r: "scanVM r = vm" and u: "vmUUID vm = u" using t vmUUID_found by (auto simp: vmContent_def)
    have "?K (t\<lparr>outcomes := rs\<rparr>)" using t(2) by (simp add: savedGuest_def)
    then show ?case unfolding r by (rule wake [unfolded u])
  qed simp
  show ?thesis
    unfolding StartVM_def
    by (rule wp_seq [OF wp_keeps_after [OF guard]], use vm saved in simp,
        unfold wp_deferring, rule wp_mono [OF body])
       (auto simp: endVMOperation_def wp_modify loadedGuest_def)
qed

text \<open>
  C1: Sleep and wake restore the guest.  Let a machine that runs be put to sleep with success, and
  let it be started with success from any later state in which its row and its two files in the
  sleep directory are as the sleep left them (the host may have restarted, other machines may have
  come and gone).  Then the guest is what Firecracker loads from what it saved of the guest that was
  put to sleep, and the machine runs again under the same UUID and name.  Calls whose failure the two
  operations survive may fail.  (A wake that fails, a stop or a reboot in between changes the row or
  drops the files, and the guest is then lost as the documentation says.)
\<close>

theorem sleep_wake_restores_guest:
  assumes "isAbs (cfgStateDir (hCfg h))" and "plainElem (vmName vm)"
    and "vmContent s u = Some vm" and "procOf s u = Some p" and "procSocketPath p = socketPath (layoutOf (hCfg h) (vmName vm))"
    and "SleepVM h u s = (Inr vm', s')"
    and "vmContent t u = Some vm'" and "\<forall>q \<in> sleepFiles (hCfg h) (vmName vm). look t q = look s' q"
    and "StartVM h u t = (Inr vm'', t')"
  shows "hLoad h (hSave h (guests s u)) = Some (guests t' u) \<and> upAs u ''running'' vm'' t' \<and> vmName vm'' = vmName vm"
proof -
  have slept: "vmState vm' = ''sleeping''" "vmName vm' = vmName vm" "savedGuest h (vmName vm) (guests s u) s'"
    using wpD_Inr [OF SleepVM_saves [OF assms(1-4)] assms(6)] sleepFiles_apart(1) [OF assms(1,2)] assms(5) by auto
  then have saved: "savedGuest h (vmName vm') (guests s u) t"
    using assms(8) by (simp add: savedGuest_def sleepFiles_def)
  have "loadedGuest h u (guests s u) t'"
    by (rule wpD_Inr [OF StartVM_loads [OF assms(1) _ assms(7) slept(1) saved] assms(9)]) (simp add: slept assms(2))
  moreover have "vmKeys t' = vmKeys t"
    using keepsD [OF sturdyD(2) [OF keysAre_sturdy], of t "vmKeys t" h u] assms(9) by simp
  moreover have up: "upAs u ''running'' vm'' t'" by (rule wpD_Inr [OF StartVM_wp assms(9)])
  ultimately show ?thesis
    using name_by_key [OF assms(7)] name_by_key [of t' u vm''] slept(2) by (auto simp: loadedGuest_def upAs_def)
qed

section \<open>A wake succeeds\<close>

text \<open>The addresses of a machine can be computed, and its memory range is one that the host accepts.\<close>

definition addressable :: "Config \<Rightarrow> VM \<Rightarrow> bool" where
  "addressable cfg vm \<longleftrightarrow> vmPrivateIP vm \<noteq> [] \<and> (case ParseIP (vmPrivateIP vm) of None \<Rightarrow> False
     | Some ip \<Rightarrow> To4 ip = None \<and> (\<exists>hp. decrementIP ip = Inr hp) \<and> (\<exists>pair. privateIPv4Pair cfg ip = Inr pair))"

text \<open>
  No call fails, the row of the machine is there, its guest is saved, no regular file is where the
  run directory has to be, and no directory is where a process has its logs and the kernel its
  switches.
\<close>

definition ready :: "host \<Rightarrow> string \<Rightarrow> string \<Rightarrow> string \<Rightarrow> 'z mgr_scheme \<Rightarrow> bool" where
  "ready h u n g s \<longleftrightarrow> fault_free s \<and> list_ex (\<lambda>r. cUuid r = u) (vmsT s) \<and> savedGuest h n g s \<and>
     (\<forall>d \<in> set (ancestors (runtimeDir (layoutOf (hCfg h) n))). \<forall>b. look s d \<noteq> Some (File b)) \<and>
     (\<forall>p \<in> {stdoutPath (layoutOf (hCfg h) n), stderrPath (layoutOf (hCfg h) n)}. look s p \<noteq> Some Dir) \<and>
     (\<forall>p \<in> {''/proc/sys/net/ipv6/conf/all/forwarding'', ''/proc/sys/net/ipv4/ip_forward''}. \<exists>b. look s p = Some (File b))"

lemma ready_frame [simp]:
  "ready h u n g (s\<lparr>taps := a\<rparr>) = ready h u n g s" "ready h u n g (s\<lparr>running := b\<rparr>) = ready h u n g s"
  "ready h u n g (s\<lparr>guests := c\<rparr>) = ready h u n g s" "ready h u n g (s\<lparr>vmOps := d\<rparr>) = ready h u n g s"
  by (simp_all add: ready_def savedGuest_def)

abbreviation "switches \<equiv> {''/proc/sys/net/ipv6/conf/all/forwarding'', ''/proc/sys/net/ipv4/ip_forward''}"

lemma ready_files:
  assumes "ready h u n g s" and "p \<notin> sleepFiles (hCfg h) n" "p \<notin> set (ancestors (runtimeDir (layoutOf (hCfg h) n)))"
    and fs: "\<And>q. q \<noteq> p \<Longrightarrow> map_of fs q = look s q" and "map_of fs p = None \<and> p \<notin> switches \<or> (\<exists>b. map_of fs p = Some (File b))"
  shows "ready h u n g (s\<lparr>files := fs\<rparr>)"
proof -
  have same: "map_of fs q = look s q" if "q \<in> sleepFiles (hCfg h) n \<union> set (ancestors (runtimeDir (layoutOf (hCfg h) n)))" for q
    using fs [of q] that assms(2,3) by blast
  have sw: "\<exists>b. map_of fs q = Some (File b)" if "q \<in> switches" for q
    using fs [of q] that assms(1,5) unfolding ready_def by metis
  have log: "map_of fs q \<noteq> Some Dir" if "look s q \<noteq> Some Dir" for q
    using fs [of q] that assms(5) by (cases "q = p") auto
  show ?thesis
    using assms(1) same sw log unfolding ready_def savedGuest_def sleepFiles_def
    by (simp split: prod.splits)
qed

lemma tapName_nonempty: "tapName n \<noteq> []"
  by (simp add: tapName_def)

lemma wp_deleteTap_ff [ff_rules]:
  "fault_free s \<Longrightarrow> n \<noteq> [] \<Longrightarrow> wp (deleteTap n) Q E s = Q () (if n \<in> set (taps s) then s\<lparr>taps := removeAll n (taps s)\<rparr> else s)"
  by (simp add: deleteTap_def wp_rules ff_rules)

lemma ready_ff: "ready h u n g s \<Longrightarrow> fault_free s"
  by (simp add: ready_def)

lemma switch_ready:
  assumes "isAbs (cfgStateDir (hCfg h))" "plainElem n" "ready h u n g s" "p \<in> switches"
  shows "wp (osWriteFile p b) (\<lambda>_. ready h u n g) (\<lambda>_ _. False) s"
proof -
  have "p \<notin> sleepFiles (hCfg h) n" using sleepFiles_apart [OF assms(1,2)] assms(4) by auto
  moreover have f: "\<exists>b. look s p = Some (File b)" using assms(3,4) unfolding ready_def by blast
  then have "p \<notin> set (ancestors (runtimeDir (layoutOf (hCfg h) n)))" using assms(3) unfolding ready_def by metis
  ultimately show ?thesis
    using f assms(3) by (auto simp: ff_rules ready_ff intro!: ready_files [of h u n g s p])
qed

lemma prepareNetwork_succeeds:
  fixes s :: "'z mgr_scheme"
  assumes "isAbs (cfgStateDir (hCfg h))" "plainElem n" "ready h u n g s" and "addressable (hCfg h) vm"
  shows "wp (prepareNetwork h vm) (\<lambda>_. ready h u n g) (\<lambda>_ _. False) s"
proof -
  obtain ip hp a b where ip: "vmPrivateIP vm \<noteq> []" "ParseIP (vmPrivateIP vm) = Some ip" "To4 ip = None" "decrementIP ip = Inr hp"
    "privateIPv4Pair (hCfg h) ip = Inr (a, b)"
    using assms(4) by (auto simp: addressable_def split: option.splits)
  have "wp (bind (osWriteFile ''/proc/sys/net/ipv6/conf/all/forwarding'' x) (\<lambda>_.
      bind (osWriteFile ''/proc/sys/net/ipv4/ip_forward'' y) (\<lambda>_. ret z))) (\<lambda>_. ready h u n g) (\<lambda>_ _. False) t"
    if "ready h u n g t" for t :: "'z mgr_scheme" and x y and z :: preparedNetwork
    by (rule wp_seq [OF switch_ready [OF assms(1,2) that]], simp, rule wp_seq [OF switch_ready [OF assms(1,2)]])
       (auto simp: wp_ret)
  then show ?thesis
    using ip assms(3)
    by (simp add: prepareNetwork_def orDeleteTap_def Let_def wp_rules wp_call_ff wp_deleteTap_ff tapName_nonempty ready_ff)
qed

lemma run_not_ancestor:
  assumes "isAbs (cfgStateDir cfg)" "plainElem n" "plainElem x"
  shows "rendered (elems (cfgStateDir cfg) @ [''vms'', n, ''run'', x]) \<notin> set (ancestors (runtimeDir (layoutOf cfg n)))"
proof
  let ?D = "elems (cfgStateDir cfg)"
  assume "rendered (?D @ [''vms'', n, ''run'', x]) \<in> set (ancestors (runtimeDir (layoutOf cfg n)))"
  then have "below (rendered (?D @ [''vms'', n, ''run'', x])) (rendered (?D @ [''vms'', n, ''run'']))"
    unfolding layout_rendered [OF assms(1,2)] by (rule ancestors_below)
  then have "prefix (?D @ [''vms'', n, ''run'', x]) (?D @ [''vms'', n, ''run''])"
    using assms elems_plain [OF assms(1)] by (subst (asm) below_rendered) simp_all
  then show False by simp
qed

lemma ready_steps:
  assumes dirs: "isAbs (cfgStateDir (hCfg h))" "plainElem n" and R: "ready h u n g s"
  defines "l \<equiv> layoutOf (hCfg h) n"
  shows "p \<in> sleepFiles (hCfg h) n \<Longrightarrow> wp (wrapping a (osStat p)) (\<lambda>_. ready h u n g) (\<lambda>_ _. False) s"
    and "wp (osMkdirAll (runtimeDir l)) (\<lambda>_. ready h u n g) (\<lambda>_ _. False) s"
    and "p \<in> {stdoutPath l, stderrPath l} \<Longrightarrow> wp (osOpenAppend p) (\<lambda>_. ready h u n g) (\<lambda>_ _. False) s"
    and "wp (ignoring (osRemove (socketPath l))) (\<lambda>_. ready h u n g) (\<lambda>_ _. False) s"
    and "wp (waitForSocket (socketPath l)) (\<lambda>_. ready h u n g) (\<lambda>_ _. False) s"
proof -
  note apart = sleepFiles_apart [OF dirs, folded l_def]
  have anc: "p \<notin> set (ancestors (runtimeDir l))" if "p \<in> {socketPath l, stdoutPath l, stderrPath l}" for p
    using that run_not_ancestor [OF dirs] layout_rendered(3-5) [OF dirs] by (auto simp: l_def)
  show "wp (wrapping a (osStat p)) (\<lambda>_. ready h u n g) (\<lambda>_ _. False) s" if "p \<in> sleepFiles (hCfg h) n"
    using that R by (auto simp: wp_wrapping ff_rules ready_def savedGuest_def sleepFiles_def split: prod.splits)
  show "wp (osMkdirAll (runtimeDir l)) (\<lambda>_. ready h u n g) (\<lambda>_ _. False) s"
  proof -
    let ?A = "ancestors (runtimeDir l)" and ?M = "map_of (mkdirs (ancestors (runtimeDir l)) (files s))"
    have noFile: "look s d \<noteq> Some (File b)" if "d \<in> set ?A" for d b using that R by (simp add: ready_def l_def)
    have present: "?M q = Some x" if "look s q = Some x" for q x using that by (simp add: map_of_mkdirs)
    have dirs': "?M d \<noteq> Some (File b)" if "d \<in> set ?A" for d b
      using noFile [OF that] by (auto simp: map_of_mkdirs split: option.split)
    have logs: "?M q \<noteq> Some Dir" if "q \<in> {stdoutPath l, stderrPath l}" for q
      using anc [of q] that R by (auto simp: map_of_mkdirs ready_def l_def split: option.split)
    have "ready h u n g (s\<lparr>files := mkdirs ?A (files s)\<rparr>)"
      using R present dirs' logs unfolding ready_def savedGuest_def l_def by (simp split: prod.splits) blast
    then show ?thesis
      using noFile unfolding wp_osMkdirAll_ff [OF ready_ff [OF R]] by (simp add: list_ex_iff split: option.split node.split)
  qed
  have put: "ready h u n g (s\<lparr>files := put p (File b) (files s)\<rparr>)" if "p \<in> {socketPath l, stdoutPath l, stderrPath l}" for p b
  proof (rule ready_files [OF R])
    show "p \<notin> sleepFiles (hCfg h) n" using that apart(1-3) by blast
    show "p \<notin> set (ancestors (runtimeDir (layoutOf (hCfg h) n)))" using anc [OF that] by (simp add: l_def)
  qed simp_all
  have del: "ready h u n g (s\<lparr>files := del (\<lambda>q. q = socketPath l) (files s)\<rparr>)"
  proof (rule ready_files [OF R, of "socketPath l"])
    show "socketPath l \<notin> set (ancestors (runtimeDir (layoutOf (hCfg h) n)))" using anc [of "socketPath l"] by (simp add: l_def)
    show "map_of (del (\<lambda>q. q = socketPath l) (files s)) (socketPath l) = None \<and> socketPath l \<notin> switches \<or>
        (\<exists>b. map_of (del (\<lambda>q. q = socketPath l) (files s)) (socketPath l) = Some (File b))"
      using apart(7,8) by (simp only: map_of_del if_True insert_iff empty_iff simp_thms)
  qed (simp_all add: apart(1))
  have dir: "look s p \<noteq> Some Dir" if "p \<in> {stdoutPath l, stderrPath l}" for p
    using that R by (simp add: ready_def l_def) blast
  show "wp (osOpenAppend p) (\<lambda>_. ready h u n g) (\<lambda>_ _. False) s" if "p \<in> {stdoutPath l, stderrPath l}"
    unfolding wp_osOpenAppend_ff [OF ready_ff [OF R]]
    using put [of p] dir [OF that] that R by (auto split: option.split node.split)
  show "wp (ignoring (osRemove (socketPath l))) (\<lambda>_. ready h u n g) (\<lambda>_ _. False) s"
    unfolding wp_ignoring wp_osRemove_ff [OF ready_ff [OF R]] using del R by (simp split: option.split)
  show "wp (waitForSocket (socketPath l)) (\<lambda>_. ready h u n g) (\<lambda>_ _. False) s"
    using put by (simp add: waitForSocket_def wp_rules wp_call_ff ready_ff [OF R])
qed

lemma resumeVM_succeeds:
  fixes s :: "'z mgr_scheme"
  assumes dirs: "isAbs (cfgStateDir (hCfg h))" "plainElem (vmName vm)" and "ready h (vmUUID vm) (vmName vm) g s"
    and addr: "addressable (hCfg h) vm" and load: "hLoad h (hSave h g) \<noteq> None"
  shows "wp (resumeVM h vm) (\<lambda>_ _. True) (\<lambda>_ _. False) s"
proof -
  let ?R = "ready h (vmUUID vm) (vmName vm) g :: 'z mgr_scheme \<Rightarrow> bool" and ?l = "layoutOf (hCfg h) (vmName vm)"
  note step = ready_steps [OF dirs]
  have launch: "wp (launchProcess h vm ?l n None) (\<lambda>_. ?R) (\<lambda>_ _. False) t" if "?R t" for n t
    unfolding launchProcess_def Let_def
    by (rule wp_seq [OF step(3)], rule that, simp, rule wp_seq [OF step(3)])
       (auto simp: wp_rules wp_call_ff ready_ff bootGuest_def)
  obtain st mem y where saved: "hSave h g = (st, mem)" "hLoad h (st, mem) = Some y" using load by (cases "hSave h g") auto
  have load: "wp (firecrackerLoadSnapshot h (vmUUID vm) (sleepStatePath ?l) (sleepMemPath ?l)) (\<lambda>_. ?R) (\<lambda>_ _. False) t" if "?R t" for t
  proof -
    from that have "look t (sleepStatePath ?l) = Some (File st)" "look t (sleepMemPath ?l) = Some (File mem)"
      by (simp_all add: ready_def savedGuest_def saved)
    then show ?thesis using that saved by (simp add: firecrackerLoadSnapshot_def wp_rules wp_call_ff ready_ff)
  qed
  have finish: "wp (bind (SetVMState (vmUUID vm) ''running'') (\<lambda>_. GetVM (vmUUID vm))) (\<lambda>_ _. True) (\<lambda>_ _. False) t" if "?R t" for t
    using that unfolding ready_def
    by (auto simp: SetVMState_def updateVMRow_def GetVM_def query_def wp_rules wp_call_ff list_ex_iff find_None_iff
        simp del: if_image_distrib split: option.splits)
  note S = wp_seq [where E' = "\<lambda>_ _. False"] and T = wp_try [where E' = "\<lambda>_ _. False"]
  have sl: "sleepStatePath ?l \<in> sleepFiles (hCfg h) (vmName vm)" "sleepMemPath ?l \<in> sleepFiles (hCfg h) (vmName vm)"
    by (simp_all add: sleepFiles_def)
  show ?thesis
    unfolding resumeVM_def Let_def
    apply (rule S [OF step(1) [OF assms(3) sl(1)]])
    apply (rule S [OF step(1) [OF _ sl(2)]], assumption)
    apply (rule S [OF step(2)], assumption)
    apply (rule S [where P = "\<lambda>_. ?R"], simp add: wp_wrapping prepareNetwork_succeeds [OF dirs _ addr])
    apply (rule S [OF step(4)], assumption)
    apply (rule T [OF launch], assumption)
    apply simp
    apply (rule T [OF S [OF step(5) load]], assumption)
    apply (simp_all add: finish)
    done
qed

lemma wp_modify_fun: "wp (modify f) Q E = (\<lambda>s. Q () (f s))"
  by (simp add: fun_eq_iff wp_modify)

lemma memoryConfig_succeeds:
  assumes "fault_free s" and "validateMemoryHotplugRange (vmMemoryMinMiB vm) (vmMemoryMaxMiB vm) = Inr ()"
  shows "wp (memoryConfigForHost vm) (\<lambda>_ t. t = s) (\<lambda>_ _. False) s"
  using assms
  by (auto simp: memoryConfigForHost_def virtioMemUsableForVM_def virtioMemSupportedForRange_def
      hostPhysicalAddressBits_def wp_rules ff_rules split: option.splits node.splits)

lemma StartVM_wakes:
  assumes dirs: "isAbs (cfgStateDir (hCfg h))" "plainElem (vmName vm)"
    and vm: "vmContent s u = Some vm" "vmState vm = ''sleeping''"
    and R: "ready h u (vmName vm) g s" and addr: "addressable (hCfg h) vm" and load: "hLoad h (hSave h g) \<noteq> None"
    and mem: "validateMemoryHotplugRange (vmMemoryMinMiB vm) (vmMemoryMaxMiB vm) = Inr ()"
    and free: "\<not> isRunning s u" "u \<notin> set (vmOps s)" "u \<notin> set (coldArchives s)"
  shows "\<exists>vm' t. StartVM h u s = (Inr vm', t) \<and> upAs u ''running'' vm' t \<and> hLoad h (hSave h g) = Some (guests t u)"
proof -
  have ff: "fault_free s" using R by (rule ready_ff)
  obtain r where r: "find (\<lambda>r. cUuid r = u) (vmsT s) = Some r" "scanVM r = vm" using vm(1) by (auto simp: vmContent_def)
  then have u: "vmUUID vm = u" using vmUUID_found by blast
  let ?t = "s\<lparr>vmOps := u # vmOps s\<rparr>"
  have "wp (memoryConfigForHost vm) (\<lambda>_. wp (resumeVM h vm) (\<lambda>_ _. True) (\<lambda>_ _. False)) (\<lambda>_ _. False) ?t"
    by (rule wp_mono [OF memoryConfig_succeeds [OF _ mem]])
       (use ff R u in \<open>auto intro!: resumeVM_succeeds [OF dirs _ addr load]\<close>)
  then have "wp (startGuarded h u) (\<lambda>_ _. True) (\<lambda>_ _. False) ?t"
    using ff r(1) by (simp add: startGuarded_def GetVM_def query_def wp_rules(3) wp_gets wp_call_ff wp_ret r(2) vm(2))
  then have "wp (StartVM h u) (\<lambda>_ _. True) (\<lambda>_ _. False) s"
    using ff free
    by (simp add: StartVM_def beginStartOperationCancelingColdArchive_def awaitColdArchive_def beginVMOperation_def
        endVMOperation_def wp_rules wp_modify_fun wp_ctxCheck_ff)
  moreover have "wp (StartVM h u) (\<lambda>_. loadedGuest h u g) (\<lambda>_ _. True) s"
    by (rule StartVM_loads [OF dirs vm]) (use R in \<open>simp add: ready_def\<close>)
  ultimately have "wp (StartVM h u) (\<lambda>vm' t. upAs u ''running'' vm' t \<and> loadedGuest h u g t) (\<lambda>_ _. False) s"
    using StartVM_wp [of h u s] by (auto simp: wp_def split: prod.splits sum.splits)
  then show ?thesis by (auto simp: wp_def loadedGuest_def split: prod.splits sum.splits)
qed

text \<open>
  C7: A sleeping machine can be woken.  When no call fails, the machine's row is in the state
  sleeping, its sleep files hold a guest that Firecracker can load, its address and its memory range
  are valid, no operation on it is under way and the file system is as \<open>ready\<close> says, then \<open>StartVM\<close>
  succeeds: the machine runs, and its guest is the saved one.
\<close>

theorem wake_succeeds:
  assumes dirs: "isAbs (cfgStateDir (hCfg h))" "plainElem (vmName vm)"
    and vm: "vmContent s u = Some vm" "vmState vm = ''sleeping''"
    and R: "ready h u (vmName vm) g s" and addr: "addressable (hCfg h) vm" and load: "hLoad h (hSave h g) \<noteq> None"
    and mem: "validateMemoryHotplugRange (vmMemoryMinMiB vm) (vmMemoryMaxMiB vm) = Inr ()"
    and free: "\<not> isRunning s u" "u \<notin> set (vmOps s)" "u \<notin> set (coldArchives s)"
  shows "\<exists>vm' t. StartVM h u s = (Inr vm', t) \<and> upAs u ''running'' vm' t \<and> hLoad h (hSave h g) = Some (guests t u)"
  using assms by (rule StartVM_wakes)

section \<open>A machine for examples\<close>

text \<open>The machine \<open>dev\<close> of \<open>oneMachine\<close> with an address, running, on a host with the usual kernel switches.\<close>

definition runningMachine :: mgr where
  "runningMachine = oneMachine\<lparr>
     vmsT := map (\<lambda>r. r\<lparr>cPrivateIP := Some ''fd7a:115c:a1e0::3'', cState := ''running''\<rparr>) (vmsT oneMachine),
     files := [(''/proc/sys/net/ipv6/conf/all/forwarding'', File ''0''), (''/proc/sys/net/ipv4/ip_forward'', File ''0'')],
     running := [\<lparr>procUUID = ''u1'', procName = ''dev'', procRuntimeDir = ''/var/lib/firedoze/vms/dev/run'',
       procSocketPath = socketPath (layoutOf Default ''dev''), procTapName = ''fdtap-dev'', procGuestCIDR = [], procFinalState = ''stopped''\<rparr>],
     taps := [''fdtap-dev''], guests := (\<lambda>_. ''work'')\<rparr>"

definition noFile :: "node option \<Rightarrow> bool" where
  "noFile x \<longleftrightarrow> (case x of Some (File _) \<Rightarrow> False | _ \<Rightarrow> True)"

lemma noFile_iff: "noFile x \<longleftrightarrow> (\<forall>b. x \<noteq> Some (File b))"
  by (auto simp: noFile_def split: option.splits node.splits)

text \<open>One evaluation of the sleep gives everything about the state after it.\<close>

lemma sleep_runs:
  "case SleepVM sampleHost ''u1'' runningMachine of
     (Inl _, s) \<Rightarrow> False
   | (Inr vm, s) \<Rightarrow> vmContent s ''u1'' = Some vm \<and> vmState vm = ''sleeping'' \<and> vmName vm = ''dev'' \<and>
       vmPrivateIP vm = ''fd7a:115c:a1e0::3'' \<and> vmMemoryMinMiB vm = 512 \<and> vmMemoryMaxMiB vm = 1024 \<and>
       \<not> isRunning s ''u1'' \<and> vmOps s = [] \<and> coldArchives s = [] \<and> fault_free s \<and>
       list_ex (\<lambda>r. cUuid r = ''u1'') (vmsT s) \<and> savedGuest sampleHost ''dev'' ''work'' s \<and>
       list_all (\<lambda>d. noFile (look s d)) (ancestors (runtimeDir (layoutOf Default ''dev''))) \<and>
       look s (stdoutPath (layoutOf Default ''dev'')) = None \<and> look s (stderrPath (layoutOf Default ''dev'')) = None \<and>
       look s ''/proc/sys/net/ipv6/conf/all/forwarding'' = Some (File ''0'') \<and>
       look s ''/proc/sys/net/ipv4/ip_forward'' = Some (File ''0'')"
  by code_simp

lemma example_address:
  assumes "vmPrivateIP vm = ''fd7a:115c:a1e0::3''"
  shows "addressable Default vm"
proof -
  let ?p = "336928495290377064170890405512231256064 + 3 :: nat"
  have "ParseIP ''fd7a:115c:a1e0::3'' = Some ?p" by (simp add: eval_net)
  moreover have "To4 ?p = None" "\<exists>hp. decrementIP ?p = Inr hp" by (simp_all add: To4_def decrementIP_def addToIP_def ipBound_def)
  ultimately show ?thesis unfolding addressable_def assms using privateIPv4Pair_default(1) by (simp only: option.case) auto
qed

lemma example_sleep:
  obtains vm s where "SleepVM sampleHost ''u1'' runningMachine = (Inr vm, s)"
    "vmContent s ''u1'' = Some vm" "vmState vm = ''sleeping''" "vmName vm = ''dev''" "addressable (hCfg sampleHost) vm"
    "validateMemoryHotplugRange (vmMemoryMinMiB vm) (vmMemoryMaxMiB vm) = Inr ()"
    "\<not> isRunning s ''u1''" "''u1'' \<notin> set (vmOps s)" "''u1'' \<notin> set (coldArchives s)" "ready sampleHost ''u1'' ''dev'' ''work'' s"
proof -
  obtain r s where rs: "SleepVM sampleHost ''u1'' runningMachine = (r, s)" by fastforce
  with sleep_runs obtain vm where r: "r = Inr vm" by (auto split: sum.splits)
  show ?thesis
    by (rule that [OF rs [unfolded r]])
       (use sleep_runs rs r in \<open>auto simp: ready_def noFile_iff list_all_iff sampleHost_def validRange_iff intro!: example_address\<close>)
qed

section \<open>Witnesses\<close>

lemma example_abs: "isAbs (cfgStateDir (hCfg sampleHost))" "plainElem ''dev''" "hLoad sampleHost (hSave sampleHost g) = Some g"
  by (simp_all add: sampleHost_def Default_def isAbs_def hasPrefix_def plainElem_def)

lemma wake_succeeds_witness:
  "\<exists>vm s vm' t. SleepVM sampleHost ''u1'' runningMachine = (Inr vm, s) \<and> StartVM sampleHost ''u1'' s = (Inr vm', t) \<and>
     guests t ''u1'' = ''work''"
proof -
  obtain vm s where e: "SleepVM sampleHost ''u1'' runningMachine = (Inr vm, s)"
    "vmContent s ''u1'' = Some vm" "vmState vm = ''sleeping''" "vmName vm = ''dev''" "addressable (hCfg sampleHost) vm"
    "validateMemoryHotplugRange (vmMemoryMinMiB vm) (vmMemoryMaxMiB vm) = Inr ()"
    "\<not> isRunning s ''u1''" "''u1'' \<notin> set (vmOps s)" "''u1'' \<notin> set (coldArchives s)" "ready sampleHost ''u1'' ''dev'' ''work'' s"
    by (rule example_sleep)
  have "\<exists>vm' t. StartVM sampleHost ''u1'' s = (Inr vm', t) \<and> upAs ''u1'' ''running'' vm' t \<and>
      hLoad sampleHost (hSave sampleHost ''work'') = Some (guests t ''u1'')"
    by (rule wake_succeeds [OF example_abs(1) _ e(2,3) _ e(5) _ e(6-9)]) (simp_all add: e(4,10) example_abs)
  with e(1) show ?thesis by (auto simp: example_abs)
qed

lemma example_wake:
  obtains vm s vm' t where "SleepVM sampleHost ''u1'' runningMachine = (Inr vm, s)" "vmContent s ''u1'' = Some vm"
    "vmName vm = ''dev''" "StartVM sampleHost ''u1'' s = (Inr vm', t)"
proof -
  obtain vm s where e: "SleepVM sampleHost ''u1'' runningMachine = (Inr vm, s)"
    "vmContent s ''u1'' = Some vm" "vmState vm = ''sleeping''" "vmName vm = ''dev''" "addressable (hCfg sampleHost) vm"
    "validateMemoryHotplugRange (vmMemoryMinMiB vm) (vmMemoryMaxMiB vm) = Inr ()"
    "\<not> isRunning s ''u1''" "''u1'' \<notin> set (vmOps s)" "''u1'' \<notin> set (coldArchives s)" "ready sampleHost ''u1'' ''dev'' ''work'' s"
    by (rule example_sleep)
  have "\<exists>vm' t. StartVM sampleHost ''u1'' s = (Inr vm', t) \<and> upAs ''u1'' ''running'' vm' t \<and>
      hLoad sampleHost (hSave sampleHost ''work'') = Some (guests t ''u1'')"
    by (rule StartVM_wakes [OF example_abs(1) _ e(2,3) _ e(5) _ e(6-9)]) (simp_all add: e(4,10) example_abs)
  with e(1,2,4) that show ?thesis by blast
qed

lemma sleep_wake_restores_guest_witness:
  "\<exists>vm s vm' t. SleepVM sampleHost ''u1'' runningMachine = (Inr vm, s) \<and> StartVM sampleHost ''u1'' s = (Inr vm', t) \<and>
     guests t ''u1'' = ''work'' \<and> vmName vm' = ''dev''"
proof -
  obtain vm s vm' t where e: "SleepVM sampleHost ''u1'' runningMachine = (Inr vm, s)" "vmContent s ''u1'' = Some vm"
    "vmName vm = ''dev''" "StartVM sampleHost ''u1'' s = (Inr vm', t)" by (rule example_wake)
  let ?r = "hd (vmsT runningMachine)" and ?p = "hd (running runningMachine)"
  have r: "vmContent runningMachine ''u1'' = Some (scanVM ?r)" "vmName (scanVM ?r) = ''dev''"
    "procOf runningMachine ''u1'' = Some ?p" "procSocketPath ?p = socketPath (layoutOf (hCfg sampleHost) ''dev'')"
    "guests runningMachine ''u1'' = ''work''"
    by (simp_all add: runningMachine_def oneMachine_def vmRowOf_def sampleParams_def vmContent_def scanVM_def procOf_def sampleHost_def)
  have "hLoad sampleHost (hSave sampleHost (guests runningMachine ''u1'')) = Some (guests t ''u1'') \<and>
      upAs ''u1'' ''running'' vm' t \<and> vmName vm' = vmName (scanVM ?r)"
    by (rule sleep_wake_restores_guest [OF example_abs(1) _ r(1) r(3) _ e(1,2) _ e(4)])
       (simp_all add: r example_abs)
  with e show ?thesis by (auto simp: r example_abs)
qed

text \<open>
  C16: What success means.  After a successful start the machine has a process and its row, which
  is the one returned, is in the state running; after a successful stop it has no process and its
  row is in the state stopped; after a successful sleep it has no process and its row, which is the
  one returned, is in the state sleeping.  This holds whichever calls failed before.
\<close>

theorem lifecycle_success:
  "(StartVM h u s = (Inr vm, t) \<longrightarrow> upAs u ''running'' vm t) \<and>
   (StopVM u s = (Inr (), t) \<longrightarrow> \<not> isRunning t u \<and> inState u ''stopped'' t) \<and>
   (SleepVM h u s = (Inr vm, t) \<longrightarrow> \<not> isRunning t u \<and> vmContent t u = Some vm \<and> vmState vm = ''sleeping'')"
  using wpD_Inr [OF StartVM_wp] wpD_Inr [OF StopVM_wp] wpD_Inr [OF StopVM_stops] wpD_Inr [OF SleepVM_wp] by blast

lemma lifecycle_success_witness:
  "\<exists>vm s vm' t. SleepVM sampleHost ''u1'' runningMachine = (Inr vm, s) \<and> \<not> isRunning s ''u1'' \<and>
     StartVM sampleHost ''u1'' s = (Inr vm', t) \<and> isRunning t ''u1'' \<and>
     \<not> isRunning (snd (StopVM ''u1'' runningMachine)) ''u1''"
proof -
  obtain vm s vm' t where e: "SleepVM sampleHost ''u1'' runningMachine = (Inr vm, s)" "vmContent s ''u1'' = Some vm"
    "vmName vm = ''dev''" "StartVM sampleHost ''u1'' s = (Inr vm', t)" by (rule example_wake)
  have "fst (StopVM ''u1'' runningMachine) = Inr ()" by code_simp
  then have stop: "StopVM ''u1'' runningMachine = (Inr (), snd (StopVM ''u1'' runningMachine))" by (metis prod.collapse)
  have "\<not> isRunning s ''u1''" using lifecycle_success [of sampleHost "''u1''" runningMachine vm s] e(1) by blast
  moreover have "isRunning t ''u1''" using lifecycle_success [of sampleHost "''u1''" s vm' t] e(4) by (simp add: upAs_def)
  moreover have "\<not> isRunning (snd (StopVM ''u1'' runningMachine)) ''u1''"
    using lifecycle_success [of sampleHost "''u1''" runningMachine vm "snd (StopVM ''u1'' runningMachine)"] stop by blast
  ultimately show ?thesis using e(1,4) by blast
qed

end
