(* ===== verification/Idle.thy ===== *)
theory Idle
  imports Caddy SleepWake
begin

text \<open>
  The idle monitor, \<open>internal/firecracker/idle.go\<close>: at every tick it puts the running machines to
  sleep that have had no activity for their threshold.  The reconciler it calls after a sleep (the
  Caddy configuration) is an argument.  Times are nanoseconds since 1970.

  Shown here: a round of the monitor leaves every machine alone that is not due, whichever calls
  fail; and the monitor as a whole is off when the global threshold is zero.
\<close>

section \<open>The monitor\<close>

text \<open>\<open>Time.Sub\<close>: the difference as a \<open>Duration\<close>, saturated at the ends of \<open>int64\<close>.\<close>

definition timeSub :: "int \<Rightarrow> int \<Rightarrow> int" where
  "timeSub a b = max (- (2 ^ 63)) (min (2 ^ 63 - 1) (a - b))"

definition threshold :: "Config \<Rightarrow> VM \<Rightarrow> int" where
  "threshold cfg vm =
     (let seconds = (if vmIdleSleepAfterSeconds vm = 0 then idleDefaultSleepAfterSeconds (cfgIdle cfg) else vmIdleSleepAfterSeconds vm) in
      wrap64 (seconds * second))"

fun firstTime :: "string list \<Rightarrow> int option" where
  "firstTime [] = None"
| "firstTime (raw # rest) = (if raw = [] then firstTime rest else
     case parseRFC3339 raw of Some t \<Rightarrow> Some t | None \<Rightarrow> firstTime rest)"

definition vmLastActivity :: "VM \<Rightarrow> int option" where
  "vmLastActivity vm = firstTime [vmLastActivityAt vm, vmLastStartedAt vm]"

definition due :: "Config \<Rightarrow> int \<Rightarrow> VM \<Rightarrow> bool" where
  "due cfg now vm \<longleftrightarrow> vmState vm = ''running'' \<and> threshold cfg vm > 0 \<and>
     (case vmLastActivity vm of None \<Rightarrow> False | Some lastActive \<Rightarrow> \<not> timeSub now lastActive < threshold cfg vm)"

definition sleepIdleVM :: "host \<Rightarrow> ('z mgr_scheme, unit) prog option \<Rightarrow> VM \<Rightarrow> ('z mgr_scheme, unit) prog" where
  "sleepIdleVM h reconciler vm = bind (attempt (SleepVM h (vmUUID vm))) (\<lambda>r.
     case r of Inl _ \<Rightarrow> ret ()
     | Inr _ \<Rightarrow> (case reconciler of None \<Rightarrow> ret () | Some reconcile \<Rightarrow> ignoring reconcile))"

definition IdleMonitor_check :: "host \<Rightarrow> ('z mgr_scheme, unit) prog option \<Rightarrow> int \<Rightarrow> ('z mgr_scheme, unit) prog" where
  "IdleMonitor_check h reconciler now = bind (attempt ListVMs) (\<lambda>r.
     case r of Inl _ \<Rightarrow> ret ()
     | Inr vms \<Rightarrow> forEach vms (\<lambda>vm. if due (hCfg h) now vm then sleepIdleVM h reconciler vm else ret ()))"

text \<open>The first round is at the start, the others at the ticks until the context ends.\<close>

definition IdleMonitor_Run :: "host \<Rightarrow> ('z mgr_scheme, unit) prog option \<Rightarrow> int list \<Rightarrow> ('z mgr_scheme, unit) prog" where
  "IdleMonitor_Run h reconciler ticks =
     (if idleDefaultSleepAfterSeconds (cfgIdle (hCfg h)) = 0 then ret ()
      else bind (gets clock) (\<lambda>now. forEach (now # ticks) (IdleMonitor_check h reconciler)))"

section \<open>Machines that are left alone\<close>

text \<open>The row and the process of a machine.\<close>

definition standing :: "string \<Rightarrow> VM option \<Rightarrow> Process option \<Rightarrow> 'z mgr_scheme \<Rightarrow> bool" where
  "standing v row p s \<longleftrightarrow> vmContent s v = row \<and> procOf s v = p"

lemma standing_frame [simp]:
  "standing v row p (s\<lparr>outcomes := rs\<rparr>) = standing v row p s" "standing v row p (s\<lparr>files := fs\<rparr>) = standing v row p s"
  "standing v row p (s\<lparr>taps := ts\<rparr>) = standing v row p s"
  by (simp_all add: standing_def vmContent_def procOf_def)

lemma standing_blind: "outcome_blind (standing v row p)" "files_blind (standing v row p)"
  by (simp_all add: outcome_blind_def files_blind_def)

lemma find_other: "u \<noteq> v \<Longrightarrow> (\<And>r. cUuid (f r) = cUuid r) \<Longrightarrow>
    find (\<lambda>r. cUuid r = v) (map (\<lambda>r. if cUuid r = u then f r else r) rows) = find (\<lambda>r. cUuid r = v) rows"
  by (induction rows) auto

lemma standing_SetVMState: "u \<noteq> v \<Longrightarrow> keeps (standing v row p) (SetVMState u st)"
  unfolding SetVMState_def
  by (rule keeps_updateVMRow) (simp_all add: standing_blind standing_def vmContent_def procOf_def find_other)

lemma procOf_other:
  "u \<noteq> v \<Longrightarrow> find (\<lambda>q. procUUID q = v) (filter (\<lambda>q. procUUID q \<noteq> u) ps) = find (\<lambda>q. procUUID q = v) ps"
  "u \<noteq> v \<Longrightarrow> find (\<lambda>q. procUUID q = v) (map (\<lambda>q. if procUUID q = u then q\<lparr>procFinalState := f\<rparr> else q) ps) = find (\<lambda>q. procUUID q = v) ps"
  by (induction ps) auto

lemma standing_running:
  assumes "u \<noteq> v"
  shows "standing v row p (s\<lparr>running := filter (\<lambda>q. procUUID q \<noteq> u) (running s)\<rparr>) = standing v row p s"
    "standing v row p (s\<lparr>running := map (\<lambda>q. if procUUID q = u then q\<lparr>procFinalState := f\<rparr> else q) (running s)\<rparr>) = standing v row p s"
  using assms by (simp_all add: standing_def vmContent_def procOf_def procOf_other)

lemma standing_stopProcess:
  assumes "procUUID q \<noteq> v"
  shows "keeps (standing v row p) (stopProcess q f)"
proof -
  note b = standing_blind and r = standing_running [OF assms]
  have c: "keeps (standing v row p) (cleanupAfterExit q)"
    unfolding cleanupAfterExit_def cleanupNetwork_def deleteTap_def by (intro keeps_rules keeps_modify b) simp
  have e: "keeps (standing v row p) (processExit q)"
    unfolding processExit_def Let_def by (intro keeps_rules keeps_modify c standing_SetVMState assms) (simp add: r)
  have "keeps (standing v row p) (waitForProcessExit q)"
    unfolding waitForProcessExit_def by (intro keeps_bind keeps_if keeps_gets keeps_ctxCheck keeps_ret e b)
  then show ?thesis
    unfolding stopProcess_def by (intro keeps_bind keeps_modify c) (simp_all add: r)
qed

lemma standing_SleepVM:
  assumes "u \<noteq> v"
  shows "keeps (standing v row p) (SleepVM h u)"
proof -
  note b = standing_blind
  have snap: "keeps (standing v row p) (firecrackerCreateSnapshot h u a c)" for a c
    by (auto simp: keeps_def firecrackerCreateSnapshot_def next_outcome_blind [OF b(1)] split: prod.splits outcome.splits)
  have proc: "keeps (standing v row p) (bind (gets (\<lambda>s. procOf s u)) (\<lambda>q. case q of None \<Rightarrow> m | Some q \<Rightarrow> k q))"
    if "keeps (standing v row p) m" "\<And>q. procUUID q = u \<Longrightarrow> keeps (standing v row p) (k q)"
    for m :: "('z mgr_scheme, VM) prog" and k
    using that by (auto simp: keeps_def bind_def gets_def split: option.split dest: procOf_uuid)
  show ?thesis
    unfolding SleepVM_def firecrackerSetVMState_def Let_def
    by (intro keeps_bind keeps_if keeps_sum keeps_ret keeps_throw keeps_attempt keeps_ignoring keeps_wrapping keeps_call
        GetVM_keeps files_ops_keep proc b standing_SetVMState assms snap standing_stopProcess) (simp add: assms)
qed

lemma keeps_forEach_in: "(\<And>x. x \<in> set xs \<Longrightarrow> keeps I (f x)) \<Longrightarrow> keeps I (forEach xs f)"
  by (induction xs) (auto intro!: keeps_rules)

lemma find_uuid:
  assumes "distinct (map cUuid rows)" "r \<in> set rows"
  shows "find (\<lambda>x. cUuid x = cUuid r) rows = Some r"
  using assms by (induction rows) auto

lemma scanVM_uuid: "vmUUID (scanVM r) = cUuid r"
  by (simp add: scanVM_def)

lemma ListVMs_rows:
  assumes "wfStore s"
  shows "wp ListVMs (\<lambda>vms t. (\<exists>rs. t = s\<lparr>outcomes := rs\<rparr>) \<and> (\<forall>x \<in> set vms. vmContent s (vmUUID x) = Some x))
     (\<lambda>_ t. \<exists>rs. t = s\<lparr>outcomes := rs\<rparr>) s"
proof -
  have "vmContent s (cUuid r) = Some (scanVM r)" if "r \<in> set (vmsT s)" for r
    using that assms by (simp add: vmContent_def wfStore_def find_uuid)
  then show ?thesis unfolding ListVMs_def ListVMsMatching_def
    by (intro wp_query_frame) (auto simp: scanVM_uuid)
qed

text \<open>What the monitor relies on of the reconciler it calls: the tables and the processes stay as they are.\<close>

locale reconciler =
  fixes reconcile :: "('z mgr_scheme, unit) prog"
  assumes reconcile_frame: "keeps (\<lambda>t. vmsT t = vms \<and> running t = ps) reconcile"
begin

lemma reconcile_standing: "keeps (standing v row p) reconcile"
proof (rule keepsI)
  fix s :: "'z mgr_scheme" assume "standing v row p s"
  with keepsD [OF reconcile_frame, of s] show "standing v row p (snd (reconcile s))"
    by (auto simp: standing_def vmContent_def procOf_def)
qed

lemma check_standing:
  assumes "wfStore s" "vmContent s v = Some vm" "\<not> due (hCfg h) now vm"
  shows "standing v (Some vm) (procOf s v) (snd (IdleMonitor_check h (Some reconcile) now s))"
proof -
  let ?S = "standing v (Some vm) (procOf s v)"
  have S: "?S s" using assms(2) by (simp add: standing_def)
  have other: "vmUUID x \<noteq> v" if "vmContent s (vmUUID x) = Some x" "due (hCfg h) now x" for x
    using that assms(2,3) by auto
  have "keeps ?S (forEach vms (\<lambda>x. if due (hCfg h) now x then sleepIdleVM h (Some reconcile) x else ret ()))"
    if "\<forall>x \<in> set vms. vmContent s (vmUUID x) = Some x" for vms
    unfolding sleepIdleVM_def using that other
    by (intro keeps_forEach_in) (auto intro!: keeps_bind keeps_attempt keeps_ret keeps_ignoring standing_SleepVM reconcile_standing split: sum.split)
  then have "wp (IdleMonitor_check h (Some reconcile) now) (\<lambda>_. ?S) (\<lambda>_. ?S) s"
    unfolding IdleMonitor_check_def wp_bind wp_attempt
    by (intro wp_mono [OF ListVMs_rows [OF assms(1)]])
       (auto simp: wp_ret S intro!: keeps_wp)
  then show ?thesis by (simp add: wp_snd)
qed

end

interpretation caddy: reconciler "Caddy.Reconcile cfg" for cfg
  by unfold_locales (auto simp: Caddy.Reconcile_def Let_def outcome_blind_def intro!: keeps_rules keeps_modify)

text \<open>
  C17: A round of the idle monitor touches only machines that are due: the row and the process of every
  machine that is not running, or has no threshold, or has been active within its threshold, are the
  same after the round, whichever calls fail on the way and whatever happens to the other machines.
\<close>

theorem idle_round_spares_active:
  assumes "wfStore s" and "vmContent s v = Some vm" and "\<not> due (hCfg h) now vm"
    and "IdleMonitor_check h (Some (Caddy.Reconcile cfg)) now s = (r, t)"
  shows "vmContent t v = Some vm \<and> procOf t v = procOf s v"
  using caddy.check_standing [OF assms(1-3), of cfg] assms(4) by (simp add: standing_def)

text \<open>Two machines, both up since the start of the year; the clock of the round is a minute later.\<close>

definition twoMachines :: service where
  "twoMachines = mgr.extend (runningMachine\<lparr>
     vmsT := concat (map (\<lambda>r. [r\<lparr>cLastActivityAt := ''2026-01-01T00:00:00Z'', cIdleSleepAfterSeconds := 30\<rparr>,
       r\<lparr>cUuid := ''u2'', cName := ''web'', cLastActivityAt := ''2026-01-01T00:00:50Z'', cIdleSleepAfterSeconds := 30\<rparr>]) (vmsT runningMachine))\<rparr>)
     (service.fields None)"

lemma idle_round_spares_active_witness:
  "\<exists>vm. vmContent twoMachines ''u2'' = Some vm \<and> vmState vm = ''running'' \<and>
     vmContent (snd (IdleMonitor_check sampleHost (Some (Caddy.Reconcile Default)) 1767225660000000000 twoMachines)) ''u2'' = Some vm"
proof -
  define vm where "vm = scanVM (vmsT twoMachines ! 1)"
  have rows: "map cUuid (vmsT twoMachines) = [''u1'', ''u2'']" "map cName (vmsT twoMachines) = [''dev'', ''web'']"
    "vmContent twoMachines ''u2'' = Some vm" "vmState vm = ''running''"
    "vmIdleSleepAfterSeconds vm = 30"
    "vmLastActivityAt vm = ''2026-01-01T00:00:50Z''"
    "routesT twoMachines = []" "snapshotsT twoMachines = []" "protectionsT twoMachines = []"
    by (simp_all add: vm_def twoMachines_def runningMachine_def oneMachine_def mgr.defs service.defs sampleMgr_def sampleAuth_def emptyStore_def
        auth.defs store.defs vmRowOf_def sampleParams_def vmContent_def scanVM_def)
  have "parseRFC3339 ''2026-01-01T00:00:50Z'' = Some 1767225650000000000" by code_simp
  then have "\<not> due (hCfg sampleHost) 1767225660000000000 vm"
    by (simp add: due_def vmLastActivity_def rows threshold_def timeSub_def wrap64_id second_def)
  moreover have "wfStore twoMachines" using rows by (simp add: wfStore_def)
  ultimately show ?thesis
    using idle_round_spares_active [OF _ rows(3)] rows(3,4) by (metis prod.collapse)
qed

end
