(* ===== verification/Proxy.thy ===== *)
theory Proxy
  imports Idle
begin

text \<open>
  The wake proxies of \<open>internal/proxy\<close>: the HTTP proxy behind Caddy (\<open>wake.go\<close>), its captcha gate
  (\<open>wake_gate.go\<close>) and the proxy for SSH connections (\<open>tcp_wake.go\<close>).  Both start machines through the
  interface \<open>VMStarter\<close>, here an argument; the locale \<open>vm_starter\<close> is its contract, and the machine
  manager is shown to meet it.  A request is the parts of it that the handlers look at; the answers
  of the captcha library to it are arguments.  A response is what the handler writes: an error, a
  redirect with the cookie it sets, the captcha page, or the address a request is passed on to.

  Shown here: the handler answers every request; what it forwards goes to a running, published
  machine at the address and port of its route, and past a protected name only with a valid cookie;
  and it starts only sleeping machines with automatic wake, for requests with a valid cookie.
\<close>

section \<open>Requests and responses\<close>

record httpRequest =
  rqMethod :: string
  rqHost :: string
  rqPath :: string
  rqURI :: string
  rqQuery :: "(string \<times> string) list"
  rqForm :: "(string \<times> string) list option"   \<comment> \<open>None when \<open>ParseForm\<close> fails\<close>
  rqCookies :: "(string \<times> string) list"

record captchaAnswers =
  capNew :: string
  capImage :: "string \<Rightarrow> bool"
  capVerify :: "string \<Rightarrow> string \<Rightarrow> bool"

datatype response =
    HttpError int string
  | SeeOther string Cookie
  | Page string
  | Image string
  | Forward string

definition formGet :: "(string \<times> string) list \<Rightarrow> string \<Rightarrow> string" where
  "formGet vs k = (case find (\<lambda>e. fst e = k) vs of None \<Rightarrow> [] | Some e \<Rightarrow> snd e)"

definition routeHost :: "string \<Rightarrow> string" where
  "routeHost hostport =
     (let host = toLower hostport in
      trimSuffix (case SplitHostPort host of None \<Rightarrow> host | Some (h, _) \<Rightarrow> h) ''.'')"

text \<open>The check of the redirect target, in \<open>handleSignedAuthURL\<close> and in \<open>verify\<close>.\<close>

definition localNext :: "string \<Rightarrow> string" where
  "localNext next = (if next = [] \<or> \<not> hasPrefix next ''/'' \<or> hasPrefix next ''//'' then ''/'' else next)"

section \<open>The captcha gate\<close>

fun escapeHTML :: "string \<Rightarrow> string" where
  "escapeHTML [] = []"
| "escapeHTML (c # s) = (if c = CHR ''<'' then ''&lt;'' else if c = CHR ''>'' then ''&gt;'' else if c = CHR ''&'' then ''&amp;''
     else if c = CHR 39 then ''&#39;'' else if c = CHR 34 then ''&#34;'' else [c]) @ escapeHTML s"

definition textLines :: "string list \<Rightarrow> string" where
  "textLines ls = concat (map (\<lambda>l. l @ [CHR 0x0A]) ls)"

definition challenge :: "captchaAnswers \<Rightarrow> httpRequest \<Rightarrow> response" where
  "challenge cap r = Page (textLines [
     ''<!doctype html>'',
     ''<html lang=\"en\">'',
     ''<head>'',
     ''  <meta charset=\"utf-8\">'',
     ''  <meta name=\"viewport\" content=\"width=device-width, initial-scale=1\">'',
     ''  <title>Are you human?</title>'',
     ''  <style>'',
     ''    body { font-family: system-ui, sans-serif; margin: 2rem; line-height: 1.4; max-width: 34rem; }'',
     ''    img { display: block; margin: 1rem 0; border: 1px solid #ccc; }'',
     ''    input, button { font: inherit; padding: .5rem .6rem; }'',
     ''  </style>'',
     ''</head>'',
     ''<body>'',
     ''  <h1>Are you human?</h1>'',
     ''  <form method=\"post\" action=\"/_firedoze/wake\">'',
     ''    <input type=\"hidden\" name=\"id\" value=\"'' @ escapeHTML (capNew cap) @ ''\">'',
     ''    <input type=\"hidden\" name=\"next\" value=\"'' @ escapeHTML (rqURI r) @ ''\">'',
     ''    <img src=\"/_firedoze/wake-captcha/'' @ escapeHTML (capNew cap) @ ''.png\" width=\"240\" height=\"80\" alt=\"CAPTCHA\">'',
     ''    <label>Type the digits shown above</label><br>'',
     ''    <input name=\"answer\" inputmode=\"numeric\" autocomplete=\"off\" required autofocus>'',
     ''    <button type=\"submit\">Continue</button>'',
     ''  </form>'',
     ''</body>'',
     ''</html>''])"

definition serveCaptcha :: "captchaAnswers \<Rightarrow> httpRequest \<Rightarrow> response" where
  "serveCaptcha cap r =
     (let name = trimPrefix (rqPath r) ''/_firedoze/wake-captcha/''; id = trimSuffix name ''.png'' in
      if capImage cap id then Image id else HttpError 404 ''captcha not found'')"

definition wakeGateCookieTTL :: int where
  "wakeGateCookieTTL = 30 * 24 * 3600 * second"

definition verify :: "captchaAnswers \<Rightarrow> httpRequest \<Rightarrow> string \<Rightarrow> ('z auth_scheme, response) prog" where
  "verify cap r host = (case rqForm r of
      None \<Rightarrow> ret (HttpError 400 ''invalid captcha form'')
    | Some form \<Rightarrow>
        if \<not> capVerify cap (formGet form ''id'') (formGet form ''answer'') then ret (HttpError 403 ''captcha failed'') else
        bind (gets clock) (\<lambda>now.
        bind (attempt (SetCookie host (now + wakeGateCookieTTL))) (\<lambda>c.
        case c of Inl _ \<Rightarrow> ret (HttpError 503 ''wake gate unavailable'')
        | Inr cookie \<Rightarrow> ret (SeeOther (localNext (formGet form ''next'')) cookie))))"

definition gateHandle :: "captchaAnswers \<Rightarrow> httpRequest \<Rightarrow> string \<Rightarrow> ('z auth_scheme, response) prog" where
  "gateHandle cap r host =
     (if rqMethod r = ''GET'' \<and> hasPrefix (rqPath r) ''/_firedoze/wake-captcha/'' then ret (serveCaptcha cap r)
      else if rqMethod r = ''POST'' \<and> rqPath r = ''/_firedoze/wake'' then verify cap r host
      else if rqMethod r = ''GET'' then ret (challenge cap r)
      else ret (HttpError 403 ''firedoze wake captcha required''))"

section \<open>The HTTP proxy\<close>

definition handleSignedAuthURL :: "httpRequest \<Rightarrow> string \<Rightarrow> ('z auth_scheme, response) prog" where
  "handleSignedAuthURL r host =
     bind (Validate (formGet (rqQuery r) ''token'') host) (\<lambda>v.
     case v of None \<Rightarrow> ret (HttpError 403 ''firedoze auth token invalid or expired'')
     | Some expires \<Rightarrow>
         bind (attempt (SetCookie host expires)) (\<lambda>c.
         case c of Inl _ \<Rightarrow> ret (HttpError 503 ''firedoze route auth unavailable'')
         | Inr cookie \<Rightarrow> ret (SeeOther (localNext (formGet (rqQuery r) ''next'')) cookie)))"

definition routeForHost :: "Config \<Rightarrow> string \<Rightarrow> ('z store_scheme, (VM \<times> int) option) prog" where
  "routeForHost cfg hostport =
     (let host = routeHost hostport; base = trimSuffix (toLower (cfgBaseDomain cfg)) ''.''; suffix = ''.'' @ base in
      if \<not> hasSuffix host suffix then ret None else
      let name = trimSuffix host suffix in
      if name = [] then ret None else
      bind (attempt (GetVMByName name)) (\<lambda>v.
      case v of Inr vm \<Rightarrow> ret (Some (vm, vmDefaultHTTPPort vm))
      | Inl _ \<Rightarrow>
          bind (attempt (GetRoute name)) (\<lambda>route.
          case route of Inl _ \<Rightarrow> ret None
          | Inr route \<Rightarrow>
              bind (attempt (GetVM (routeVMUUID route))) (\<lambda>v.
              case v of Inl _ \<Rightarrow> ret None | Inr vm \<Rightarrow> ret (Some (vm, routePort route))))))"

text \<open>The machine after \<open>StartVM\<close>: the one returned, or the current row when it already runs.\<close>

definition wakeVM :: "(string \<Rightarrow> ('z mgr_scheme, VM) prog) \<Rightarrow> VM \<Rightarrow> ('z mgr_scheme, VM option) prog" where
  "wakeVM start vm = bind (attempt (start (vmUUID vm))) (\<lambda>r.
     case r of
       Inr started \<Rightarrow> ret (Some started)
     | Inl e \<Rightarrow>
         if \<not> errIs e ErrAlreadyRunning then ret None else
         bind (attempt (GetVM (vmUUID vm))) (\<lambda>g.
         case g of Inr refreshed \<Rightarrow> ret (Some refreshed) | Inl _ \<Rightarrow> ret (Some vm)))"

text \<open>The end of \<open>ServeHTTP\<close>, from the check of the state on.\<close>

definition forwardTo :: "VM \<Rightarrow> int \<Rightarrow> ('z mgr_scheme, response) prog" where
  "forwardTo vm port =
     (if vmState vm \<noteq> ''running'' then ret (HttpError 503 ''firedoze vm is not running'') else
      if vmPrivateIP vm = [] then ret (HttpError 503 ''firedoze vm has no private ip'') else
      bind (ignoring (TouchVMActivity (vmUUID vm))) (\<lambda>_.
      ret (Forward (JoinHostPort (vmPrivateIP vm) (itoa port)))))"

text \<open>\<open>ServeHTTP\<close> from the route on: first what follows the check of a protected name, then the checks before it.\<close>

definition serveAllowed :: "(string \<Rightarrow> ('z mgr_scheme, VM) prog) \<Rightarrow> captchaAnswers \<Rightarrow> httpRequest \<Rightarrow> VM \<Rightarrow> int \<Rightarrow> ('z mgr_scheme, response) prog" where
  "serveAllowed start cap r vm port =
     (let host = routeHost (rqHost r) in
      if vmState vm = ''sleeping'' then
        (if \<not> vmAutoWake vm then ret (HttpError 503 ''firedoze vm auto wake is disabled'') else
         bind (Approved (rqCookies r) host) (\<lambda>approved.
         if \<not> approved then gateHandle cap r host else
         bind (wakeVM start vm) (\<lambda>w.
         case w of None \<Rightarrow> ret (HttpError 503 ''firedoze wake failed'') | Some vm \<Rightarrow> forwardTo vm port)))
      else forwardTo vm port)"

definition serveRoute :: "(string \<Rightarrow> ('z mgr_scheme, VM) prog) \<Rightarrow> captchaAnswers \<Rightarrow> httpRequest \<Rightarrow> VM \<Rightarrow> int \<Rightarrow> ('z mgr_scheme, response) prog" where
  "serveRoute start cap r vm port =
     (let host = routeHost (rqHost r); notFound = ret (HttpError 404 ''firedoze route not found'') in
      if vmState vm \<noteq> ''running'' \<and> vmState vm \<noteq> ''sleeping'' then notFound else
      if \<not> vmPublicHTTP vm then notFound else
      bind (attempt (IsRouteHostnameProtected host)) (\<lambda>protected.
      case protected of Inl _ \<Rightarrow> ret (HttpError 503 ''firedoze route auth unavailable'')
      | Inr protected \<Rightarrow>
          bind (if protected then Approved (rqCookies r) host else ret True) (\<lambda>through.
          if \<not> through then ret (HttpError 403 ''firedoze route is protected'') else
          serveAllowed start cap r vm port)))"

definition ServeHTTP :: "Config \<Rightarrow> (string \<Rightarrow> ('z mgr_scheme, VM) prog) \<Rightarrow> captchaAnswers \<Rightarrow> httpRequest \<Rightarrow> ('z mgr_scheme, response) prog" where
  "ServeHTTP cfg start cap r =
     (if rqMethod r = ''GET'' \<and> rqPath r = ''/_firedoze/auth'' then handleSignedAuthURL r (routeHost (rqHost r)) else
      bind (routeForHost cfg (rqHost r)) (\<lambda>route.
      case route of None \<Rightarrow> ret (HttpError 404 ''firedoze route not found'')
      | Some (vm, port) \<Rightarrow> serveRoute start cap r vm port))"

section \<open>The SSH proxy\<close>

datatype sshOutcome = Dropped | Connected string

definition vmByPrivateIP :: "string \<Rightarrow> ('z store_scheme, VM) prog" where
  "vmByPrivateIP ip = bind ListVMs (\<lambda>vms.
     case find (\<lambda>vm. vmPrivateIP vm = ip) vms of
       Some vm \<Rightarrow> ret vm
     | None \<Rightarrow> throw (Wrap ''vm private ip'' (Sentinel ErrNotFound)))"

text \<open>
  The original destination of the connection is an argument, None when the socket does not tell;
  waiting for the machine's SSH port and connecting to it are calls that may fail.
\<close>

definition connectSSH :: "VM \<Rightarrow> ('z mgr_scheme, sshOutcome) prog" where
  "connectSSH vm =
     bind (attempt call) (\<lambda>ready.
     case ready of Inl _ \<Rightarrow> ret Dropped
     | Inr _ \<Rightarrow>
         bind (ignoring (TouchVMActivity (vmUUID vm))) (\<lambda>_.
         bind (attempt call) (\<lambda>upstream.
         case upstream of Inl _ \<Rightarrow> ret Dropped | Inr _ \<Rightarrow> ret (Connected (JoinHostPort (vmPrivateIP vm) ''22'')))))"

definition handleSSHConn :: "(string \<Rightarrow> ('z mgr_scheme, VM) prog) \<Rightarrow> string option \<Rightarrow> ('z mgr_scheme, sshOutcome) prog" where
  "handleSSHConn start dst = (case dst of None \<Rightarrow> ret Dropped
     | Some ip \<Rightarrow>
         bind (attempt (vmByPrivateIP ip)) (\<lambda>v.
         case v of Inl _ \<Rightarrow> ret Dropped
         | Inr vm \<Rightarrow>
             if vmState vm \<noteq> ''running'' then
               (if \<not> vmAutoWake vm then ret Dropped else
                bind (wakeVM start vm) (\<lambda>w. case w of None \<Rightarrow> ret Dropped | Some vm \<Rightarrow> connectSSH vm))
             else connectSSH vm))"

definition isIPv4CIDR :: "string \<Rightarrow> bool" where
  "isIPv4CIDR cidr = (case ParseCIDR cidr of None \<Rightarrow> False | Some (ip, _) \<Rightarrow> To4 ip \<noteq> None)"

definition sshRedirectRule :: "Config \<Rightarrow> string \<Rightarrow> string list" where
  "sshRedirectRule cfg op = [''-t'', ''nat'', op, ''PREROUTING'', ''-i'', wgInterface (cfgWireGuard cfg), ''-p'', ''tcp'',
     ''-d'', netSubnet (cfgVMNetwork cfg), ''--dport'', ''22'', ''-j'', ''REDIRECT'', ''--to-ports'', itoa (sshWakeProxyPort (cfgSSH cfg))]"

section \<open>What the checks leave alone\<close>

text \<open>The states differ at most in the key of the route authorisation (and in what is still to fail).\<close>

definition authOnly :: "'z mgr_scheme \<Rightarrow> 'z mgr_scheme \<Rightarrow> bool" where
  "authOnly s t \<longleftrightarrow> (\<exists>rs e k. t = s\<lparr>outcomes := rs, entropy := e, authKey := k\<rparr>)"

lemma authOnly_same: "authOnly s t \<Longrightarrow> running t = running s \<and> vmsT t = vmsT s \<and> routesT t = routesT s \<and>
    protectionsT t = protectionsT s \<and> clock t = clock s"
  by (auto simp: authOnly_def)

lemma authOnly_refl [simp]: "authOnly s s"
  unfolding authOnly_def by (rule exI [of _ "outcomes s"], rule exI [of _ "entropy s"], rule exI [of _ "authKey s"]) simp

lemma authOnly_upd:
  assumes "authOnly s t"
  shows "authOnly s (t\<lparr>outcomes := rs\<rparr>)" "authOnly s (t\<lparr>entropy := e\<rparr>)" "authOnly s (t\<lparr>authKey := k\<rparr>)"
proof -
  from assms obtain a b c where t: "t = s\<lparr>outcomes := a, entropy := b, authKey := c\<rparr>" unfolding authOnly_def by blast
  have "t\<lparr>outcomes := rs\<rparr> = s\<lparr>outcomes := rs, entropy := b, authKey := c\<rparr>"
    "t\<lparr>entropy := e\<rparr> = s\<lparr>outcomes := a, entropy := e, authKey := c\<rparr>" "t\<lparr>authKey := k\<rparr> = s\<lparr>outcomes := a, entropy := b, authKey := k\<rparr>"
    by (simp_all add: t)
  then show "authOnly s (t\<lparr>outcomes := rs\<rparr>)" "authOnly s (t\<lparr>entropy := e\<rparr>)" "authOnly s (t\<lparr>authKey := k\<rparr>)"
    unfolding authOnly_def by blast+
qed

lemma keyBytes_authOnly: "keeps (authOnly s) keyBytes"
  unfolding keyBytes_def loadOrGenerateKey_def randRead_def
  by (rule keeps_wpI) (auto simp: wp_rules authOnly_upd intro!: wp_osReadFile wp_call_frame split: prod.splits)

lemma auth_authOnly [keeps_rules]:
  "keeps (authOnly s) (Validate tok host)" "keeps (authOnly s) (Approved cs host)" "keeps (authOnly s) (SetCookie host e)"
  unfolding Validate_def Approved_def SetCookie_def Token_def Let_def
  by (intro keeps_rules keyBytes_authOnly)+

lemma authOnly_query [keeps_rules]: "keeps (authOnly s) (query f)"
  unfolding query_def by (rule keeps_wpI) (auto simp: wp_rules authOnly_upd intro!: wp_call_frame)

lemma handlers_authOnly [keeps_rules]:
  "keeps (authOnly s) (handleSignedAuthURL r host)" "keeps (authOnly s) (gateHandle cap r host)" "keeps (authOnly s) (routeForHost cfg hp)"
  "keeps (authOnly s) (IsRouteHostnameProtected host)"
  unfolding handleSignedAuthURL_def gateHandle_def verify_def routeForHost_def GetVMByName_def GetRoute_def GetVM_def
    IsRouteHostnameProtected_def Let_def
  by (intro keeps_rules)+

section \<open>What the checks find\<close>

text \<open>
  A request is admitted for a host: its first cookie of the route authorisation holds a token for
  that host which has not expired and which is signed with the key.
\<close>

definition admitted :: "string \<Rightarrow> int \<Rightarrow> (string \<times> string) list \<Rightarrow> string \<Rightarrow> bool" where
  "admitted key now cookies host \<longleftrightarrow> (\<exists>c p0 p1 p2 tx sec. find (\<lambda>c. fst c = CookieName) cookies = Some c \<and>
     snd c = p0 @ ''.'' @ p1 @ ''.'' @ p2 \<and> decodePart p0 = Some host \<and> decodePart p1 = Some tx \<and> parseInt tx = Some sec \<and>
     now \<le> timeUnix sec \<and> length key = KeySize \<and> b64Decode p2 = Some (hmacSHA256 key (p0 @ ''.'' @ p1)))"

lemma Approved_admitted:
  "wp (Approved cookies host) (\<lambda>b t. b \<longrightarrow> admitted (authKey t) (clock t) cookies host) (\<lambda>_ _. False) s"
proof (cases "find (\<lambda>c. fst c = CookieName) cookies")
  case (Some c)
  have ok: "wp (Validate (snd c) host) (\<lambda>v t. v \<noteq> None \<longrightarrow> admitted (authKey t) (clock t) cookies host) (\<lambda>_ _. False) s"
  proof -
    obtain r t where v: "Validate (snd c) host s = (r, t)" by fastforce
    moreover have "\<exists>x. r = Inr x" using v unfolding Validate_def bind_def attempt_def
      by (auto simp: gets_def ret_def split: prod.splits sum.splits)
    ultimately show ?thesis
      using Validate_Some [of "snd c" host s _ t] Some unfolding wp_def admitted_def by fastforce
  qed
  show ?thesis by (simp add: Approved_def wp_bind Some) (rule wp_mono [OF ok], simp_all add: wp_ret)
qed (simp add: Approved_def wp_ret)

text \<open>The machine and port of a host name, in the tables.\<close>

definition routed :: "Config \<Rightarrow> 'z store_scheme \<Rightarrow> string \<Rightarrow> (VM \<times> int) option" where
  "routed cfg s hostport =
     (let host = routeHost hostport; suffix = ''.'' @ trimSuffix (toLower (cfgBaseDomain cfg)) ''.''; name = trimSuffix host suffix in
      if \<not> hasSuffix host suffix \<or> name = [] then None else
      case find (\<lambda>r. cName r = name) (vmsT s) of
        Some r \<Rightarrow> Some (scanVM r, cDefaultHttpPort r)
      | None \<Rightarrow> (case find (\<lambda>r. rName r = name) (routesT s) of
           None \<Rightarrow> None
         | Some rt \<Rightarrow> map_option (\<lambda>r. (scanVM r, rPort rt)) (find (\<lambda>r. cUuid r = rVmUuid rt) (vmsT s))))"

lemma find_SomeD: "find P xs = Some x \<Longrightarrow> x \<in> set xs \<and> P x"
  by (auto simp: find_Some_iff)

lemma routed_content:
  assumes "wfStore s" "routed cfg s hp = Some (vm, port)"
  shows "vmContent s (vmUUID vm) = Some vm"
proof -
  from assms(2) obtain r where "r \<in> set (vmsT s)" "vm = scanVM r"
    by (auto simp: routed_def Let_def dest!: find_SomeD split: if_splits option.splits)
  with assms(1) show ?thesis by (simp add: vmContent_def scanVM_uuid find_uuid wfStore_def)
qed

lemma routeForHost_wp:
  assumes "wfStore s"
  shows "wp (routeForHost cfg hp) (\<lambda>route t. authOnly s t \<and> (route \<noteq> None \<longrightarrow> route = routed cfg s hp)) (\<lambda>_ _. False) s"
proof -
  have apart: "find (\<lambda>r. cName r = n) (vmsT s) = None" if "find (\<lambda>r. rName r = n) (routesT s) = Some rt" for n rt
    using assms find_SomeD [OF that] unfolding wfStore_def find_None_iff by (metis imageI)
  show ?thesis
    unfolding routeForHost_def routed_def GetVMByName_def GetRoute_def Let_def
    by (auto simp: wp_rules joinRoute_def scanRoute_def scanVM_def apart authOnly_upd Option.bind_eq_Some_conv
        intro!: wp_query_frame wp_GetVM split: option.splits)
qed

section \<open>The starter of machines\<close>

text \<open>
  What the proxies rely on: the machine a start returns is the stored row, running; the key of the
  route authorisation and the clock are left alone.
\<close>

locale vm_starter =
  fixes start :: "string \<Rightarrow> ('z mgr_scheme, VM) prog"
  assumes start_returns: "wp (start u) (\<lambda>vm t. vmContent t u = Some vm \<and> vmUUID vm = u \<and> vmState vm = ''running'') (\<lambda>_ _. True) s"
    and start_auth: "keeps (\<lambda>t. authKey t = k \<and> clock t = c) (start u)"
begin

lemma wake_finds:
  assumes "vmState vm \<noteq> ''running''"
  shows "wp (wakeVM start vm) (\<lambda>w t. authKey t = authKey s \<and> clock t = clock s \<and>
     (\<forall>v. w = Some v \<longrightarrow> vmUUID v = vmUUID vm \<and> (vmState v = ''running'' \<longrightarrow> vmContent t (vmUUID vm) = Some v))) (\<lambda>_ _. False) s"
proof -
  have st: "wp (start (vmUUID vm)) (\<lambda>v t. (vmContent t (vmUUID vm) = Some v \<and> vmUUID v = vmUUID vm \<and> vmState v = ''running'') \<and>
      authKey t = authKey s \<and> clock t = clock s) (\<lambda>_ t. True \<and> authKey t = authKey s \<and> clock t = clock s) s"
    by (rule wp_conj [OF start_returns keeps_wp [OF start_auth]]) simp
  show ?thesis
    unfolding wakeVM_def wp_bind wp_attempt
    by (rule wp_mono [OF st])
       (use assms in \<open>auto simp: wp_rules vmContent_def scanVM_uuid intro!: wp_GetVM dest: find_SomeD\<close>)
qed

end

interpretation vmm_starter: vm_starter "StartVM h" for h :: host
proof
  show "wp (StartVM h u) (\<lambda>vm t. vmContent t u = Some vm \<and> vmUUID vm = u \<and> vmState vm = ''running'') (\<lambda>_ _. True) s" for u and s :: "'z mgr_scheme"
    by (rule wp_mono [OF StartVM_wp]) (simp_all add: upAs_def)
  have "sturdy (\<lambda>t :: 'z mgr_scheme. authKey t = k \<and> clock t = c)" for k c
    by (rule sturdyI) (auto simp: steady_def launchable_def outcome_blind_def files_blind_def keyed_def SetVMState_def
        SetVMArchivedDiskPath_def intro!: keeps_updateVMRow)
  then show "keeps (\<lambda>t :: 'z mgr_scheme. authKey t = k \<and> clock t = c) (StartVM h u)" for k c u
    by (rule sturdyD)
qed

section \<open>Answers\<close>

lemma handlers_answer [answers_rules]:
  "answers (Validate tok host)" "answers (Approved cs host)" "answers (handleSignedAuthURL r host)" "answers (gateHandle cap r host)"
  "answers (routeForHost cfg hp)" "answers (wakeVM start vm)" "answers (forwardTo vm port)"
proof -
  show v: "answers (Validate tok host)" for tok
    unfolding Validate_def by (intro answers_rules)
  show "answers (Approved cs host)" "answers (handleSignedAuthURL r host)" "answers (gateHandle cap r host)"
    "answers (routeForHost cfg hp)" "answers (wakeVM start vm)" "answers (forwardTo vm port)"
    unfolding Approved_def handleSignedAuthURL_def gateHandle_def verify_def routeForHost_def wakeVM_def forwardTo_def Let_def
    by (intro answers_rules v)+
qed

lemma ServeHTTP_total: "answers (ServeHTTP cfg start cap r)"
  unfolding ServeHTTP_def serveRoute_def serveAllowed_def Let_def by (intro answers_rules)

text \<open>The reply comes from the proxy itself.\<close>

definition ownReply :: "response \<Rightarrow> bool" where
  "ownReply resp \<longleftrightarrow> (\<forall>up. resp \<noteq> Forward up)"

lemma own_replies:
  "wp (handleSignedAuthURL r host) (\<lambda>resp t. ownReply resp) (\<lambda>_ _. True) s"
  "wp (gateHandle cap r host) (\<lambda>resp t. ownReply resp) (\<lambda>_ _. True) s"
  unfolding handleSignedAuthURL_def gateHandle_def verify_def serveCaptcha_def challenge_def Let_def ownReply_def
  by (auto simp: wp_ret intro!: wp_any split: option.split sum.split)

section \<open>Requests that reach a machine\<close>

text \<open>The name is protected in the tables.\<close>

definition isProtected :: "'z store_scheme \<Rightarrow> string \<Rightarrow> bool" where
  "isProtected s host \<longleftrightarrow> NormalizeHostname host \<in> set (protectionsT s)"

lemma protected_wp:
  "wp (IsRouteHostnameProtected host) (\<lambda>b t. authOnly s t \<and> (b \<longleftrightarrow> isProtected s host)) (\<lambda>_. authOnly s) s"
  unfolding IsRouteHostnameProtected_def Let_def
  by (rule wp_query_frame) (auto simp: authOnly_upd isProtected_def list_ex_iff)

lemma forwardTo_wp:
  assumes "vmState vm = ''running'' \<longrightarrow> vmContent s (vmUUID vm) = Some vm"
  shows "wp (forwardTo vm port) (\<lambda>resp t. running t = running s \<and> authKey t = authKey s \<and> clock t = clock s \<and>
     (\<forall>up. resp = Forward up \<longrightarrow> (\<exists>v. vmContent t (vmUUID vm) = Some v \<and> vmState v = ''running'' \<and> vmPrivateIP v \<noteq> [] \<and>
        up = JoinHostPort (vmPrivateIP v) (itoa port)))) (\<lambda>_ _. False) s"
proof -
  have touched: "\<exists>v. map_option scanVM (find (\<lambda>r. cUuid r = u) (map (\<lambda>r. if cUuid r = u then r\<lparr>cLastActivityAt := n\<rparr> else r) rows)) = Some v \<and>
      vmState v = vmState w \<and> vmPrivateIP v = vmPrivateIP w"
    if "map_option scanVM (find (\<lambda>r. cUuid r = u) rows) = Some w" for u n rows w
    using that by (induction rows) (auto simp: scanVM_def)
  show ?thesis
    unfolding forwardTo_def TouchVMActivity_def using assms
    by (auto simp: wp_rules vmContent_def intro!: wp_updateVMRow)
       (use touched in fastforce)+
qed

lemma Approved_wp:
  assumes "authOnly s t"
  shows "wp (Approved cs host) (\<lambda>b t. authOnly s t \<and> (b \<longrightarrow> admitted (authKey t) (clock t) cs host)) (\<lambda>_ _. False) t"
  using wp_conj [OF keeps_wp [OF auth_authOnly(2) assms] Approved_admitted] by (rule wp_mono) auto

text \<open>The machine behind the host of a request may be forwarded to, and may be woken.\<close>

definition reaches :: "Config \<Rightarrow> 'z store_scheme \<Rightarrow> httpRequest \<Rightarrow> bool \<Rightarrow> VM \<Rightarrow> int \<Rightarrow> bool" where
  "reaches cfg s r adm vm port \<longleftrightarrow> routed cfg s (rqHost r) = Some (vm, port) \<and> vmPublicHTTP vm \<and>
     (vmState vm = ''running'' \<or> vmState vm = ''sleeping'' \<and> vmAutoWake vm) \<and>
     (isProtected s (routeHost (rqHost r)) \<or> vmState vm = ''sleeping'' \<longrightarrow> adm)"

abbreviation admits :: "httpRequest \<Rightarrow> 'z mgr_scheme \<Rightarrow> bool" where
  "admits r t \<equiv> admitted (authKey t) (clock t) (rqCookies r) (routeHost (rqHost r))"

definition served :: "Config \<Rightarrow> 'z mgr_scheme \<Rightarrow> httpRequest \<Rightarrow> response \<Rightarrow> 'z mgr_scheme \<Rightarrow> bool" where
  "served cfg s r resp t \<longleftrightarrow>
     (running t \<noteq> running s \<longrightarrow> (\<exists>vm port. reaches cfg s r (admits r t) vm port \<and> vmState vm = ''sleeping'')) \<and>
     (\<forall>up. resp = Forward up \<longrightarrow> (\<exists>vm port v. reaches cfg s r (admits r t) vm port \<and> vmContent t (vmUUID vm) = Some v \<and>
        vmState v = ''running'' \<and> vmPrivateIP v \<noteq> [] \<and> up = JoinHostPort (vmPrivateIP v) (itoa port)))"

lemma served_own: "authOnly s t \<Longrightarrow> ownReply resp \<Longrightarrow> served cfg s r resp t"
  by (auto simp: served_def ownReply_def dest: authOnly_same)

lemma served_handlers:
  assumes "authOnly s t"
  shows "wp (handleSignedAuthURL r host) (served cfg s r) (\<lambda>_ _. True) t" "wp (gateHandle cap r host) (served cfg s r) (\<lambda>_ _. True) t"
  by (rule wp_mono [OF wp_conj [OF own_replies(1) keeps_wp [OF handlers_authOnly(1) assms]]]; simp add: served_own)
     (rule wp_mono [OF wp_conj [OF own_replies(2) keeps_wp [OF handlers_authOnly(2) assms]]]; simp add: served_own)

lemma served_forward:
  fixes s t :: "'z mgr_scheme"
  assumes "reaches cfg s r (admits r t) vm port" "vmUUID w = vmUUID vm" "vmState w = ''running'' \<longrightarrow> vmContent t (vmUUID vm) = Some w"
    and "running t \<noteq> running s \<longrightarrow> vmState vm = ''sleeping''"
  shows "wp (forwardTo w port) (served cfg s r) (\<lambda>_ _. True) t"
proof (rule wp_mono [OF forwardTo_wp])
  fix resp and t' :: "'z mgr_scheme" assume t': "running t' = running t \<and> authKey t' = authKey t \<and> clock t' = clock t \<and>
     (\<forall>up. resp = Forward up \<longrightarrow> (\<exists>v. vmContent t' (vmUUID w) = Some v \<and> vmState v = ''running'' \<and> vmPrivateIP v \<noteq> [] \<and>
        up = JoinHostPort (vmPrivateIP v) (itoa port)))"
  with assms(1) have "reaches cfg s r (admits r t') vm port" by simp
  with t' assms(2,4) show "served cfg s r resp t'" unfolding served_def by metis
qed (use assms in auto)

lemma wp_ifI: "(b \<Longrightarrow> wp m Q E s) \<Longrightarrow> (\<not> b \<Longrightarrow> wp n Q E s) \<Longrightarrow> wp (if b then m else n) Q E s"
  by simp

lemma wp_sumI:
  "(\<And>x. z = Inl x \<Longrightarrow> wp (f x) Q E s) \<Longrightarrow> (\<And>x. z = Inr x \<Longrightarrow> wp (g x) Q E s) \<Longrightarrow> wp (case z of Inl x \<Rightarrow> f x | Inr x \<Rightarrow> g x) Q E s"
  by (cases z) auto

lemma served_error: "authOnly s t \<Longrightarrow> wp (ret (HttpError n m)) (served cfg s r) (\<lambda>_ _. True) t"
  by (simp add: wp_ret served_own ownReply_def)

context vm_starter
begin

lemma serve_woken:
  assumes "reaches cfg s r (admits r t) vm port" "vmState vm = ''sleeping''"
  shows "wp (bind (wakeVM start vm) (\<lambda>w. case w of None \<Rightarrow> ret (HttpError n msg) | Some v \<Rightarrow> forwardTo v port)) (served cfg s r) (\<lambda>_ _. True) t"
  by (rule wp_seq [OF wake_finds])
     (use assms in \<open>auto intro!: served_forward [of _ _ _ _ vm] simp: wp_ret split: option.split\<close>, auto simp: served_def)

lemma serveAllowed_wp:
  assumes "routed cfg s (rqHost r) = Some (vm, port)" "vmPublicHTTP vm" "vmState vm = ''running'' \<or> vmState vm = ''sleeping''"
    and "authOnly s t" "isProtected s (routeHost (rqHost r)) \<longrightarrow> admits r t" "vmContent s (vmUUID vm) = Some vm"
  shows "wp (serveAllowed start cap r vm port) (served cfg s r) (\<lambda>_ _. True) t"
proof (cases "vmState vm = ''sleeping''")
  case True
  show ?thesis
    unfolding serveAllowed_def Let_def if_P [OF True]
    by (intro wp_ifI served_error served_handlers serve_woken wp_seq [OF Approved_wp [OF assms(4)]])
       (use assms True in \<open>auto simp: reaches_def\<close>)
next
  case False
  then have "reaches cfg s r (admits r t) vm port" using assms by (simp add: reaches_def)
  moreover have "vmContent t (vmUUID vm) = Some vm" "running t = running s"
    using authOnly_same [OF assms(4)] assms(6) by (simp_all add: vmContent_def)
  ultimately show ?thesis using False by (simp add: serveAllowed_def served_forward)
qed

lemma serveRoute_wp:
  assumes "routed cfg s (rqHost r) = Some (vm, port)" "authOnly s t" "vmContent s (vmUUID vm) = Some vm"
  shows "wp (serveRoute start cap r vm port) (served cfg s r) (\<lambda>_ _. True) t"
proof -
  have pr: "wp (attempt (IsRouteHostnameProtected host)) (\<lambda>b t'. authOnly s t' \<and> (\<forall>p. b = Inr p \<longrightarrow> (p \<longleftrightarrow> isProtected s host))) (\<lambda>_ _. False) t" for host
  proof -
    have "wp (IsRouteHostnameProtected host) (\<lambda>b t'. b \<longleftrightarrow> isProtected t host) (\<lambda>_ _. True) t"
      by (rule wp_mono [OF protected_wp]) auto
    moreover have "isProtected t host = isProtected s host" using authOnly_same [OF assms(2)] by (simp add: isProtected_def)
    ultimately show ?thesis
      using keeps_wp [OF handlers_authOnly(4) assms(2), of host]
      unfolding wp_attempt by - (drule (1) wp_conj, erule wp_mono, auto)
  qed
  have th: "wp (if b then Approved (rqCookies r) host else ret True) (\<lambda>through t. authOnly s t \<and> (b \<longrightarrow> through \<longrightarrow> admitted (authKey t) (clock t) (rqCookies r) host)) (\<lambda>_ _. False) t"
    if "authOnly s t" for b host t
    using that Approved_wp [OF that] by (auto simp: wp_ret elim: wp_mono)
  show ?thesis
    unfolding serveRoute_def Let_def
    by (intro wp_seq [OF pr] wp_seq [OF th] wp_ifI wp_sumI served_error assms serveAllowed_wp) (use assms in auto)
qed

lemma serve_wp:
  assumes "wfStore s"
  shows "wp (ServeHTTP cfg start cap r) (served cfg s r) (\<lambda>_ _. True) s"
  unfolding ServeHTTP_def
  by (intro wp_ifI served_handlers authOnly_refl wp_seq [OF routeForHost_wp [OF assms]])
     (auto simp: served_error intro!: serveRoute_wp routed_content [OF assms] dest: sym [of "Some _"] split: option.split prod.split)

end

end
