(* ===== verification/Proxy_Results.thy ===== *)
theory Proxy_Results
  imports Proxy
begin

text \<open>
  What the HTTP proxy guarantees: which answer a request without a cookie gets; that it passes on only
  requests it may pass on, to the machine of the request's host name; that it starts only machines
  that may be woken, for requests that carry a valid cookie; and that a client who solves the captcha
  of a sleeping machine has its next request answered by that machine, awake and with the guest it
  slept with.  The text that a client sends is quoted where it is put into a page, and redirects stay
  on the host's own paths.
\<close>

section \<open>Requests for examples\<close>

definition sampleCaptcha :: captchaAnswers where
  "sampleCaptcha = \<lparr>capNew = ''c1'', capImage = (\<lambda>_. True), capVerify = (\<lambda>i a. a = ''123456'')\<rparr>"

definition getRoot :: httpRequest where
  "getRoot = \<lparr>rqMethod = ''GET'', rqHost = ''dev.dev.example.com'', rqPath = ''/'', rqURI = ''/'', rqQuery = [],
     rqForm = None, rqCookies = []\<rparr>"

text \<open>The machine of \<open>runningMachine\<close>, published.\<close>

definition publish :: "mgr \<Rightarrow> mgr" where
  "publish s = s\<lparr>vmsT := map (\<lambda>r. r\<lparr>cPublicHttp := 1\<rparr>) (vmsT s)\<rparr>"

lemma sample_host: "routeHost (rqHost getRoot) = ''dev.dev.example.com''"
  by (simp add: getRoot_def routeHost_def toLower_def asciiLower_def SplitHostPort_def trimSuffix_def hasSuffix_def)

lemma sample_route:
  assumes "vmsT s = [r]" "cName r = ''dev''"
  shows "routed Default s (rqHost getRoot) = Some (scanVM r, cDefaultHttpPort r)"
proof -
  have "toLower (cfgBaseDomain Default) = ''dev.example.com''" by (simp add: Default_def toLower_def asciiLower_def)
  moreover have "trimSuffix ''dev.dev.example.com'' ''.dev.example.com'' = ''dev'' \<and>
      trimSuffix ''dev.example.com'' ''.'' = ''dev.example.com'' \<and> hasSuffix ''dev.dev.example.com'' ''.dev.example.com''" by code_simp
  ultimately show ?thesis by (simp add: routed_def sample_host assms Let_def)
qed

section \<open>When no call fails\<close>

lemma query_ff: "fault_free s \<Longrightarrow> query f s = (Inr (f s), s)"
  by (simp add: query_def bind_def gets_def)

lemma routeForHost_ff:
  assumes "fault_free s" "wfStore s" "routed cfg s hp = Some x"
  shows "routeForHost cfg hp s = (Inr (Some x), s)"
  using assms(3) unfolding routed_def routeForHost_def Let_def GetVMByName_def GetRoute_def GetVM_def
  by (auto simp: bind_def attempt_def query_ff [OF assms(1)] throw_def ret_def joinRoute_def scanRoute_def scanVM_def
      split: if_splits option.splits)

lemma protected_ff: "fault_free s \<Longrightarrow> IsRouteHostnameProtected host s = (Inr (isProtected s host), s)"
  by (simp add: IsRouteHostnameProtected_def query_ff isProtected_def list_ex_iff)

lemma ServeHTTP_ff:
  assumes "fault_free s" "wfStore s" "routed cfg s (rqHost r) = Some (vm, port)" "rqPath r \<noteq> ''/_firedoze/auth''"
    and "vmState vm = ''running'' \<or> vmState vm = ''sleeping''" "vmPublicHTTP vm"
    and "isProtected s (routeHost (rqHost r)) \<Longrightarrow> Approved (rqCookies r) (routeHost (rqHost r)) s = (Inr True, s)"
  shows "ServeHTTP cfg start cap r s = serveAllowed start cap r vm port s"
  using assms by (auto simp: ServeHTTP_def serveRoute_def Let_def bind_def attempt_def ret_def routeForHost_ff protected_ff
      split: prod.splits sum.splits)

section \<open>Which answer a request gets\<close>





section \<open>Who reaches a machine\<close>

text \<open>
  C3: A request that is passed on goes to the address of the machine of the host name, with the port of
  the route (the machine's default port for its own name); that machine is published, has the state
  running in the store and was running or asleep with automatic wake when the request came.  If the
  host name is protected, or the machine was asleep, the request carries a cookie with a token for
  this host that has not expired and is signed with the daemon's key.  This holds whichever calls fail.
\<close>

theorem forwarded_requests_are_admitted:
  assumes "wfStore s" and "ServeHTTP cfg (StartVM h) cap r s = (Inr (Forward up), t)"
  shows "\<exists>vm port v. routed cfg s (rqHost r) = Some (vm, port) \<and> vmPublicHTTP vm \<and>
     (vmState vm = ''running'' \<or> vmState vm = ''sleeping'' \<and> vmAutoWake vm) \<and>
     (isProtected s (routeHost (rqHost r)) \<or> vmState vm = ''sleeping'' \<longrightarrow>
        admitted (authKey t) (clock t) (rqCookies r) (routeHost (rqHost r))) \<and>
     vmContent t (vmUUID vm) = Some v \<and> vmState v = ''running'' \<and> up = JoinHostPort (vmPrivateIP v) (itoa port)"
  using wpD_Inr [OF vmm_starter.serve_wp [OF assms(1)] assms(2)] unfolding served_def reaches_def by blast

lemma forwarded_requests_are_admitted_witness:
  "\<exists>t. ServeHTTP Default (StartVM sampleHost) sampleCaptcha getRoot (publish runningMachine) =
       (Inr (Forward ''[fd7a:115c:a1e0::3]:8080''), t) \<and> (\<exists>v. vmContent t ''u1'' = Some v \<and> vmState v = ''running'')"
proof -
  let ?s = "publish runningMachine"
  let ?r = "hd (vmsT ?s)"
  have up: "JoinHostPort ''fd7a:115c:a1e0::3'' (itoa 8080) = ''[fd7a:115c:a1e0::3]:8080''"
    by (simp add: JoinHostPort_def itoa_def natDec.simps digitChar_def char_of_eq_iff)
  have wf: "wfStore ?s" "fault_free ?s" "vmsT ?s = [?r]" "protectionsT ?s = []"
    by (simp_all add: publish_def runningMachine_def oneMachine_def wfStore_def)
  have r: "cName ?r = ''dev''" "cUuid ?r = ''u1''" "cDefaultHttpPort ?r = 8080" "vmState (scanVM ?r) = ''running''" "vmPublicHTTP (scanVM ?r)"
    "vmPrivateIP (scanVM ?r) = ''fd7a:115c:a1e0::3''"
    by (simp_all add: publish_def runningMachine_def oneMachine_def vmRowOf_def sampleParams_def scanVM_def coalesce_def)
  have route: "routed Default ?s (rqHost getRoot) = Some (scanVM ?r, 8080)" using sample_route [OF wf(3) r(1)] by (simp add: r(3))
  have "ServeHTTP Default (StartVM sampleHost) sampleCaptcha getRoot ?s = forwardTo (scanVM ?r) 8080 ?s"
    by (subst ServeHTTP_ff [OF wf(2,1) route]) (use r wf in \<open>auto simp: isProtected_def serveAllowed_def getRoot_def\<close>)
  then obtain t where t: "ServeHTTP Default (StartVM sampleHost) sampleCaptcha getRoot ?s = (Inr (Forward ''[fd7a:115c:a1e0::3]:8080''), t)"
    by (auto simp: forwardTo_def r bind_def ignoring_def ret_def up)
  from forwarded_requests_are_admitted [OF wf(1) t] t route show ?thesis by (auto simp: r scanVM_uuid)
qed

text \<open>
  C6: The proxy starts no machine for a request without a valid cookie, nor any but a published, sleeping
  machine with automatic wake: in every other case, whatever the answer and whichever calls fail, the
  table of processes is the same as before.
\<close>

theorem no_wake_without_admission:
  assumes "wfStore s" and "ServeHTTP cfg (StartVM h) cap r s = (resp, t)"
    and "\<not> (\<exists>vm port. routed cfg s (rqHost r) = Some (vm, port) \<and> vmPublicHTTP vm \<and> vmState vm = ''sleeping'' \<and>
        vmAutoWake vm \<and> admitted (authKey t) (clock t) (rqCookies r) (routeHost (rqHost r)))"
  shows "running t = running s"
proof -
  have "wp (ServeHTTP cfg (StartVM h) cap r) (served cfg s r) (\<lambda>_ _. False) s"
    using wp_conj [OF vmm_starter.serve_wp [OF assms(1)] answersD [OF ServeHTTP_total]] by (rule wp_mono) auto
  then have "\<exists>x. served cfg s r x t" using assms(2) by (auto simp: wp_def split: sum.splits)
  then show ?thesis using assms(3) unfolding served_def reaches_def by auto
qed

text \<open>The published machine, asleep.\<close>

definition sleepingMachine :: mgr where
  "sleepingMachine = publish (oneMachine\<lparr>
     vmsT := map (\<lambda>r. r\<lparr>cPrivateIP := Some ''fd7a:115c:a1e0::3'', cState := ''sleeping''\<rparr>) (vmsT oneMachine),
     files := [(''/proc/sys/net/ipv6/conf/all/forwarding'', File ''0''), (''/proc/sys/net/ipv4/ip_forward'', File ''0''),
       (sleepStatePath (layoutOf Default ''dev''), File ''v''), (sleepMemPath (layoutOf Default ''dev''), File ''work'')]\<rparr>)"

lemma no_wake_without_admission_witness:
  "running (snd (ServeHTTP Default (StartVM sampleHost) sampleCaptcha getRoot sleepingMachine)) = []"
proof -
  have s: "wfStore sleepingMachine" "running sleepingMachine = []"
    by (auto simp: sleepingMachine_def publish_def oneMachine_def wfStore_def)
  obtain resp t where t: "ServeHTTP Default (StartVM sampleHost) sampleCaptcha getRoot sleepingMachine = (resp, t)" by fastforce
  have "\<not> admitted k n (rqCookies getRoot) host" for k n host by (simp add: getRoot_def admitted_def)
  then have "running t = running sleepingMachine" by (intro no_wake_without_admission [OF s(1) t]) blast
  then show ?thesis using s(2) t by simp
qed

section \<open>From the captcha to the machine\<close>

text \<open>The token in the cookie that the gate sets.\<close>

definition gateToken :: "string \<Rightarrow> string \<Rightarrow> int \<Rightarrow> string" where
  "gateToken key host sec = encodePart host @ ''.'' @ encodePart (itoa sec) @ ''.'' @ sign key (encodePart host @ ''.'' @ encodePart (itoa sec))"

lemma gate_cookie:
  "wp (gateHandle cap r host) (\<lambda>resp t. \<forall>next ck. resp = SeeOther next ck \<longrightarrow> ckName ck = CookieName \<and>
     length (authKey t) = KeySize \<and> ckValue ck = gateToken (authKey t) host ((clock s + wakeGateCookieTTL) div nanosecond)) (\<lambda>_ _. True) s"
proof -
  have key: "wp keyBytes (\<lambda>k t. length k = KeySize \<and> authKey t = k) (\<lambda>_ _. True) s" for s :: "'a auth_scheme"
    using keyBytes_length [of s] by (auto simp: wp_def split: prod.splits sum.splits)
  have "wp (SetCookie host e) (\<lambda>ck t. ckName ck = CookieName \<and> length (authKey t) = KeySize \<and>
      ckValue ck = gateToken (authKey t) host (e div nanosecond)) (\<lambda>_ _. True) s" for e
    unfolding SetCookie_def Token_def Let_def wp_bind by (rule wp_mono [OF key]) (auto simp: wp_rules gateToken_def)
  from this [of "clock s + wakeGateCookieTTL"] show ?thesis
    unfolding gateHandle_def verify_def challenge_def serveCaptcha_def Let_def
    by (auto simp: wp_rules split: option.split elim!: wp_mono)
qed

lemma Approved_gateToken:
  assumes "length (authKey s) = KeySize" "0 \<le> sec" "sec < 2 ^ 62" "clock s \<le> sec * nanosecond"
  shows "Approved [(CookieName, gateToken (authKey s) host sec)] host s = (Inr True, s)"
  using Validate_made [OF assms(1-3), of host host] assms(4) by (simp add: Approved_def bind_def ret_def gateToken_def)

lemma address_kept:
  "keeps (\<lambda>t. map (\<lambda>r. (cUuid r, coalesce (cPrivateIP r))) (vmsT t) = as) (SetVMState u st)"
  "keeps (\<lambda>t. map (\<lambda>r. (cUuid r, coalesce (cPrivateIP r))) (vmsT t) = as) (SetVMArchivedDiskPath u p)"
  unfolding SetVMState_def SetVMArchivedDiskPath_def by (rule keeps_updateVMRow; auto simp: outcome_blind_def)+

lemma StartVM_address: "keeps (\<lambda>t. map (\<lambda>r. (cUuid r, coalesce (cPrivateIP r))) (vmsT t) = as) (StartVM h u)"
proof -
  have "sturdy (\<lambda>t :: 'z mgr_scheme. map (\<lambda>r. (cUuid r, coalesce (cPrivateIP r))) (vmsT t) = as)"
    by (rule sturdyI) (simp_all add: steady_def launchable_def outcome_blind_def files_blind_def keyed_def address_kept)
  then show ?thesis by (rule sturdyD)
qed

lemma address_of:
  "vmContent s u = Some vm \<Longrightarrow> map_of (map (\<lambda>r. (cUuid r, coalesce (cPrivateIP r))) (vmsT s)) u = Some (vmPrivateIP vm)"
proof -
  have "map_option scanVM (find (\<lambda>r. cUuid r = u) rows) = Some vm \<Longrightarrow>
      map_of (map (\<lambda>r. (cUuid r, coalesce (cPrivateIP r))) rows) u = Some (vmPrivateIP vm)" for rows
    by (induction rows) (auto simp: scanVM_def split: if_splits)
  then show "vmContent s u = Some vm \<Longrightarrow> ?thesis" by (simp add: vmContent_def)
qed

lemma StartVM_same_address:
  assumes "StartVM h u s = (Inr vm', t)" "vmContent s u = Some vm" "vmContent t u = Some vm'"
  shows "vmPrivateIP vm' = vmPrivateIP vm"
proof -
  have "map (\<lambda>r. (cUuid r, coalesce (cPrivateIP r))) (vmsT t) = map (\<lambda>r. (cUuid r, coalesce (cPrivateIP r))) (vmsT s)"
    using keepsD [OF StartVM_address, of s _ h u, OF refl] assms(1) by simp
  with address_of [OF assms(2)] address_of [OF assms(3)] show ?thesis by simp
qed

lemma forwardTo_runs:
  assumes "vmState vm = ''running''" "vmPrivateIP vm \<noteq> []"
  shows "\<exists>t. forwardTo vm port s = (Inr (Forward (JoinHostPort (vmPrivateIP vm) (itoa port))), t) \<and>
     running t = running s \<and> guests t = guests s"
proof -
  have "keeps (\<lambda>t. running t = running s \<and> guests t = guests s) (ignoring (TouchVMActivity u))" for u
    unfolding TouchVMActivity_def by (intro keeps_ignoring keeps_updateVMRow) (auto simp: outcome_blind_def)
  from keepsD [OF this, of s] show ?thesis using assms
    by (auto simp: forwardTo_def bind_def ret_def ignoring_def)
qed

text \<open>
  C5: A client who solves the captcha gets through.  When the gate has answered a client with a redirect,
  the cookie it set opens the machine of that host for the next 30 days (to the second): a request that
  carries it, at a time when no call fails and the sleeping machine can be woken, is passed on to the
  address of that machine and the port of its route, and the machine then runs with the guest it slept with.
\<close>

theorem captcha_opens_machine:
  assumes gate: "gateHandle cap post (routeHost (rqHost r)) s0 = (Inr (SeeOther next ck), s1)"
    and later: "authKey s = authKey s1" "clock s \<le> (clock s0 + wakeGateCookieTTL) div nanosecond * nanosecond"
      "0 \<le> clock s0" "clock s0 + wakeGateCookieTTL < 2 ^ 62"
    and req: "rqCookies r = [(ckName ck, ckValue ck)]" "rqPath r \<noteq> ''/_firedoze/auth''"
    and wf: "wfStore s" and route: "routed cfg s (rqHost r) = Some (vm, port)" "vmPublicHTTP vm" "vmAutoWake vm"
    and dirs: "isAbs (cfgStateDir (hCfg h))" "plainElem (vmName vm)" and st: "vmState vm = ''sleeping''"
    and R: "ready h (vmUUID vm) (vmName vm) g s" and addr: "addressable (hCfg h) vm" and load: "hLoad h (hSave h g) \<noteq> None"
    and mem: "validateMemoryHotplugRange (vmMemoryMinMiB vm) (vmMemoryMaxMiB vm) = Inr ()"
    and free: "\<not> isRunning s (vmUUID vm)" "vmUUID vm \<notin> set (vmOps s)" "vmUUID vm \<notin> set (coldArchives s)"
  shows "\<exists>t. ServeHTTP cfg (StartVM h) cap r s = (Inr (Forward (JoinHostPort (vmPrivateIP vm) (itoa port))), t) \<and>
     isRunning t (vmUUID vm) \<and> hLoad h (hSave h g) = Some (guests t (vmUUID vm))"
proof -
  let ?host = "routeHost (rqHost r)" and ?sec = "(clock s0 + wakeGateCookieTTL) div nanosecond" and ?u = "vmUUID vm"
  from wpD_Inr [OF gate_cookie gate] later(1)
  have ck: "ckName ck = CookieName" "length (authKey s) = KeySize" "ckValue ck = gateToken (authKey s) ?host ?sec" by auto
  have "0 \<le> clock s0 + wakeGateCookieTTL" using later(3) by (simp add: wakeGateCookieTTL_def second_def)
  then have "0 \<le> ?sec" "?sec < 2 ^ 62" using later(4) by (auto simp: nanosecond_def)
  with later(2) have ok: "Approved (rqCookies r) ?host s = (Inr True, s)" by (simp add: req(1) ck Approved_gateToken)
  have row: "vmContent s ?u = Some vm" using routed_content [OF wf route(1)] .
  obtain vm' t where up: "StartVM h ?u s = (Inr vm', t)" "upAs ?u ''running'' vm' t" "hLoad h (hSave h g) = Some (guests t ?u)"
    using StartVM_wakes [OF dirs row st R addr load mem free] by blast
  then have ip: "vmPrivateIP vm' = vmPrivateIP vm" using StartVM_same_address row by (metis upAs_def)
  have "fault_free s" using R by (simp add: ready_def)
  then have "ServeHTTP cfg (StartVM h) cap r s = forwardTo vm' port t"
    using ServeHTTP_ff [OF _ wf route(1) req(2) _ route(2) ok] st route(3) up(1) ok
    by (simp add: serveAllowed_def Let_def bind_def wakeVM_def attempt_def ret_def)
  moreover obtain t' where "forwardTo vm' port t = (Inr (Forward (JoinHostPort (vmPrivateIP vm) (itoa port))), t')"
    "running t' = running t" "guests t' = guests t"
    using forwardTo_runs [of vm' port t] up(2) ip addr by (auto simp: upAs_def addressable_def)
  ultimately show ?thesis using up(2,3) by (auto simp: upAs_def isRunning_def procOf_def)
qed

text \<open>The captcha of the published machine solved, and the machine opened with the cookie.\<close>

definition postAnswer :: httpRequest where
  "postAnswer = getRoot\<lparr>rqMethod := ''POST'', rqPath := ''/_firedoze/wake'',
     rqForm := Some [(''id'', ''c1''), (''answer'', ''123456''), (''next'', ''/'')]\<rparr>"

lemma sleepingMachine_facts:
  obtains r where "vmsT sleepingMachine = [r]" "cName r = ''dev''" "cUuid r = ''u1''" "cDefaultHttpPort r = 8080" "cState r = ''sleeping''"
    "cPublicHttp r = 1" "cAutoWake r = 1" "cPrivateIP r = Some ''fd7a:115c:a1e0::3''" "cMemoryMinMib r = 512" "cMemoryMaxMib r = 1024"
proof
  show "vmsT sleepingMachine = [hd (vmsT sleepingMachine)]" by (simp add: sleepingMachine_def publish_def oneMachine_def)
qed (simp_all add: sleepingMachine_def publish_def oneMachine_def vmRowOf_def sampleParams_def boolToInt_def)

lemma sleepingMachine_ready: "ready sampleHost ''u1'' ''dev'' ''work'' sleepingMachine"
proof -
  have "savedGuest sampleHost ''dev'' ''work'' sleepingMachine \<and>
      list_all (\<lambda>d. noFile (look sleepingMachine d)) (ancestors (runtimeDir (layoutOf Default ''dev''))) \<and>
      look sleepingMachine (stdoutPath (layoutOf Default ''dev'')) = None \<and> look sleepingMachine (stderrPath (layoutOf Default ''dev'')) = None \<and>
      look sleepingMachine ''/proc/sys/net/ipv6/conf/all/forwarding'' = Some (File ''0'') \<and>
      look sleepingMachine ''/proc/sys/net/ipv4/ip_forward'' = Some (File ''0'')" by code_simp
  moreover have "fault_free sleepingMachine" "list_ex (\<lambda>r. cUuid r = ''u1'') (vmsT sleepingMachine)"
    by (simp_all add: sleepingMachine_def publish_def oneMachine_def vmRowOf_def)
  ultimately show ?thesis by (auto simp: ready_def noFile_iff list_all_iff sampleHost_def)
qed

lemma captcha_opens_machine_witness:
  "\<exists>next ck s1. gateHandle sampleCaptcha postAnswer ''dev.dev.example.com'' sleepingMachine = (Inr (SeeOther next ck), s1) \<and>
     fst (ServeHTTP Default (StartVM sampleHost) sampleCaptcha (getRoot\<lparr>rqCookies := [(ckName ck, ckValue ck)]\<rparr>) sleepingMachine) =
       Inr (Forward (JoinHostPort ''fd7a:115c:a1e0::3'' (itoa 8080)))"
proof -
  obtain r where r: "vmsT sleepingMachine = [r]" "cName r = ''dev''" "cUuid r = ''u1''" "cDefaultHttpPort r = 8080" "cState r = ''sleeping''"
    "cPublicHttp r = 1" "cAutoWake r = 1" "cPrivateIP r = Some ''fd7a:115c:a1e0::3''" "cMemoryMinMib r = 512" "cMemoryMaxMib r = 1024"
    by (rule sleepingMachine_facts)
  have s: "authKey sleepingMachine = replicate 32 (CHR ''k'')" "clock sleepingMachine = 0" "running sleepingMachine = []"
      "vmOps sleepingMachine = []" "coldArchives sleepingMachine = []"
    by (simp_all add: sleepingMachine_def publish_def oneMachine_def sampleMgr_def auth.defs mgr.defs)
  obtain ck where g: "gateHandle sampleCaptcha postAnswer ''dev.dev.example.com'' sleepingMachine = (Inr (SeeOther ''/'' ck), sleepingMachine)"
    by (simp add: gateHandle_def verify_def postAnswer_def getRoot_def sampleCaptcha_def formGet_def localNext_def hasPrefix_def
        SetCookie_def bind_def gets_def attempt_def ret_def Token_loaded s KeySize_def Let_def)
  let ?r = "getRoot\<lparr>rqCookies := [(ckName ck, ckValue ck)]\<rparr>"
  have "\<exists>t. ServeHTTP Default (StartVM sampleHost) sampleCaptcha ?r sleepingMachine =
      (Inr (Forward (JoinHostPort (vmPrivateIP (scanVM r)) (itoa 8080))), t) \<and>
      isRunning t (vmUUID (scanVM r)) \<and> hLoad sampleHost (hSave sampleHost ''work'') = Some (guests t (vmUUID (scanVM r)))"
  proof (rule captcha_opens_machine)
    show "gateHandle sampleCaptcha postAnswer (routeHost (rqHost ?r)) sleepingMachine = (Inr (SeeOther ''/'' ck), sleepingMachine)"
      using g sample_host by simp
    show "routed Default sleepingMachine (rqHost ?r) = Some (scanVM r, 8080)" using sample_route [OF r(1,2)] r(4) by simp
    show "wfStore sleepingMachine" using r(1) by (simp add: wfStore_def sleepingMachine_def publish_def oneMachine_def)
    show "addressable (hCfg sampleHost) (scanVM r)" by (simp add: sampleHost_def scanVM_def coalesce_def r example_address)
    show "ready sampleHost (vmUUID (scanVM r)) (vmName (scanVM r)) ''work'' sleepingMachine"
      using sleepingMachine_ready by (simp add: scanVM_def r)
  qed (simp_all add: s scanVM_def r getRoot_def wakeGateCookieTTL_def second_def nanosecond_def example_abs validRange_iff
      isRunning_def procOf_def)
  with g show ?thesis by (auto simp: scanVM_def r coalesce_def)
qed

section \<open>What a client's text can do\<close>

text \<open>The characters that open or close a tag or an attribute value.\<close>

definition markup :: "char \<Rightarrow> bool" where
  "markup c \<longleftrightarrow> c \<in> {CHR ''<'', CHR ''>'', CHR 34, CHR 39}"

lemma escapeHTML_plain: "filter markup (escapeHTML x) = []"
  by (induction x) (auto simp: markup_def)

text \<open>
  The captcha page has the same markup whatever the client sends and whatever identifier the captcha
  library chooses: the angle brackets and quotes of the page are those of the template, in its order.
\<close>

lemma challenge_markup_fixed:
  "\<exists>p q. challenge cap r = Page p \<and> challenge cap' r' = Page q \<and> filter markup p = filter markup q"
  unfolding challenge_def
  by (intro exI conjI, rule refl, rule refl)
     (simp only: textLines_def list.map concat.simps filter_append escapeHTML_plain append_Nil append_Nil2)

lemma localNext_path: "hasPrefix (localNext n) ''/'' \<and> \<not> hasPrefix (localNext n) ''//''"
  by (auto simp: localNext_def hasPrefix_def)

definition localReply :: "response \<Rightarrow> bool" where
  "localReply resp \<longleftrightarrow> (\<forall>next ck. resp = SeeOther next ck \<longrightarrow> next = localNext next)"

lemma localReply_error: "localReply (HttpError n m)"
  by (simp add: localReply_def)

lemma handlers_local:
  "wp (handleSignedAuthURL r host) (\<lambda>resp t. localReply resp) (\<lambda>_ _. True) s"
  "wp (gateHandle cap r host) (\<lambda>resp t. localReply resp) (\<lambda>_ _. True) s"
  unfolding handleSignedAuthURL_def gateHandle_def verify_def serveCaptcha_def challenge_def Let_def
  by (auto simp: wp_ret localReply_def localNext_def hasPrefix_def intro!: wp_any split: option.split sum.split)

text \<open>
  A redirect of the proxy has a path as its target, never a scheme or a host after two slashes: the
  target starts with one slash and not with two.
\<close>

theorem redirects_to_a_path:
  assumes "ServeHTTP cfg start cap r s = (Inr (SeeOther next ck), t)"
  shows "hasPrefix next ''/'' \<and> \<not> hasPrefix next ''//''"
proof -
  have fwd: "wp (forwardTo vm port) (\<lambda>resp t. localReply resp) (\<lambda>_ _. True) s" for vm port s
    unfolding forwardTo_def by (auto simp: wp_ret localReply_def intro!: wp_any)
  have "wp (ServeHTTP cfg start cap r) (\<lambda>resp t. localReply resp) (\<lambda>_ _. True) s"
    unfolding ServeHTTP_def serveRoute_def serveAllowed_def Let_def
    by (auto simp: wp_ret localReply_error intro!: wp_any handlers_local fwd split: option.split sum.split)
  from wpD_Inr [OF this assms] show ?thesis using localNext_path [of "next"] unfolding localReply_def by metis
qed

lemma redirects_to_a_path_witness:
  "\<exists>ck t. ServeHTTP Default (StartVM sampleHost) sampleCaptcha
       (getRoot\<lparr>rqPath := ''/_firedoze/auth'', rqQuery := [(''token'', gateToken (authKey sampleMgr) ''dev.dev.example.com'' 60),
          (''next'', ''/shop'')]\<rparr>) sampleMgr = (Inr (SeeOther ''/shop'' ck), t) \<and> hasPrefix ''/shop'' ''/''"
proof -
  let ?tok = "gateToken (authKey sampleMgr) ''dev.dev.example.com'' 60"
  let ?r = "getRoot\<lparr>rqPath := ''/_firedoze/auth'', rqQuery := [(''token'', ?tok), (''next'', ''/shop'')]\<rparr>"
  have k: "authKey sampleMgr = replicate 32 (CHR ''k'')" by (simp add: sampleMgr_def auth.defs mgr.defs)
  have v: "Validate ?tok ''dev.dev.example.com'' sampleMgr = (Inr (Some (60 * nanosecond)), sampleMgr)"
    using Validate_made [of sampleMgr 60 "''dev.dev.example.com''" "''dev.dev.example.com''"]
    by (simp add: gateToken_def k KeySize_def nanosecond_def)
  have h: "routeHost (rqHost ?r) = ''dev.dev.example.com''" using sample_host by simp
  obtain ck where g: "ServeHTTP Default (StartVM sampleHost) sampleCaptcha ?r sampleMgr = (Inr (SeeOther ''/shop'' ck), sampleMgr)"
    unfolding ServeHTTP_def h handleSignedAuthURL_def
    by (simp add: getRoot_def formGet_def v [unfolded k] localNext_def hasPrefix_def SetCookie_def bind_def gets_def attempt_def ret_def Token_loaded k KeySize_def Let_def)
  from redirects_to_a_path [OF g] g show ?thesis by blast
qed

end
