(* ===== verification/Cgroup.thy ===== *)
theory Cgroup
  imports Paths "HOL-Library.Word"
begin

text \<open>
  Accounting with control groups, \<open>internal/cgroup\<close>: the groups of the daemon and of the machines, and
  the counters read from them.  The control group file system is the file system of the model: what
  the kernel puts into a new group is there only if it is given.  Times stay in the microseconds that
  the kernel counts; the division that turns them into a \<open>float64\<close> of seconds is left out.

  Shown here: whatever the identifier of a machine is, preparing and filling its group changes files
  of that group only; different identifiers without slash, backslash or NUL have
  different groups; and the byte counters are the sums over all devices, modulo \<open>2\<^sup>6\<^sup>4\<close>.
\<close>

section \<open>Text\<close>

text \<open>\<open>strings.SplitN(s, sep, n)\<close> for a separator of one byte.\<close>

fun splitN :: "nat \<Rightarrow> string \<Rightarrow> char \<Rightarrow> string list" where
  "splitN 0 s c = []"
| "splitN (Suc 0) s c = [s]"
| "splitN (Suc (Suc n)) s c = (case cut s c of (a, b, ok) \<Rightarrow> if ok then a # splitN (Suc n) b c else [s])"

section \<open>Groups\<close>

record cgroupManager =
  cgRoot :: string
  cgService :: string
  cgServiceDir :: string
  cgDaemonDir :: string
  cgVmsDir :: string

definition cleanCgroupPath :: "string \<Rightarrow> string" where
  "cleanCgroupPath value = pathClean (trimPrefix (trimSpace value) ''/'')"

definition newManager :: "string \<Rightarrow> string \<Rightarrow> cgroupManager" where
  "newManager root service =
     (let service = cleanCgroupPath service; serviceDir = pathJoin [root, service] in
      \<lparr>cgRoot = root, cgService = service, cgServiceDir = serviceDir,
       cgDaemonDir = pathJoin [serviceDir, ''firedoze-daemon''], cgVmsDir = pathJoin [serviceDir, ''firedoze-vms'']\<rparr>)"

fun unifiedPath :: "string list \<Rightarrow> string option" where
  "unifiedPath [] = None"
| "unifiedPath (line # rest) = (case splitN 3 line (CHR '':'') of
      [f0, f1, f2] \<Rightarrow> if f0 = ''0'' \<and> f1 = [] then Some f2 else unifiedPath rest
    | _ \<Rightarrow> unifiedPath rest)"

definition currentUnifiedCgroupPath :: "string \<Rightarrow> ('z fsys_scheme, string) prog" where
  "currentUnifiedCgroupPath path = bind (osReadFile path) (\<lambda>data.
     case unifiedPath (split data (CHR 0x0A)) of None \<Rightarrow> throw (Sentinel ErrUnavailable) | Some p \<Rightarrow> ret p)"

definition cgroupNew :: "string \<Rightarrow> ('z fsys_scheme, cgroupManager) prog" where
  "cgroupNew root =
     (let root = (if root = [] then ''/sys/fs/cgroup'' else root) in
      bind (currentUnifiedCgroupPath ''/proc/self/cgroup'') (\<lambda>service. ret (newManager root service)))"

definition requireUnified :: "string \<Rightarrow> ('z fsys_scheme, unit) prog" where
  "requireUnified root = bind (attempt (osStat (pathJoin [root, ''cgroup.controllers'']))) (\<lambda>r.
     case r of
       Inl e \<Rightarrow> if isNotExist e then throw (Sentinel ErrUnavailable) else throw e
     | Inr _ \<Rightarrow> ret ())"

definition enableControllers :: "string \<Rightarrow> string list \<Rightarrow> ('z fsys_scheme, unit) prog" where
  "enableControllers dir requested =
     bind (osReadFile (pathJoin [dir, ''cgroup.controllers''])) (\<lambda>data.
     let values = map (\<lambda>c. ''+'' @ c) (filter (\<lambda>c. c \<in> set (goFields data)) requested) in
     if values = [] then ret ()
     else osWriteFile (pathJoin [dir, ''cgroup.subtree_control'']) (join values '' '' @ [CHR 0x0A]))"

text \<open>The argument is the process id of the daemon.\<close>

definition Setup :: "cgroupManager \<Rightarrow> int \<Rightarrow> ('z fsys_scheme, unit) prog" where
  "Setup m pid =
     bind (requireUnified (cgRoot m)) (\<lambda>_.
     bind (wrapping ''create daemon cgroup'' (osMkdirAll (cgDaemonDir m))) (\<lambda>_.
     bind (wrapping ''create vm cgroup parent'' (osMkdirAll (cgVmsDir m))) (\<lambda>_.
     bind (wrapping ''move daemon to child cgroup'' (osWriteFile (pathJoin [cgDaemonDir m, ''cgroup.procs'']) (itoa pid @ [CHR 0x0A]))) (\<lambda>_.
     bind (wrapping ''enable service cgroup controllers'' (enableControllers (cgServiceDir m) [''cpu'', ''memory'', ''io''])) (\<lambda>_.
     wrapping ''enable vm cgroup controllers'' (enableControllers (cgVmsDir m) [''cpu'', ''memory'', ''io'']))))))"

definition vmCgroupName :: "string \<Rightarrow> string" where
  "vmCgroupName uuid = ''vm-'' @ map (\<lambda>c. if c = CHR ''/'' \<or> c = CHR 0x5C \<or> c = CHR 0x00 then CHR ''-'' else c) uuid"

definition writeOptionalFile :: "string \<Rightarrow> string \<Rightarrow> ('z fsys_scheme, unit) prog" where
  "writeOptionalFile path data = bind (attempt (osStat path)) (\<lambda>r.
     case r of
       Inl e \<Rightarrow> if isNotExist e then ret () else throw e
     | Inr _ \<Rightarrow> osWriteFile path data)"

definition PrepareVM :: "cgroupManager \<Rightarrow> string \<Rightarrow> ('z fsys_scheme, string) prog" where
  "PrepareVM m uuid =
     (let dir = pathJoin [cgVmsDir m, vmCgroupName uuid] in
      bind (wrapping ''create vm cgroup'' (osMkdirAll dir)) (\<lambda>_.
      bind (wrapping ''set vm cpu weight'' (writeOptionalFile (pathJoin [dir, ''cpu.weight'']) (''100'' @ [CHR 0x0A]))) (\<lambda>_.
      bind (wrapping ''set vm io weight'' (writeOptionalFile (pathJoin [dir, ''io.weight'']) (''default 100'' @ [CHR 0x0A]))) (\<lambda>_.
      ret dir))))"

definition AttachVM :: "cgroupManager \<Rightarrow> string \<Rightarrow> int \<Rightarrow> ('z fsys_scheme, string) prog" where
  "AttachVM m uuid pid =
     bind (PrepareVM m uuid) (\<lambda>dir.
     bind (wrapping ''move firecracker process to vm cgroup'' (osWriteFile (pathJoin [dir, ''cgroup.procs'']) (itoa pid @ [CHR 0x0A]))) (\<lambda>_.
     ret dir))"

definition cgroupRemove :: "string \<Rightarrow> ('z fsys_scheme, unit) prog" where
  "cgroupRemove path = (if path = [] then ret () else
     bind (attempt (osRemove path)) (\<lambda>r.
     case r of Inl e \<Rightarrow> if isNotExist e then ret () else throw e | Inr _ \<Rightarrow> ret ()))"

text \<open>The command line and the addition to the environment of \<open>Command\<close>.\<close>

definition cgroupCommand :: "string \<Rightarrow> string list \<Rightarrow> string \<Rightarrow> string list \<times> string list" where
  "cgroupCommand binary args cgroupPath =
     (if cgroupPath = [] then (binary # args, []) else
      ([''/bin/sh'', ''-c'', ''printf '' @ [CHR 39] @ ''%s'' @ [CHR 0x5C] @ ''n'' @ [CHR 39] @ '' \"$$\" > \"$FIREDOZE_CGROUP_PROCS\"; exec \"$@\"'',
        ''firedoze-cgroup-exec'', binary] @ args,
       [''FIREDOZE_CGROUP_PROCS='' @ pathJoin [cgroupPath, ''cgroup.procs'']]))"

section \<open>Counters\<close>

record cgroupUsage =
  cuMemoryCurrentBytes :: "64 word"
  cuMemoryPeakBytes :: "64 word"
  cuCPUUsageUsec :: "64 word"
  cuCPUUserUsec :: "64 word"
  cuCPUSystemUsec :: "64 word"
  cuCPUThrottledUsec :: "64 word"
  cuCPUThrottledEvents :: "64 word"
  cuCPUWeight :: int
  cuIOReadBytes :: "64 word"
  cuIOWriteBytes :: "64 word"
  cuIOWeight :: int

definition noUsage :: cgroupUsage where
  "noUsage = \<lparr>cuMemoryCurrentBytes = 0, cuMemoryPeakBytes = 0, cuCPUUsageUsec = 0, cuCPUUserUsec = 0, cuCPUSystemUsec = 0,
     cuCPUThrottledUsec = 0, cuCPUThrottledEvents = 0, cuCPUWeight = 0, cuIOReadBytes = 0, cuIOWriteBytes = 0, cuIOWeight = 0\<rparr>"

definition readUintFile :: "string \<Rightarrow> ('z fsys_scheme, 64 word) prog" where
  "readUintFile path = bind (osReadFile path) (\<lambda>data.
     case parseUint (trimSpace data) of None \<Rightarrow> throw (Msg ''invalid syntax'') | Some n \<Rightarrow> ret (of_nat n))"

definition cpuLine :: "cgroupUsage \<Rightarrow> string \<Rightarrow> cgroupUsage" where
  "cpuLine u line = (case goFields line of
      [key, text] \<Rightarrow> (case parseUint text of None \<Rightarrow> u | Some n \<Rightarrow>
        let v = of_nat n in
        if key = ''usage_usec'' then u\<lparr>cuCPUUsageUsec := v\<rparr>
        else if key = ''user_usec'' then u\<lparr>cuCPUUserUsec := v\<rparr>
        else if key = ''system_usec'' then u\<lparr>cuCPUSystemUsec := v\<rparr>
        else if key = ''nr_throttled'' then u\<lparr>cuCPUThrottledEvents := v\<rparr>
        else if key = ''throttled_usec'' then u\<lparr>cuCPUThrottledUsec := v\<rparr> else u)
    | _ \<Rightarrow> u)"

definition readCPUStat :: "string \<Rightarrow> cgroupUsage \<Rightarrow> ('z fsys_scheme, cgroupUsage) prog" where
  "readCPUStat path u = bind (osReadFile path) (\<lambda>data. ret (foldl cpuLine u (split data (CHR 0x0A))))"

definition ioField :: "cgroupUsage \<Rightarrow> string \<Rightarrow> cgroupUsage" where
  "ioField u field = (case cut field (CHR ''='') of (key, text, ok) \<Rightarrow>
     if \<not> ok then u else
     (case parseUint text of None \<Rightarrow> u | Some n \<Rightarrow>
        if key = ''rbytes'' then u\<lparr>cuIOReadBytes := cuIOReadBytes u + of_nat n\<rparr>
        else if key = ''wbytes'' then u\<lparr>cuIOWriteBytes := cuIOWriteBytes u + of_nat n\<rparr> else u))"

definition ioLine :: "cgroupUsage \<Rightarrow> string \<Rightarrow> cgroupUsage" where
  "ioLine u line = (case goFields line of [] \<Rightarrow> u | _ # fs \<Rightarrow> foldl ioField u fs)"

definition readIOStat :: "string \<Rightarrow> cgroupUsage \<Rightarrow> ('z fsys_scheme, cgroupUsage) prog" where
  "readIOStat path u = bind (osReadFile path) (\<lambda>data. ret (foldl ioLine u (split data (CHR 0x0A))))"

definition weightAtoi :: "string \<Rightarrow> err + int" where
  "weightAtoi s = (case parseInt s of None \<Rightarrow> Inl (Msg ''invalid syntax'') | Some v \<Rightarrow> Inr v)"

fun firstWeight :: "string list \<Rightarrow> err + int" where
  "firstWeight [] = Inl (Sentinel ErrUnavailable)"
| "firstWeight (line # rest) = (case goFields line of
      [a] \<Rightarrow> weightAtoi a
    | [a, b] \<Rightarrow> if a = ''default'' then weightAtoi b else firstWeight rest
    | _ \<Rightarrow> firstWeight rest)"

definition readWeight :: "string \<Rightarrow> ('z fsys_scheme, int) prog" where
  "readWeight path = bind (osReadFile path) (\<lambda>data. fromSum (firstWeight (split data (CHR 0x0A))))"

text \<open>A value that is left as it is when its file cannot be read or parsed, and one where only a missing file is passed over.\<close>

definition orKeep :: "('s, 'a) prog \<Rightarrow> ('a \<Rightarrow> 'u \<Rightarrow> 'u) \<Rightarrow> 'u \<Rightarrow> ('s, 'u) prog" where
  "orKeep m f u = bind (attempt m) (\<lambda>r. ret (case r of Inl _ \<Rightarrow> u | Inr x \<Rightarrow> f x u))"

definition unlessMissing :: "('s, 'u) prog \<Rightarrow> 'u \<Rightarrow> ('s, 'u) prog" where
  "unlessMissing m u = bind (attempt m) (\<lambda>r.
     case r of Inr x \<Rightarrow> ret x | Inl e \<Rightarrow> if isNotExist e then ret u else throw e)"

definition ReadUsage :: "string \<Rightarrow> ('z fsys_scheme, cgroupUsage) prog" where
  "ReadUsage path = (if path = [] then throw (Sentinel ErrUnavailable) else
     bind (orKeep (readUintFile (pathJoin [path, ''memory.current''])) (\<lambda>v u. u\<lparr>cuMemoryCurrentBytes := v\<rparr>) noUsage) (\<lambda>u.
     bind (orKeep (readUintFile (pathJoin [path, ''memory.peak''])) (\<lambda>v u. u\<lparr>cuMemoryPeakBytes := v\<rparr>) u) (\<lambda>u.
     bind (unlessMissing (readCPUStat (pathJoin [path, ''cpu.stat'']) u) u) (\<lambda>u.
     bind (orKeep (readWeight (pathJoin [path, ''cpu.weight''])) (\<lambda>v u. u\<lparr>cuCPUWeight := v\<rparr>) u) (\<lambda>u.
     bind (unlessMissing (readIOStat (pathJoin [path, ''io.stat'']) u) u) (\<lambda>u.
     orKeep (readWeight (pathJoin [path, ''io.weight''])) (\<lambda>v u. u\<lparr>cuIOWeight := v\<rparr>) u))))))"

section \<open>A group is one directory\<close>

lemma vmCgroupName_plain: "plainElem (vmCgroupName uuid)"
  by (auto simp: vmCgroupName_def plainElem_def split: if_splits)

lemma vmCgroupName_inj:
  assumes "set u \<inter> {CHR ''/'', CHR 0x5C, CHR 0x00} = {}" "set v \<inter> {CHR ''/'', CHR 0x5C, CHR 0x00} = {}"
    and "vmCgroupName u = vmCgroupName v"
  shows "u = v"
proof -
  have "map (\<lambda>c. if c = CHR ''/'' \<or> c = CHR 0x5C \<or> c = CHR 0x00 then CHR ''-'' else c) x = x"
    if "set x \<inter> {CHR ''/'', CHR 0x5C, CHR 0x00} = {}" for x
    using that by (intro map_idI) auto
  with assms show ?thesis by (simp add: vmCgroupName_def)
qed

lemma only_mkdirAll [keeps_rules]: "set (ancestors d) \<subseteq> P \<Longrightarrow> keeps (onlyIn P s) (osMkdirAll d)"
  unfolding osMkdirAll_def
  by (intro keeps_bind keeps_gets keeps_if keeps_throw only_call keeps_only_modify)
     (auto simp: map_of_mkdirs split: option.split)

lemma only_writeOptional [keeps_rules]: "p \<in> P \<Longrightarrow> keeps (onlyIn P s) (writeOptionalFile p b)"
  unfolding writeOptionalFile_def by (auto intro!: keeps_rules split: sum.splits)

text \<open>
  C34: Whatever string is passed as the identifier of a machine, with slashes and dots or without, preparing
  its control group and moving a process into it changes only the directories on the way to the group
  and three files in it; the group is a directory directly below the directory of all machines.  This
  holds whichever calls fail.
\<close>

theorem AttachVM_confined:
  assumes "isAbs (cgVmsDir m)" and "elems (cgVmsDir m) \<noteq> []"
  shows "\<exists>dir. dir = rendered (elems (cgVmsDir m) @ [vmCgroupName uuid]) \<and> plainElem (vmCgroupName uuid) \<and>
     (\<forall>d. fst (AttachVM m uuid pid s) = Inr d \<longrightarrow> d = dir) \<and>
     onlyIn (set (ancestors dir) \<union> (\<lambda>f. dir @ ''/'' @ f) ` {''cpu.weight'', ''io.weight'', ''cgroup.procs''}) s (snd (AttachVM m uuid pid s))"
proof -
  let ?dir = "pathJoin [cgVmsDir m, vmCgroupName uuid]" and ?es = "elems (cgVmsDir m) @ [vmCgroupName uuid]"
  have dir: "?dir = rendered ?es" using assms vmCgroupName_plain by (intro pathJoin_rendered) simp_all
  have pl: "plainElems ?es" using elems_plain [OF assms(1)] vmCgroupName_plain by simp
  have f: "pathJoin [?dir, f] = ?dir @ ''/'' @ f" if "plainElem f" for f
    using pathJoin_rendered [of ?dir "[f]"] that dir pl rendered_snoc [of ?es f] by simp
  have fs: "plainElem ''cpu.weight''" "plainElem ''io.weight''" "plainElem ''cgroup.procs''" by (simp_all add: plainElem_def)
  let ?P = "set (ancestors ?dir) \<union> (\<lambda>f. ?dir @ ''/'' @ f) ` {''cpu.weight'', ''io.weight'', ''cgroup.procs''}"
  have prep: "keeps (onlyIn ?P s) (PrepareVM m uuid)"
    unfolding PrepareVM_def Let_def by (intro keeps_rules) (auto simp: f fs)
  have res: "wp (PrepareVM m uuid) (\<lambda>d _. d = ?dir) (\<lambda>_ _. True) t" for t
    unfolding PrepareVM_def Let_def by (intro wp_any) (simp add: wp_ret)
  have "wp (AttachVM m uuid pid) (\<lambda>_. onlyIn ?P s) (\<lambda>_. onlyIn ?P s) s"
    unfolding AttachVM_def
    by (rule wp_seq [OF wp_conj [OF res keeps_wp [OF prep onlyIn_refl]]]) (auto simp: f fs intro!: keeps_wp keeps_rules)
  moreover have "wp (AttachVM m uuid pid) (\<lambda>d _. d = ?dir) (\<lambda>_ _. True) s"
    unfolding AttachVM_def by (rule wp_seq [OF res]) (auto intro!: wp_any simp: wp_ret)
  ultimately show ?thesis
    using vmCgroupName_plain [of uuid] unfolding dir
    by (intro exI [of _ "rendered ?es"]) (auto simp: wp_def split: prod.splits sum.splits)
qed

lemma AttachVM_confined_witness:
  "onlyIn ({''/sys'', ''/sys/fs'', ''/sys/fs/cgroup'', ''/sys/fs/cgroup/firedoze'', ''/sys/fs/cgroup/firedoze/firedoze-vms'',
       ''/sys/fs/cgroup/firedoze/firedoze-vms/vm-..-etc''} \<union>
      (\<lambda>f. ''/sys/fs/cgroup/firedoze/firedoze-vms/vm-..-etc'' @ ''/'' @ f) ` {''cpu.weight'', ''io.weight'', ''cgroup.procs''})
     \<lparr>outcomes = [], sqlnow = [], clock = 0, seed = 0, files = []\<rparr>
     (snd (AttachVM (newManager ''/sys/fs/cgroup'' ''/firedoze'') ''../etc'' 42
        (\<lparr>outcomes = [], sqlnow = [], clock = 0, seed = 0, files = []\<rparr> :: fsys)))"
proof -
  let ?m = "newManager ''/sys/fs/cgroup'' ''/firedoze''" and ?s = "\<lparr>outcomes = [], sqlnow = [], clock = 0, seed = 0, files = []\<rparr> :: fsys"
  have m: "isAbs (cgVmsDir ?m)" "elems (cgVmsDir ?m) = [''sys'', ''fs'', ''cgroup'', ''firedoze'', ''firedoze-vms'']"
    "vmCgroupName ''../etc'' = ''vm-..-etc''" by code_simp+
  have a: "ancestors ''/sys/fs/cgroup/firedoze/firedoze-vms/vm-..-etc'' =
      [''/sys'', ''/sys/fs'', ''/sys/fs/cgroup'', ''/sys/fs/cgroup/firedoze'', ''/sys/fs/cgroup/firedoze/firedoze-vms'',
       ''/sys/fs/cgroup/firedoze/firedoze-vms/vm-..-etc'']" by code_simp
  show ?thesis
    using AttachVM_confined [of ?m "''../etc''" 42 ?s] m a by (simp add: renderPath_def)
qed

section \<open>The counters of the devices\<close>

text \<open>The values of a counter in the words of a line after the first, over all lines.\<close>

definition ioValues :: "string \<Rightarrow> string \<Rightarrow> nat list" where
  "ioValues key data = List.map_filter (\<lambda>f. case cut f (CHR ''='') of (k, text, ok) \<Rightarrow> if ok \<and> k = key then parseUint text else None)
     (concat (map (\<lambda>line. drop 1 (goFields line)) (split data (CHR 0x0A))))"

lemma foldl_ioLine: "foldl ioLine u ls = foldl ioField u (concat (map (\<lambda>line. drop 1 (goFields line)) ls))"
  by (induction ls arbitrary: u) (auto simp: ioLine_def split: list.split)

lemma foldl_ioField:
  "cuIOReadBytes (foldl ioField u fs) = cuIOReadBytes u + of_nat (sum_list (List.map_filter
     (\<lambda>f. case cut f (CHR ''='') of (k, text, ok) \<Rightarrow> if ok \<and> k = ''rbytes'' then parseUint text else None) fs))"
  "cuIOWriteBytes (foldl ioField u fs) = cuIOWriteBytes u + of_nat (sum_list (List.map_filter
     (\<lambda>f. case cut f (CHR ''='') of (k, text, ok) \<Rightarrow> if ok \<and> k = ''wbytes'' then parseUint text else None) fs))"
  by (induction fs arbitrary: u) (auto simp: ioField_def List.map_filter_simps split: option.split prod.split)

text \<open>
  The bytes read and written that \<open>ReadUsage\<close> reports are the sums of the \<open>rbytes\<close> and \<open>wbytes\<close> values of
  all devices in \<open>io.stat\<close>, modulo \<open>2\<^sup>6\<^sup>4\<close>: a value that is not a 64-bit number, a word without an equals
  sign and a line without words count nothing.
\<close>

lemma readIOStat_sums:
  assumes "fault_free s" and "look s path = Some (File data)"
  shows "\<exists>u'. readIOStat path u s = (Inr u', s) \<and>
     unat (cuIOReadBytes u') = (unat (cuIOReadBytes u) + sum_list (ioValues ''rbytes'' data)) mod 2 ^ 64 \<and>
     unat (cuIOWriteBytes u') = (unat (cuIOWriteBytes u) + sum_list (ioValues ''wbytes'' data)) mod 2 ^ 64"
proof -
  have "osReadFile path s = (Inr data, s)"
    using assms by (simp add: osReadFile_def osStat_def bind_def gets_def ret_def)
  then have "readIOStat path u s = (Inr (foldl ioLine u (split data (CHR 0x0A))), s)"
    by (simp add: readIOStat_def bind_def ret_def)
  then show ?thesis
    by (simp add: foldl_ioLine foldl_ioField ioValues_def unat_word_ariths unat_of_nat mod_add_right_eq)
qed

lemma readIOStat_sums_witness:
  "\<exists>u'. readIOStat ''/io.stat'' noUsage \<lparr>outcomes = [], sqlnow = [], clock = 0, seed = 0,
       files = [(''/io.stat'', File (''8:0 rbytes=5 wbytes=7'' @ [CHR 0x0A] @ ''8:16 rbytes=3 wbytes=x''))]\<rparr> =
     (Inr u', \<lparr>outcomes = [], sqlnow = [], clock = 0, seed = 0,
       files = [(''/io.stat'', File (''8:0 rbytes=5 wbytes=7'' @ [CHR 0x0A] @ ''8:16 rbytes=3 wbytes=x''))]\<rparr>) \<and> unat (cuIOReadBytes u') = 8"
proof -
  have "ioValues ''rbytes'' (''8:0 rbytes=5 wbytes=7'' @ [CHR 0x0A] @ ''8:16 rbytes=3 wbytes=x'') = [5, 3]"
    by (simp add: ioValues_def List.map_filter_simps goFields_def isSpace_def split_def splitBy.simps cut_def Let_def parseUint_def digitVal_def)
  with readIOStat_sums [of "\<lparr>outcomes = [], sqlnow = [], clock = 0, seed = 0,
       files = [(''/io.stat'', File (''8:0 rbytes=5 wbytes=7'' @ [CHR 0x0A] @ ''8:16 rbytes=3 wbytes=x''))]\<rparr>" "''/io.stat''" _ noUsage]
  show ?thesis by (auto simp: noUsage_def)
qed

end
