(* ===== verification/Resource_Usage.thy ===== *)
theory Resource_Usage
  imports Vmm Cgroup
begin

text \<open>
  Resource usage of machines, \<open>internal/firecracker/resource_usage.go\<close>.  What only the kernel knows is
  an argument: the process id and the control group of a machine's Firecracker process, and the blocks
  a file occupies.  Processor time stays in clock ticks; the division by 100 into a \<open>float64\<close> is left out.

  Shown here: the fields of \<open>/proc/pid/stat\<close> are found whatever the name of the program contains.
\<close>

section \<open>The process\<close>

record ProcessResourceUsage =
  puPID :: int
  puRSSBytes :: "64 word"
  puVMSizeBytes :: "64 word"
  puCPUTicks :: "64 word"
  puThreads :: int

definition statusLine :: "ProcessResourceUsage \<Rightarrow> string \<Rightarrow> ProcessResourceUsage" where
  "statusLine u line = (case goFields line of
      f0 # f1 # _ \<Rightarrow>
        let key = trimSuffix f0 '':'' in
        if key = ''VmRSS'' then (case parseUint f1 of None \<Rightarrow> u | Some n \<Rightarrow> u\<lparr>puRSSBytes := of_nat n * 1024\<rparr>)
        else if key = ''VmSize'' then (case parseUint f1 of None \<Rightarrow> u | Some n \<Rightarrow> u\<lparr>puVMSizeBytes := of_nat n * 1024\<rparr>)
        else if key = ''Threads'' then (case parseInt f1 of None \<Rightarrow> u | Some n \<Rightarrow> u\<lparr>puThreads := n\<rparr>) else u
    | _ \<Rightarrow> u)"

text \<open>The text after the last closing parenthesis and one more byte, None when there is no such byte.\<close>

definition afterName :: "string \<Rightarrow> string option" where
  "afterName raw =
     (if CHR '')'' \<notin> set raw then None else
      let rest = rev (takeWhile (\<lambda>c. c \<noteq> CHR '')'') (rev raw)) in
      if rest = [] then None else Some (drop 1 rest))"

definition parseProcStatCPUSeconds :: "string \<Rightarrow> 64 word option" where
  "parseProcStatCPUSeconds raw = (case afterName raw of
      None \<Rightarrow> None
    | Some rest \<Rightarrow>
        let fs = goFields rest in
        if length fs \<le> 12 then None else
        (case (parseUint (fs ! 11), parseUint (fs ! 12)) of
           (Some utime, Some stime) \<Rightarrow> Some (of_nat utime + of_nat stime)
         | _ \<Rightarrow> None))"

definition readProcessResourceUsage :: "int \<Rightarrow> ('z fsys_scheme, ProcessResourceUsage) prog" where
  "readProcessResourceUsage pid =
     bind (osReadFile (''/proc/'' @ itoa pid @ ''/status'')) (\<lambda>status.
     let usage = foldl statusLine \<lparr>puPID = pid, puRSSBytes = 0, puVMSizeBytes = 0, puCPUTicks = 0, puThreads = 0\<rparr> (split status (CHR 0x0A)) in
     bind (attempt (osReadFile (''/proc/'' @ itoa pid @ ''/stat''))) (\<lambda>stat.
     ret (case stat of
        Inl _ \<Rightarrow> usage
      | Inr stat \<Rightarrow> (case parseProcStatCPUSeconds stat of None \<Rightarrow> usage | Some t \<Rightarrow> usage\<lparr>puCPUTicks := t\<rparr>))))"

section \<open>The machine\<close>

record kernelView =
  kvPid :: "string \<Rightarrow> int"
  kvCgroupPath :: "string \<Rightarrow> string"
  kvBlocks :: "string \<Rightarrow> int"

record VMResourceUsage =
  ruName :: string
  ruState :: string
  ruVCPUs :: int
  ruMemoryMinMiB :: int
  ruMemoryMaxMiB :: int
  ruDiskBytes :: int
  ruDiskAllocatedBytes :: int
  ruGuestMemory :: "GuestMemoryReport option"
  ruMemoryHotplug :: "MemoryHotplugUsage option"
  ruProcess :: "ProcessResourceUsage option"
  ruCgroup :: "cgroupUsage option"

text \<open>The size and the allocated bytes of a file.\<close>

definition fileDiskUsage :: "kernelView \<Rightarrow> string \<Rightarrow> ('z fsys_scheme, nat \<times> int) prog" where
  "fileDiskUsage k path = bind (osStat path) (\<lambda>n.
     ret (case n of Dir \<Rightarrow> 0 | File b \<Rightarrow> length b, wrap64 (kvBlocks k path * 512)))"

definition optionally :: "('s, 'a) prog \<Rightarrow> ('s, 'a option) prog" where
  "optionally m = bind (attempt m) (\<lambda>r. ret (case r of Inl _ \<Rightarrow> None | Inr x \<Rightarrow> Some x))"

definition hotplugUsage :: "VM \<Rightarrow> ('z mgr_scheme, MemoryHotplugUsage option) prog" where
  "hotplugUsage vm = bind (virtioMemUsableForVM vm) (\<lambda>usable.
     if \<not> usable then ret None else
     bind (attempt firecrackerGetMemoryHotplug) (\<lambda>r.
     ret (case r of Inl _ \<Rightarrow> None
        | Inr (totalMiB, requested, pluggedMiB) \<Rightarrow> Some \<lparr>muTotalMiB = totalMiB, muRequestedMiB = requested, muPluggedMiB = pluggedMiB,
            muEffectiveMiB = vmMemoryMinMiB vm + pluggedMiB\<rparr>)))"

definition vmResourceUsage :: "Config \<Rightarrow> kernelView \<Rightarrow> VM \<Rightarrow> ('z mgr_scheme, VMResourceUsage) prog" where
  "vmResourceUsage cfg k vm =
     bind (optionally (bind (vmDiskPath cfg vm) (fileDiskUsage k))) (\<lambda>disk.
     bind (gets (\<lambda>s. (isRunning s (vmUUID vm), map_of (guestMemoryReports s) (vmUUID vm)))) (\<lambda>(isUp, report).
     let usage = \<lparr>ruName = vmName vm, ruState = vmState vm, ruVCPUs = vmVCPUs vm, ruMemoryMinMiB = vmMemoryMinMiB vm,
           ruMemoryMaxMiB = vmMemoryMaxMiB vm, ruDiskBytes = vmDiskBytes vm,
           ruDiskAllocatedBytes = (case disk of None \<Rightarrow> 0 | Some (_, allocated) \<Rightarrow> allocated),
           ruGuestMemory = report, ruMemoryHotplug = None, ruProcess = None, ruCgroup = None\<rparr> in
     if \<not> isUp then ret usage else
     bind (hotplugUsage vm) (\<lambda>hotplug.
     bind (optionally (readProcessResourceUsage (kvPid k (vmUUID vm)))) (\<lambda>process.
     bind (if kvCgroupPath k (vmUUID vm) = [] then ret None else optionally (ReadUsage (kvCgroupPath k (vmUUID vm)))) (\<lambda>group.
     ret (usage\<lparr>ruMemoryHotplug := hotplug, ruProcess := process, ruCgroup := group\<rparr>))))))"

definition mgrVMResourceUsage :: "Config \<Rightarrow> kernelView \<Rightarrow> string \<Rightarrow> ('z mgr_scheme, VMResourceUsage) prog" where
  "mgrVMResourceUsage cfg k u = bind (GetVM u) (vmResourceUsage cfg k)"

fun usages :: "Config \<Rightarrow> kernelView \<Rightarrow> VM list \<Rightarrow> ('z mgr_scheme, VMResourceUsage list) prog" where
  "usages cfg k [] = ret []"
| "usages cfg k (vm # vms) = bind (vmResourceUsage cfg k vm) (\<lambda>u. bind (usages cfg k vms) (\<lambda>us. ret (u # us)))"

definition ListVMResourceUsage :: "Config \<Rightarrow> kernelView \<Rightarrow> string list \<Rightarrow> ('z mgr_scheme, VMResourceUsage list) prog" where
  "ListVMResourceUsage cfg k patterns = bind (ListVMsMatching patterns) (usages cfg k)"

section \<open>Reading only\<close>

lemma usage_reads [keeps_rules]:
  assumes "files_blind I"
  shows "keeps I (vmResourceUsage cfg k vm)" "keeps I (mgrVMResourceUsage cfg k u)" "keeps I (ListVMResourceUsage cfg k ps)"
proof -
  note b = files_blind_outcome [OF assms]
  have c: "keeps I (readUintFile p)" "keeps I (readWeight p)" "keeps I (readCPUStat p x)" "keeps I (readIOStat p x)" for p x
    unfolding readUintFile_def readWeight_def readCPUStat_def readIOStat_def using assms
    by (auto intro!: keeps_rules split: option.splits)
  have g: "keeps I (ReadUsage p)" for p
    unfolding ReadUsage_def orKeep_def unlessMissing_def by (auto intro!: keeps_rules c split: sum.splits)
  have p: "keeps I (readProcessResourceUsage p)" for p
    unfolding readProcessResourceUsage_def Let_def using assms by (intro keeps_rules)
  show u: "keeps I (vmResourceUsage cfg k vm)" for vm
    unfolding vmResourceUsage_def hotplugUsage_def fileDiskUsage_def firecrackerGetMemoryHotplug_def optionally_def Let_def
    using assms b by (auto intro!: keeps_rules p g)
  have "keeps I (usages cfg k vms)" for vms by (induction vms) (auto intro!: keeps_rules u)
  then show "keeps I (mgrVMResourceUsage cfg k u)" "keeps I (ListVMResourceUsage cfg k ps)"
    unfolding mgrVMResourceUsage_def ListVMResourceUsage_def using b by (auto intro!: keeps_rules u)
qed

text \<open>A program may have parentheses and spaces in its name: only what follows the last parenthesis counts.\<close>

lemma stat_name_irrelevant:
  assumes "CHR '')'' \<notin> set rest"
  shows "parseProcStatCPUSeconds (name @ '')'' @ rest) = parseProcStatCPUSeconds ('')'' @ rest)"
proof -
  have "takeWhile (\<lambda>c. c \<noteq> CHR '')'') (rev rest @ CHR '')'' # x) = rev rest" for x
    using assms by (subst takeWhile_append2) auto
  then have "afterName (name @ '')'' @ rest) = afterName ('')'' @ rest)" by (simp add: afterName_def)
  then show ?thesis by (simp add: parseProcStatCPUSeconds_def)
qed

end
