(* ===== verification/Wireguard.thy ===== *)
theory Wireguard
  imports Addresses
begin

text \<open>
  Peers of the WireGuard network, \<open>internal/wireguard/config.go\<close>: choosing the address of a new peer,
  adding the peer to the configuration file, and the text a client imports.  Keys belong to
  \<open>wgtypes\<close>, whose functions are the fields of the parameter \<open>keyLib\<close>.  Bytes from 128 on are taken
  to be printable UTF-8 by \<open>%q\<close>, as in \<open>Json\<close>.  The search for an address has one more round than
  there are addresses in use, which is enough.

  Shown here: a peer that was set up keeps the configuration valid and has an address of its own; the
  configuration file is replaced by a complete and valid one or not at all.
\<close>

section \<open>Addresses are 128 bits\<close>

lemma hexVal_bound: "hexVal c = Some d \<Longrightarrow> d < 16"
  by (auto simp: hexVal_def Let_def split: if_splits)

lemma hexNat_bound: "hexNat n s = Some v \<Longrightarrow> v < (n + 1) * 16 ^ length s"
proof (induction s arbitrary: n)
  case (Cons c s)
  then obtain d where d: "hexVal c = Some d" "hexNat (16 * n + d) s = Some v" by (auto split: option.splits)
  have "v < (16 * n + d + 1) * 16 ^ length s" using Cons.IH [OF d(2)] .
  also have "\<dots> \<le> (16 * n + 16) * 16 ^ length s" using hexVal_bound [OF d(1)] by (intro mult_right_mono) auto
  finally show ?case by (simp add: algebra_simps)
qed simp

lemma parseGroup_bound: "parseGroup g = Some v \<Longrightarrow> v < 65536"
proof -
  assume "parseGroup g = Some v"
  then have "hexNat 0 g = Some v" "length g \<le> 4" by (auto simp: parseGroup_def split: if_splits)
  from hexNat_bound [OF this(1)] power_increasing [OF this(2), of "16 :: nat"] show ?thesis by simp
qed

lemma parseIPv4_bound: "parseIPv4 s = Some v \<Longrightarrow> v < 2 ^ 32"
  by (auto simp: parseIPv4_def parseOctet_def split: list.splits option.splits if_splits)

lemma parseGroups_bound: "parseGroups ws = Some gs \<Longrightarrow> \<forall>g \<in> set gs. g < 65536"
proof (induction ws arbitrary: gs rule: parseGroups.induct)
  case (2 g)
  then show ?case
    by (auto dest!: parseIPv4_bound parseGroup_bound simp: less_mult_imp_div_less split: if_splits option.splits)
qed (auto dest!: parseGroup_bound split: option.splits)

lemma groupsVal_bound: "\<forall>g \<in> set gs. g < 65536 \<Longrightarrow> groupsVal gs < 65536 ^ length gs"
proof (induction gs rule: rev_induct)
  case (snoc g gs)
  then have "groupsVal gs + 1 \<le> 65536 ^ length gs" "g < 65536" by auto
  then have "(groupsVal gs + 1) * 65536 \<le> 65536 ^ length gs * 65536" by (intro mult_right_mono) auto
  with \<open>g < 65536\<close> show ?case by (simp add: groupsVal_def)
qed (simp add: groupsVal_def)

lemma ParseIP_bound: "ParseIP s = Some p \<Longrightarrow> p < ipBound"
proof (cases "CHR '':'' \<in> set s")
  case True
  have v: "groupsVal gs < ipBound" if "length gs = 8" "\<forall>g \<in> set gs. g < 65536" for gs
    using groupsVal_bound [OF that(2)] that(1) by (simp add: ipBound_def)
  assume "ParseIP s = Some p"
  with True show ?thesis
    by (auto simp: ParseIP_def parseIPv6_def dest!: parseGroups_bound split: option.splits if_splits intro!: v)
next
  case False
  assume "ParseIP s = Some p"
  with False show ?thesis by (auto simp: ParseIP_def embed4_def ipBound_def dest!: parseIPv4_bound)
qed

lemma ParseCIDR_bound: "ParseCIDR s = Some (p, n) \<Longrightarrow> p < ipBound \<and> netIP n \<le> p \<and> netOnes n \<le> netWidth (netIs4 n)"
  by (auto simp: ParseCIDR_def Let_def maskIP_def dest!: ParseIP_bound split: prod.splits option.splits if_splits)

text \<open>The text of a single IPv6 address is read back as that address.\<close>

lemma ipv6String_no_slash: "CHR ''/'' \<notin> set (ipv6String p)"
proof -
  have d: "hexChar d \<noteq> CHR ''/''" if "d < 16" for d
    using hexVal_hexChar [OF that] by (auto simp: hexVal_def)
  have h: "CHR ''/'' \<notin> set (natHex n)" for n
  proof (induction n rule: natHex.induct)
    case (1 n)
    then show ?case using d [of n] d [of "n mod 16"] by (cases "n < 16") (auto simp: natHex.simps [of n])
  qed
  have j: "CHR ''/'' \<notin> set (join (map natHex gs) '':'')" for gs
    using h by (induction gs rule: induct_list012) (auto simp: h)
  show ?thesis by (auto simp: ipv6String_def Let_def j split: prod.splits)
qed

lemma ParseCIDR_single:
  assumes "p < ipBound" and "To4 p = None"
  shows "ParseCIDR (ipString p @ ''/128'') = Some (p, \<lparr>netIP = p, netOnes = 128, netIs4 = False\<rparr>)"
proof -
  have s: "ipString p = ipv6String p" using assms(2) by (simp add: ipString_def)
  have "cut (ipv6String p @ CHR ''/'' # ''128'') (CHR ''/'') = (ipv6String p, ''128'', True)"
    by (rule cut_append_sep) (rule ipv6String_no_slash)
  moreover have "ParseIP (ipv6String p) = Some p" using ParseIP_String [OF assms(1)] s by simp
  moreover have "decNat 0 ''128'' = Some 128" by (simp add: digitVal_def)
  ultimately show ?thesis
    unfolding s by (simp add: ParseCIDR_def Let_def ipv6String_colon netWidth_def maskIP_def del: decNat.simps)
qed

section \<open>Keys and text\<close>

text \<open>
  What the daemon uses of \<open>wgtypes\<close>; a key is its 32 bytes.  \<open>klGenerate\<close> is what the one call of
  \<open>GeneratePrivateKey\<close> that an operation makes returns.
\<close>

record keyLib =
  klParse :: "string \<Rightarrow> err + string"
  klString :: "string \<Rightarrow> string"
  klPublic :: "string \<Rightarrow> string"
  klGenerate :: "err + string"

definition GenerateClientKeyPair :: "keyLib \<Rightarrow> err + (string \<times> string)" where
  "GenerateClientKeyPair k = (case klGenerate k of
      Inl e \<Rightarrow> Inl e | Inr key \<Rightarrow> Inr (klString k key, klString k (klPublic k key)))"

definition PublicKeyFromPrivateKey :: "keyLib \<Rightarrow> string \<Rightarrow> err + string" where
  "PublicKeyFromPrivateKey k privateKey = (case klParse k (trimSpace privateKey) of
      Inl e \<Rightarrow> Inl (Wrap ''private key'' e) | Inr key \<Rightarrow> Inr (klString k (klPublic k key)))"

text \<open>\<open>%q\<close>\<close>

definition quoteChar :: "char \<Rightarrow> string" where
  "quoteChar c = (let n = (of_char c :: nat) in
     if c = CHR 0x22 \<or> c = CHR 0x5C then [CHR 0x5C, c]
     else if n = 7 then [CHR 0x5C, CHR ''a''] else if n = 8 then [CHR 0x5C, CHR ''b'']
     else if n = 9 then [CHR 0x5C, CHR ''t''] else if n = 10 then [CHR 0x5C, CHR ''n'']
     else if n = 11 then [CHR 0x5C, CHR ''v''] else if n = 12 then [CHR 0x5C, CHR ''f'']
     else if n = 13 then [CHR 0x5C, CHR ''r'']
     else if n < 32 \<or> n = 127 then [CHR 0x5C, CHR ''x'', hexChar (n div 16), hexChar (n mod 16)]
     else [c])"

definition quoteGo :: "string \<Rightarrow> string" where
  "quoteGo s = [CHR 0x22] @ concat (map quoteChar s) @ [CHR 0x22]"

definition renderStringList :: "string list \<Rightarrow> string" where
  "renderStringList values = ''['' @ join (map quoteGo values) '', '' @ '']''"

fun compactInto :: "string list \<Rightarrow> string list \<Rightarrow> string list" where
  "compactInto out [] = out"
| "compactInto out (v # rest) = (if v = [] \<or> v \<in> set out then compactInto out rest else compactInto (out @ [v]) rest)"

definition compactStrings :: "string list \<Rightarrow> string list" where
  "compactStrings values = compactInto [] values"

definition wireGuardHostCIDR :: "string \<Rightarrow> string" where
  "wireGuardHostCIDR address = (case ParseCIDR address of
      None \<Rightarrow> address
    | Some (p, n) \<Rightarrow> ipString p @ ''/'' @ natDec (netWidth (netIs4 n)))"

definition peerClientAddresses :: "string list \<Rightarrow> string list" where
  "peerClientAddresses allowedIPs = concat (map (\<lambda>cidr. case ParseCIDR cidr of
      None \<Rightarrow> []
    | Some (p, n) \<Rightarrow>
        if netOnes n \<noteq> netWidth (netIs4 n) then [] else [ipString p @ ''/'' @ natDec (netWidth (netIs4 n))]) allowedIPs)"

definition endpoint :: "Config \<Rightarrow> string" where
  "endpoint cfg =
     (if wgEndpoint (cfgWireGuard cfg) \<noteq> [] then wgEndpoint (cfgWireGuard cfg)
      else ''<firedoze-public-host>:'' @ itoa (wgListenPort (cfgWireGuard cfg)))"

definition APIURL :: "string \<Rightarrow> err + string" where
  "APIURL wireGuardAddress = (case ParseCIDR wireGuardAddress of
      None \<Rightarrow> Inl (Msg ''wireguard.address must be CIDR'')
    | Some (p, _) \<Rightarrow>
        if To4 p = None then Inr (''http://['' @ ipString p @ '']'') else Inr (''http://'' @ ipString p))"

section \<open>Keys on disk\<close>

definition readServerPrivateKey :: "keyLib \<Rightarrow> string \<Rightarrow> ('z fsys_scheme, string) prog" where
  "readServerPrivateKey k path = bind (osReadFile path) (\<lambda>data. fromSum (klParse k (trimSpace data)))"

definition ServerPublicKey :: "keyLib \<Rightarrow> Config \<Rightarrow> ('z fsys_scheme, string) prog" where
  "ServerPublicKey k cfg = bind (readServerPrivateKey k (wgPrivateKeyFile (cfgWireGuard cfg))) (\<lambda>key.
     ret (klString k (klPublic k key)))"

definition ensureServerPrivateKey :: "keyLib \<Rightarrow> string \<Rightarrow> ('z fsys_scheme, string) prog" where
  "ensureServerPrivateKey k path = bind (attempt (readServerPrivateKey k path)) (\<lambda>r.
     case r of
       Inr key \<Rightarrow> ret key
     | Inl e \<Rightarrow>
         if \<not> isNotExist e then throw e else
         bind (fromSum (klGenerate k)) (\<lambda>key.
         bind (osMkdirAll (pathDir path)) (\<lambda>_.
         bind (osWriteFile path (klString k key @ [CHR 0x0A])) (\<lambda>_.
         ret key))))"

section \<open>The text for the client\<close>

definition peerConfig :: "Config \<Rightarrow> WGPeer \<Rightarrow> string \<Rightarrow> err + string" where
  "peerConfig cfg peer serverPublicKey =
     (let clientAddresses = peerClientAddresses (peerAllowedIPs peer);
          clientAddresses = (if clientAddresses = [] then [''<client-wireguard-address>''] else clientAddresses);
          allowedIPs = compactStrings [wireGuardHostCIDR (wgAddress (cfgWireGuard cfg)), netSubnet (cfgVMNetwork cfg)];
          nl = [CHR 0x0A] in
      case APIURL (wgAddress (cfgWireGuard cfg)) of
        Inl e \<Rightarrow> Inl e
      | Inr apiURL \<Rightarrow> Inr (
          ''# Firedoze client import config.'' @ nl @
          ''# This contains no client private key. Send it back to the client so they can run:'' @ nl @
          ''#   firedoze server import <this-file> -default'' @ nl @ nl @
          ''api_url = '' @ quoteGo apiURL @ nl @
          ''client_public_key = '' @ quoteGo (peerPublicKey peer) @ nl @ nl @
          ''[wireguard]'' @ nl @
          ''address = '' @ quoteGo (hd clientAddresses) @ nl @
          ''server_public_key = '' @ quoteGo serverPublicKey @ nl @
          ''endpoint = '' @ quoteGo (endpoint cfg) @ nl @
          ''allowed_ips = '' @ renderStringList allowedIPs @ nl))"

definition PeerConfig :: "keyLib \<Rightarrow> Config \<Rightarrow> WGPeer \<Rightarrow> ('z fsys_scheme, string) prog" where
  "PeerConfig k cfg peer = bind (ServerPublicKey k cfg) (\<lambda>serverPublicKey. fromSum (peerConfig cfg peer serverPublicKey))"

section \<open>A new peer\<close>

text \<open>The addresses in use: the host's and the single addresses of the peers.\<close>

definition peerAddresses :: "WGPeer list \<Rightarrow> string list" where
  "peerAddresses peers = concat (map (\<lambda>peer. concat (map (\<lambda>allowedIP. case ParseCIDR allowedIP of
      None \<Rightarrow> []
    | Some (p, n) \<Rightarrow>
        if netWidth (netIs4 n) \<noteq> 128 \<or> netOnes n \<noteq> 128 \<or> To4 p \<noteq> None then [] else [ipString p])
      (peerAllowedIPs peer))) peers)"

fun searchPeer :: "nat \<Rightarrow> ip \<Rightarrow> int \<Rightarrow> string list \<Rightarrow> int \<Rightarrow> (err + string) option" where
  "searchPeer 0 network count used offset = None"
| "searchPeer (Suc fuel) network count used offset =
     (if count \<le> offset then Some (Inl (Msg ''no free wireguard peer addresses''))
      else case addToIP network offset of
          Inl e \<Rightarrow> Some (Inl e)
        | Inr candidate \<Rightarrow>
            if ipString candidate \<in> set used then searchPeer fuel network count used (offset + 1)
            else Some (Inr (ipString candidate @ ''/128'')))"

definition nextPeerAllowedIP :: "Config \<Rightarrow> err + string" where
  "nextPeerAllowedIP cfg = (case ParseCIDR (wgAddress (cfgWireGuard cfg)) of
      None \<Rightarrow> Inl (Msg ''wireguard.address must be CIDR'')
    | Some (p, n) \<Rightarrow>
        if To4 p \<noteq> None \<or> netWidth (netIs4 n) \<noteq> 128
        then Inl (Msg ''automatic peer addresses require an IPv6 wireguard.address'')
        else if netOnes n > 126 then Inl (Msg ''wireguard.address subnet is too small for automatic peer addresses'')
        else
          let network = maskIP p (netOnes n) (netIs4 n);
              used = ipString p # peerAddresses (wgPeers (cfgWireGuard cfg)) in
          case searchPeer (length used + 1) network (2 ^ (128 - netOnes n)) used 1 of
            None \<Rightarrow> Inl (Msg ''search bound'')
          | Some r \<Rightarrow> r)"

fun peerConflict :: "string \<Rightarrow> string \<Rightarrow> string \<Rightarrow> WGPeer list \<Rightarrow> err + unit" where
  "peerConflict name publicKey allowedIP [] = Inr ()"
| "peerConflict name publicKey allowedIP (peer # rest) =
     (if peerName peer = name then Inl (Msg ''wireguard peer already exists'')
      else if peerPublicKey peer = publicKey then Inl (Msg ''wireguard peer already uses that public key'')
      else if list_ex (\<lambda>a. case ParseCIDR a of None \<Rightarrow> False | Some (_, n) \<Rightarrow> netString n = allowedIP) (peerAllowedIPs peer)
        then Inl (Msg ''wireguard peer already uses the address'')
      else peerConflict name publicKey allowedIP rest)"

definition normalizePeerIP :: "string \<Rightarrow> err + string" where
  "normalizePeerIP allowedIP = (case ParseCIDR allowedIP of
      None \<Rightarrow> Inl (Msg ''allowed IP must be CIDR'')
    | Some (p, n) \<Rightarrow>
        if netOnes n \<noteq> netWidth (netIs4 n) then Inl (Msg ''allowed IP must be a single client address'')
        else if To4 p \<noteq> None then Inl (Msg ''allowed IP must be IPv6'')
        else Inr (netString n))"

definition NewPeerSetup ::
    "keyLib \<Rightarrow> Config \<Rightarrow> string \<Rightarrow> string \<Rightarrow> string \<Rightarrow> ('z fsys_scheme, WGPeer \<times> string) prog" where
  "NewPeerSetup k cfg name publicKey allowedIP =
     (if name = [] then throw (Msg ''peer name is required'')
      else if publicKey = [] then throw (Msg ''peer public key is required'')
      else bind (wrapping ''peer public key'' (fromSum (klParse k publicKey))) (\<lambda>_.
      bind (if allowedIP = [] then fromSum (nextPeerAllowedIP cfg) else ret allowedIP) (\<lambda>allowedIP.
      bind (fromSum (normalizePeerIP allowedIP)) (\<lambda>normalizedAllowedIP.
      bind (fromSum (peerConflict name publicKey normalizedAllowedIP (wgPeers (cfgWireGuard cfg)))) (\<lambda>_.
      bind (ensureServerPrivateKey k (wgPrivateKeyFile (cfgWireGuard cfg))) (\<lambda>serverPrivateKey.
      let peer = \<lparr>peerName = name, peerPublicKey = publicKey, peerAllowedIPs = [normalizedAllowedIP]\<rparr> in
      bind (fromSum (peerConfig cfg peer (klString k (klPublic k serverPrivateKey)))) (\<lambda>clientConfig.
      ret (peer, clientConfig))))))))"

section \<open>The configuration file\<close>

definition renderPeerTOML :: "WGPeer \<Rightarrow> string" where
  "renderPeerTOML peer =
     (let nl = [CHR 0x0A] in
      nl @ ''['' @ ''[wireguard.peers]'' @ '']'' @ nl @
      ''name = '' @ quoteGo (peerName peer) @ nl @
      ''public_key = '' @ quoteGo (peerPublicKey peer) @ nl @
      ''allowed_ips = ['' @ join (map quoteGo (peerAllowedIPs peer)) '', '' @ '']'' @ nl)"

definition withPeer :: "string \<Rightarrow> WGPeer \<Rightarrow> string" where
  "withPeer data peer =
     data @ (if data \<noteq> [] \<and> last data \<noteq> CHR 0x0A then [CHR 0x0A] else []) @ renderPeerTOML peer"

definition AppendPeer ::
    "(string \<Rightarrow> Config \<Rightarrow> err + Config) \<Rightarrow> (string \<Rightarrow> err + (bool option \<times> string option)) \<Rightarrow> string \<Rightarrow> WGPeer \<Rightarrow>
     ('z fsys_scheme, unit) prog" where
  "AppendPeer unmarshal unmarshalFirewall path peer =
     bind (osReadFile path) (\<lambda>data.
     bind (osStat path) (\<lambda>_.
     let appended = withPeer data peer in
     bind (osTemp (File []) (pathDir path) (pathBase path @ ''.'') ''.tmp'') (\<lambda>tmpPath.
     deferring (osRemove tmpPath) (
     bind (attempt (bind (transfer tmpPath appended) (\<lambda>_. call))) (\<lambda>r.
     case r of
       Inl e \<Rightarrow> bind (ignoring call) (\<lambda>_. throw e)
     | Inr _ \<Rightarrow>
         bind call (\<lambda>_.
         bind (wrapping ''validate updated config'' (ConfigLoad unmarshal unmarshalFirewall tmpPath)) (\<lambda>_.
         osRename tmpPath path)))))))"

section \<open>The search for an address\<close>

lemma searchPeer_found:
  "searchPeer fuel network count used off = Some (Inr a) \<Longrightarrow>
     \<exists>i p. off + int i < count \<and> addToIP network (off + int i) = Inr p \<and> ipString p \<notin> set used \<and> a = ipString p @ ''/128''"
proof (induction fuel arbitrary: off)
  case (Suc fuel)
  show ?case
  proof (cases "searchPeer fuel network count used (off + 1) = Some (Inr a)")
    case True
    from Suc.IH [OF this] obtain i p where "off + 1 + int i < count" "addToIP network (off + 1 + int i) = Inr p"
      "ipString p \<notin> set used" "a = ipString p @ ''/128''" by blast
    moreover have "off + 1 + int i = off + int (Suc i)" by simp
    ultimately show ?thesis by metis
  next
    case False
    with Suc.prems show ?thesis by - (rule exI [of _ "0 :: nat"], auto split: sum.splits if_splits)
  qed
qed simp

lemma searchPeer_passes:
  "searchPeer fuel network count used off = r \<Longrightarrow> r = None \<and> i < fuel \<or> r = Some (Inl e) \<and> off + int i < count \<and>
     0 \<le> off \<and> int network + count \<le> int ipBound \<Longrightarrow>
     \<exists>p. addToIP network (off + int i) = Inr p \<and> ipString p \<in> set used"
proof (induction fuel arbitrary: off i)
  case (Suc fuel)
  have "\<exists>p. addToIP network off = Inr p \<and> ipString p \<in> set used \<and> searchPeer fuel network count used (off + 1) = r"
  proof -
    have "addToIP network off \<noteq> Inl x" if "off < count" "0 \<le> off" "int network + count \<le> int ipBound" for x
      using that by (simp add: addToIP_def Let_def)
    then show ?thesis using Suc.prems by (auto split: sum.splits if_splits)
  qed
  then obtain p where p: "addToIP network off = Inr p" "ipString p \<in> set used" "searchPeer fuel network count used (off + 1) = r"
    by blast
  show ?case
  proof (cases i)
    case (Suc j)
    with p(3) Suc.IH [of "off + 1" j] Suc.prems(2) show ?thesis by (auto simp: algebra_simps)
  qed (use p in simp)
qed auto

lemma searchPeer_enough_fuel:
  assumes "length used < fuel"
  shows "searchPeer fuel network count used off \<noteq> None"
proof
  assume none: "searchPeer fuel network count used off = None"
  define f where "f i = ipString (nat (int network + (off + int i)))" for i
  have p: "0 \<le> int network + (off + int i) \<and> nat (int network + (off + int i)) < ipBound \<and> f i \<in> set used" if "i < fuel" for i
    using searchPeer_passes [OF none] that by (auto simp: addToIP_ok f_def)
  have "inj_on f {..<fuel}"
  proof (rule inj_onI)
    fix i j assume "i \<in> {..<fuel}" "j \<in> {..<fuel}" "f i = f j"
    with p [of i] p [of j] have "nat (int network + (off + int i)) = nat (int network + (off + int j))"
      unfolding f_def by (intro ipString_inj) auto
    with p [of i] p [of j] \<open>i \<in> _\<close> \<open>j \<in> _\<close> show "i = j" by auto
  qed
  then have "fuel \<le> card (set used)"
    using p card_inj_on_le [of f "{..<fuel}" "set used"] by auto
  with assms card_length [of used] show False by linarith
qed

declare searchPeer.simps [simp del]

lemma nextPeerAllowedIP_fresh:
  assumes "nextPeerAllowedIP cfg = Inr a"
  obtains host n p where "ParseCIDR (wgAddress (cfgWireGuard cfg)) = Some (host, n)" and "a = ipString p @ ''/128''"
    and "netIP n < p" and "p < netIP n + 2 ^ (128 - netOnes n)" and "p < ipBound" and "p \<noteq> host"
    and "ipString p \<notin> set (peerAddresses (wgPeers (cfgWireGuard cfg)))"
proof -
  let ?peers = "peerAddresses (wgPeers (cfgWireGuard cfg))"
  from assms obtain host n where c: "ParseCIDR (wgAddress (cfgWireGuard cfg)) = Some (host, n)"
    and f: "searchPeer (length (ipString host # ?peers) + 1) (maskIP host (netOnes n) (netIs4 n)) (2 ^ (128 - netOnes n))
        (ipString host # ?peers) 1 = Some (Inr a)"
    by (auto simp: nextPeerAllowedIP_def Let_def split: option.splits if_splits)
  have m: "maskIP host (netOnes n) (netIs4 n) = netIP n"
    using c by (auto simp: ParseCIDR_def Let_def split: prod.splits option.splits if_splits)
  from searchPeer_found [OF f] obtain i p where i: "1 + int i < 2 ^ (128 - netOnes n)"
    "addToIP (netIP n) (1 + int i) = Inr p" "ipString p \<notin> set (ipString host # ?peers)" "a = ipString p @ ''/128''"
    unfolding m by blast
  have e: "p = netIP n + 1 + i" "p < ipBound" using i(2) by (auto simp: addToIP_ok)
  have "int (1 + i) < int (2 ^ (128 - netOnes n))" using i(1) by simp
  then have "1 + i < 2 ^ (128 - netOnes n)" by (simp only: of_nat_less_iff)
  then show thesis using that [OF c i(4)] e i(3) by auto
qed

section \<open>A configuration with one peer more\<close>

lemma validateAllowedIPs_set: "validateAllowedIPs seen as = Inr seen' \<Longrightarrow> set seen' = set seen \<union> set (allowedNets as)"
  using validateAllowedIPs_ok by fastforce

lemma validatePeers_snoc:
  "validatePeers names keys allowed ps = Inr () \<Longrightarrow> peerName q \<noteq> [] \<Longrightarrow> peerPublicKey q \<noteq> [] \<Longrightarrow>
     peerName q \<notin> set names \<union> peerName ` set ps \<Longrightarrow> peerPublicKey q \<notin> set keys \<union> peerPublicKey ` set ps \<Longrightarrow>
     peerAllowedIPs q = [a] \<Longrightarrow> ParseCIDR a = Some (p, n) \<Longrightarrow> To4 p = None \<Longrightarrow>
     netString n \<notin> set allowed \<union> (\<Union>r \<in> set ps. set (allowedNets (peerAllowedIPs r))) \<Longrightarrow>
     validatePeers names keys allowed (ps @ [q]) = Inr ()"
proof (induction names keys allowed ps rule: validatePeers.induct)
  case (2 names keys allowed r rest)
  from "2.prems"(1) obtain allowed' where v: "validateAllowedIPs allowed (peerAllowedIPs r) = Inr allowed'"
    and rest: "validatePeers (peerName r # names) (peerPublicKey r # keys) allowed' rest = Inr ()"
    and g: "peerName r \<noteq> []" "peerName r \<notin> set names" "peerPublicKey r \<noteq> []" "peerPublicKey r \<notin> set keys"
      "peerAllowedIPs r \<noteq> []"
    by (auto split: if_splits sum.splits)
  have "validatePeers (peerName r # names) (peerPublicKey r # keys) allowed' (rest @ [q]) = Inr ()"
    using "2.prems"(4,5,9) validateAllowedIPs_set [OF v]
    by (intro "2.IH" [OF g v rest "2.prems"(2,3) _ _ "2.prems"(6-8)]) auto
  with g v show ?case by simp
qed simp

lemma validatePeers_parse:
  "validatePeers names keys allowed ps = Inr () \<Longrightarrow> r \<in> set ps \<Longrightarrow> a \<in> set (peerAllowedIPs r) \<Longrightarrow>
     \<exists>p n. ParseCIDR a = Some (p, n) \<and> To4 p = None"
proof (induction names keys allowed ps rule: validatePeers.induct)
  case (2 names keys allowed x rest)
  from "2.prems"(1) obtain allowed' where v: "validateAllowedIPs allowed (peerAllowedIPs x) = Inr allowed'"
    and r: "validatePeers (peerName x # names) (peerPublicKey x # keys) allowed' rest = Inr ()"
    and g: "peerName x \<noteq> []" "peerName x \<notin> set names" "peerPublicKey x \<noteq> []" "peerPublicKey x \<notin> set keys"
      "peerAllowedIPs x \<noteq> []"
    by (auto split: if_splits sum.splits)
  from validateAllowedIPs_ok [OF v] "2.IH" [OF g v r] "2.prems"(2,3) show ?case by auto
qed simp

lemma peerConflict_none:
  "peerConflict name key a ps = Inr () \<Longrightarrow> r \<in> set ps \<Longrightarrow>
     peerName r \<noteq> name \<and> peerPublicKey r \<noteq> key \<and> (\<forall>b \<in> set (peerAllowedIPs r). \<forall>p n. ParseCIDR b = Some (p, n) \<longrightarrow> netString n \<noteq> a)"
  by (induction ps) (auto simp: list_ex_iff split: if_splits option.splits)

lemma normalizePeerIP_parse:
  assumes "normalizePeerIP a = Inr b"
  obtains p where "p < ipBound" and "To4 p = None" and "b = ipString p @ ''/128''"
    and "ParseCIDR a = Some (p, \<lparr>netIP = p, netOnes = 128, netIs4 = False\<rparr>)"
proof -
  from assms obtain p n where a: "ParseCIDR a = Some (p, n)" "netOnes n = netWidth (netIs4 n)" "To4 p = None" "b = netString n"
    by (auto simp: normalizePeerIP_def split: option.splits if_splits)
  have "\<not> netIs4 n"
  proof
    assume "netIs4 n"
    then obtain x where "ParseIP x = Some p" "CHR '':'' \<notin> set x"
      using a(1) by (auto simp: ParseCIDR_def Let_def split: prod.splits option.splits if_splits)
    then obtain v where "v < 2 ^ 32" "p = embed4 v" by (auto simp: ParseIP_def dest!: parseIPv4_bound)
    then have "p div 2 ^ 32 = 65535" by (intro div_nat_eqI) (auto simp: embed4_def)
    with a(3) show False by (simp add: To4_def)
  qed
  moreover have "netIP n = maskIP p (netOnes n) (netIs4 n)"
    using a(1) by (auto simp: ParseCIDR_def Let_def split: prod.splits option.splits if_splits)
  ultimately have "n = \<lparr>netIP = p, netOnes = 128, netIs4 = False\<rparr>" using a(2) by (cases n) (simp add: netWidth_def maskIP_def)
  moreover from this have "b = ipString p @ ''/128''"
    using a(3,4) by (simp add: netString_def natDec.simps digitChar_def char_of_eq_iff)
  ultimately show thesis using that a ParseCIDR_bound [OF a(1)] by blast
qed

lemma NewPeerSetup_result:
  assumes "NewPeerSetup k cfg name key a s = (Inr (peer, client), t)"
  obtains b where "name \<noteq> []" and "key \<noteq> []" and "(if a = [] then nextPeerAllowedIP cfg else Inr a) = Inr b"
    and "peerName peer = name" and "peerPublicKey peer = key" and "normalizePeerIP b = Inr (hd (peerAllowedIPs peer))"
    and "peerAllowedIPs peer = [hd (peerAllowedIPs peer)]"
    and "peerConflict name key (hd (peerAllowedIPs peer)) (wgPeers (cfgWireGuard cfg)) = Inr ()"
proof -
  have "wp (NewPeerSetup k cfg name key a) (\<lambda>(peer, _) _. name \<noteq> [] \<and> key \<noteq> [] \<and> peerName peer = name \<and> peerPublicKey peer = key \<and>
      (\<exists>b c. (if a = [] then nextPeerAllowedIP cfg else Inr a) = Inr b \<and> normalizePeerIP b = Inr c \<and>
        peerAllowedIPs peer = [c] \<and> peerConflict name key c (wgPeers (cfgWireGuard cfg)) = Inr ())) (\<lambda>_ _. True) s"
    unfolding NewPeerSetup_def Let_def
    by (auto simp: wp_rules split: sum.splits intro!: wp_any [unfolded wp_bind])
  from wpD_Inr [OF this assms] that show thesis by auto
qed

text \<open>
  C23: Setting up a peer that succeeds, with a configuration whose peers are valid, gives a peer with
  which the list is still valid: its name, key and address are no other peer's.  If no address was
  asked for, it is one of the host's WireGuard network, is not the host's own, and is not the single
  address of another peer.
\<close>

theorem new_peer_is_valid:
  assumes "NewPeerSetup k cfg name key a s = (Inr (peer, client), t)"
    and "validatePeers [] [] [] (wgPeers (cfgWireGuard cfg)) = Inr ()"
  shows "validatePeers [] [] [] (wgPeers (cfgWireGuard cfg) @ [peer]) = Inr () \<and>
    (a = [] \<longrightarrow> (\<exists>host n p. ParseCIDR (wgAddress (cfgWireGuard cfg)) = Some (host, n) \<and>
       peerAllowedIPs peer = [ipString p @ ''/128''] \<and> netIP n < p \<and> p < netIP n + 2 ^ (128 - netOnes n) \<and>
       p \<noteq> host \<and> ipString p \<notin> set (peerAddresses (wgPeers (cfgWireGuard cfg)))))"
proof -
  let ?ps = "wgPeers (cfgWireGuard cfg)"
  from NewPeerSetup_result [OF assms(1)] obtain b where r: "name \<noteq> []" "key \<noteq> []"
    "(if a = [] then nextPeerAllowedIP cfg else Inr a) = Inr b" "peerName peer = name" "peerPublicKey peer = key"
    "normalizePeerIP b = Inr (hd (peerAllowedIPs peer))" "peerAllowedIPs peer = [hd (peerAllowedIPs peer)]"
    "peerConflict name key (hd (peerAllowedIPs peer)) ?ps = Inr ()" by blast
  from normalizePeerIP_parse [OF r(6)] obtain p where p: "p < ipBound" "To4 p = None" "hd (peerAllowedIPs peer) = ipString p @ ''/128''"
    and b: "ParseCIDR b = Some (p, \<lparr>netIP = p, netOnes = 128, netIs4 = False\<rparr>)" by blast
  note conflict = peerConflict_none [OF r(8)]
  have "netString \<lparr>netIP = p, netOnes = 128, netIs4 = False\<rparr> = hd (peerAllowedIPs peer)"
    using p by (simp add: netString_def natDec.simps digitChar_def char_of_eq_iff)
  then have "netString \<lparr>netIP = p, netOnes = 128, netIs4 = False\<rparr> \<notin> (\<Union>r \<in> set ?ps. set (allowedNets (peerAllowedIPs r)))"
    using conflict validatePeers_parse [OF assms(2)] by (fastforce simp: allowedNets_def)
  moreover have "peerName peer \<notin> peerName ` set ?ps" "peerPublicKey peer \<notin> peerPublicKey ` set ?ps"
    using conflict r(4,5) by fastforce+
  ultimately have "validatePeers [] [] [] (?ps @ [peer]) = Inr ()"
    using validatePeers_snoc [OF assms(2) _ _ _ _ r(7), unfolded p(3), OF _ _ _ _ ParseCIDR_single [OF p(1,2)] p(2)] r(1,2,4,5)
    by simp
  moreover have "\<exists>host n p. ParseCIDR (wgAddress (cfgWireGuard cfg)) = Some (host, n) \<and>
       peerAllowedIPs peer = [ipString p @ ''/128''] \<and> netIP n < p \<and> p < netIP n + 2 ^ (128 - netOnes n) \<and>
       p \<noteq> host \<and> ipString p \<notin> set (peerAddresses ?ps)" if "a = []"
  proof -
    from r(3) that have "nextPeerAllowedIP cfg = Inr b" by simp
    then obtain host n q where q: "ParseCIDR (wgAddress (cfgWireGuard cfg)) = Some (host, n)" "b = ipString q @ ''/128''"
      "netIP n < q" "q < netIP n + 2 ^ (128 - netOnes n)" "q < ipBound" "q \<noteq> host" "ipString q \<notin> set (peerAddresses ?ps)"
      by (rule nextPeerAllowedIP_fresh)
    have "q = p"
    proof (cases "To4 q")
      case None
      with ParseCIDR_single [OF q(5)] b q(2) show ?thesis by simp
    next
      case (Some v)
      have "CHR ''/'' \<notin> set (ipv4String v)" using natDec_chars by (auto simp: ipv4String_def)
      then have "cut b (CHR ''/'') = (ipv4String v, ''128'', True)"
        using cut_append_sep [of "CHR ''/''" "ipv4String v" "''128''"] Some q(2) by (simp add: ipString_def)
      with b ipv4String_no_colon [of v] show ?thesis
        by (auto simp: ParseCIDR_def Let_def digitVal_def netWidth_def split: option.splits if_splits)
    qed
    with q r(7) p(3) show ?thesis by metis
  qed
  ultimately show ?thesis by blast
qed

section \<open>The file is replaced at once\<close>

definition loads :: "(string \<Rightarrow> Config \<Rightarrow> err + Config) \<Rightarrow> (string \<Rightarrow> err + (bool option \<times> string option)) \<Rightarrow> string \<Rightarrow> bool" where
  "loads unmarshal unmarshalFirewall data \<longleftrightarrow> (case unmarshal data Default of
      Inl _ \<Rightarrow> False
    | Inr cfg \<Rightarrow> validateExplicitHostFirewall unmarshalFirewall data = Inr () \<and> (\<exists>c. finishLoad cfg = Inr c))"

lemma wp_ConfigLoad:
  assumes "look s p = Some (File data)" and "p \<noteq> []"
    and "\<And>c rs. loads um uf data \<Longrightarrow> Q c (s\<lparr>outcomes := rs\<rparr>)" and "\<And>e rs. E e (s\<lparr>outcomes := rs\<rparr>)"
  shows "wp (ConfigLoad um uf p) Q E s"
  unfolding ConfigLoad_def Let_def wp_bind wp_attempt
  by (rule wp_osReadFile) (use assms in \<open>auto simp: wp_rules loads_def orDefault_def split: sum.splits\<close>)

text \<open>What is true of the file system while the temporary file exists, and at the end.\<close>

definition staged :: "'z fsys_scheme \<Rightarrow> string \<Rightarrow> 'z fsys_scheme \<Rightarrow> bool" where
  "staged s tmp t \<longleftrightarrow> (\<forall>q. q \<noteq> tmp \<longrightarrow> look t q = look s q)"

definition replaced :: "'z fsys_scheme \<Rightarrow> string \<Rightarrow> string \<Rightarrow> 'z fsys_scheme \<Rightarrow> bool" where
  "replaced s path b t \<longleftrightarrow> look t path = Some (File b) \<and> (\<forall>q. look s q \<noteq> None \<and> \<not> below path q \<longrightarrow> look t q = look s q)"

lemma wp_AppendPeer_tail:
  assumes tmp: "\<forall>q. below tmp q \<longrightarrow> look s q = None" and path: "look s path = Some (File data)"
    and now: "staged s tmp u" "look u tmp = Some (File b)" "tmp \<noteq> []"
  shows "wp (bind (wrapping m (ConfigLoad um uf tmp)) (\<lambda>_. osRename tmp path))
     (\<lambda>_ t. loads um uf b \<and> replaced s path b t \<and> look t tmp = None) (\<lambda>_ t. staged s tmp t) u"
proof -
  have ne: "tmp \<noteq> path" using tmp path by auto
  have nb: "\<not> below tmp path" using tmp path by auto
  have gone: "look u (tmp @ drop (length path) tmp) = None" if "below path tmp"
  proof -
    from that ne obtain r where r: "tmp = path @ CHR ''/'' # r" by (auto simp: below_iff)
    then have "below tmp (tmp @ drop (length path) tmp)" by (simp add: below_iff)
    with tmp have "look s (tmp @ drop (length path) tmp) = None" by blast
    then show ?thesis using now(1) r by (simp add: staged_def)
  qed
  have other: "look u q = look s q" if "look s q \<noteq> None" for q
    using that tmp now(1) below_refl [of tmp] unfolding staged_def by metis
  have moved: "replaced s path b t" if "files t = moveTree tmp path (files u)" for t :: "'a fsys_scheme"
    unfolding replaced_def that map_of_moveTree using now(2) other tmp by auto
  have absent: "map_of (moveTree tmp path (files u)) tmp = None" using gone by (simp add: map_of_moveTree)
  have still: "staged s tmp (u\<lparr>outcomes := rs\<rparr>)" for rs using now(1) by (simp add: staged_def)
  show ?thesis
    unfolding wp_bind wp_wrapping
    by (rule wp_ConfigLoad [OF now(2,3)]; (rule wp_osRename)?) (use moved absent ne still in \<open>simp_all\<close>)
qed

lemma wp_AppendPeer_staged:
  fixes s u :: "'z fsys_scheme"
  assumes u: "staged s tmp u" "\<forall>q. below tmp q \<longrightarrow> look s q = None" "tmp \<noteq> []" and path: "look s path = Some (File data)"
  shows "wp (bind (attempt (bind (transfer tmp b) (\<lambda>_. call))) (\<lambda>r. case r of
        Inl e \<Rightarrow> bind (ignoring call) (\<lambda>_. throw e)
      | Inr _ \<Rightarrow> bind call (\<lambda>_. bind (wrapping m (ConfigLoad um uf tmp)) (\<lambda>_. osRename tmp path))))
      (\<lambda>_ t. loads um uf b \<and> replaced s path b t \<and> look t tmp = None) (\<lambda>_ t. staged s tmp t) u"
proof (rule wp_seq [where P = "\<lambda>r t. staged s tmp t \<and> (\<forall>x. r = Inr x \<longrightarrow> look t tmp = Some (File b))" and E' = "\<lambda>_ _. False"])
  show "wp (attempt (bind (transfer tmp b) (\<lambda>_. call)))
      (\<lambda>r t. staged s tmp t \<and> (\<forall>x. r = Inr x \<longrightarrow> look t tmp = Some (File b))) (\<lambda>_ _. False) u"
    unfolding wp_attempt wp_bind
    by (rule wp_transfer; (rule wp_call_other)?) (use u(1) in \<open>auto simp: staged_def\<close>)
next
  fix r :: "err + unit" and t :: "'z fsys_scheme"
  assume r: "staged s tmp t \<and> (\<forall>x. r = Inr x \<longrightarrow> look t tmp = Some (File b))"
  then show "wp (case r of Inl e \<Rightarrow> bind (ignoring call) (\<lambda>_. throw e)
      | Inr _ \<Rightarrow> bind call (\<lambda>_. bind (wrapping m (ConfigLoad um uf tmp)) (\<lambda>_. osRename tmp path)))
      (\<lambda>_ t. loads um uf b \<and> replaced s path b t \<and> look t tmp = None) (\<lambda>_ t. staged s tmp t) t"
  proof (cases r)
    case (Inl e)
    show ?thesis unfolding Inl sum.case wp_bind wp_ignoring wp_throw
      by (intro wp_call_other) (use r in \<open>auto simp: staged_def\<close>)
  next
    case (Inr x)
    show ?thesis unfolding Inr sum.case wp_bind [of call]
      by (intro wp_call_other wp_AppendPeer_tail [OF u(2) path]) (use r u(3) Inr in \<open>auto simp: staged_def\<close>)
  qed
qed simp

lemma tempPath_nonempty [simp]: "tempPath dir pre suf k \<noteq> []"
  by (simp add: tempPath_def)

lemma staged_same [simp]: "staged s tmp (t\<lparr>outcomes := rs\<rparr>) = staged s tmp t"
  by (simp add: staged_def)

lemma wp_AppendPeer:
  assumes path: "look s path = Some (File data)"
  shows "wp (AppendPeer um uf path peer) (\<lambda>_ t. loads um uf (withPeer data peer) \<and> replaced s path (withPeer data peer) t)
     (\<lambda>_ t. replaced s path data t) s"
proof -
  have kept: "replaced s path data t" if "staged s tmp t" "\<forall>q. below tmp q \<longrightarrow> look s q = None" for tmp t
  proof -
    have "look t q = look s q" if "look s q \<noteq> None" for q
      using that \<open>staged s tmp t\<close> \<open>\<forall>q. below tmp q \<longrightarrow> look s q = None\<close> below_refl [of tmp] unfolding staged_def by metis
    with path show ?thesis by (simp add: replaced_def)
  qed
  have removed: "wp (osRemove tmp) (\<lambda>_. replaced s path data) (\<lambda>_. replaced s path data) t"
    if "staged s tmp t" "\<forall>q. below tmp q \<longrightarrow> look s q = None" for tmp t
    by (rule wp_osRemove; rule kept [OF _ that(2)]) (use that(1) in \<open>auto simp: staged_def\<close>)
  have idle: "wp (osRemove tmp) (\<lambda>_ t. loads um uf b \<and> replaced s path b t) (\<lambda>_ t. loads um uf b \<and> replaced s path b t) t"
    if "loads um uf b \<and> replaced s path b t \<and> look t tmp = None" for tmp t b
    by (rule wp_osRemove) (use that in \<open>auto simp: replaced_def\<close>)
  have same: "replaced s path data (t\<lparr>outcomes := rs\<rparr>)" if "files t = files s" for t rs
    using that path by (simp add: replaced_def)
  have body: "wp (deferring (osRemove tmp) (bind (attempt (bind (transfer tmp b) (\<lambda>_. call))) (\<lambda>r. case r of
        Inl e \<Rightarrow> bind (ignoring call) (\<lambda>_. throw e)
      | Inr _ \<Rightarrow> bind call (\<lambda>_. bind (wrapping m (ConfigLoad um uf tmp)) (\<lambda>_. osRename tmp path)))))
      (\<lambda>_ t. loads um uf b \<and> replaced s path b t) (\<lambda>_ t. replaced s path data t) u"
    if "staged s tmp u" "\<forall>q. below tmp q \<longrightarrow> look s q = None" "tmp \<noteq> []" for tmp b m u
    by (rule wp_defer [OF wp_AppendPeer_staged [OF that path]]) (rule idle, assumption, rule removed [OF _ that(2)])
  show ?thesis
    unfolding AppendPeer_def Let_def wp_bind [of "osReadFile _"] wp_bind [of "osStat _"] wp_bind [of "osTemp _ _ _ _"]
    by (rule wp_osReadFile; (rule wp_osStat; (rule wp_osTemp)?)?) (use path in \<open>auto simp: staged_def same intro!: body\<close>)
qed

text \<open>
  C20: Adding a peer to the configuration file is all or nothing, whatever call fails and wherever it
  stops.  If \<open>AppendPeer\<close> returns an error the file has its old contents; if it returns none, the file
  is the old text with the peer at its end, and that very text was read back and passed every check of
  \<open>Load\<close>.  No other file that existed is touched.
\<close>

theorem AppendPeer_all_or_nothing:
  assumes "look s path = Some (File data)" and "AppendPeer unmarshal unmarshalFirewall path peer s = (r, t)"
  shows "look t path = Some (File (case r of Inl _ \<Rightarrow> data | Inr _ \<Rightarrow> withPeer data peer)) \<and>
    (r = Inr () \<longrightarrow> loads unmarshal unmarshalFirewall (withPeer data peer)) \<and>
    (\<forall>q. look s q \<noteq> None \<and> \<not> below path q \<longrightarrow> look t q = look s q)"
  using wp_AppendPeer [OF assms(1), of unmarshal unmarshalFirewall peer] assms(2)
  by (cases r) (auto simp: wp_def replaced_def)

definition samplePeer :: WGPeer where
  "samplePeer = \<lparr>peerName = ''laptop'', peerPublicKey = ''K'', peerAllowedIPs = [''fd7a:115c:a1e1::2/128'']\<rparr>"

definition configHost :: fsys where
  "configHost = \<lparr>outcomes = [Success, Success, Success, Failure ''no space left on device'' 2], sqlnow = [], clock = 0, seed = 0, files = [(''/etc/firedoze.toml'', File ''a=1''), (''/etc'', Dir)]\<rparr>"

lemma AppendPeer_all_or_nothing_witness:
  "look configHost ''/etc/firedoze.toml'' = Some (File ''a=1'') \<and>
   look (snd (AppendPeer (\<lambda>_ c. Inr c) (\<lambda>_. Inr (None, None)) ''/etc/firedoze.toml'' samplePeer configHost)) ''/etc/firedoze.toml'' =
     Some (File (case fst (AppendPeer (\<lambda>_ c. Inr c) (\<lambda>_. Inr (None, None)) ''/etc/firedoze.toml'' samplePeer configHost) of
       Inl _ \<Rightarrow> ''a=1'' | Inr _ \<Rightarrow> withPeer ''a=1'' samplePeer))"
proof
  show l: "look configHost ''/etc/firedoze.toml'' = Some (File ''a=1'')" by (simp add: configHost_def)
  show "look (snd (AppendPeer (\<lambda>_ c. Inr c) (\<lambda>_. Inr (None, None)) ''/etc/firedoze.toml'' samplePeer configHost)) ''/etc/firedoze.toml'' =
     Some (File (case fst (AppendPeer (\<lambda>_ c. Inr c) (\<lambda>_. Inr (None, None)) ''/etc/firedoze.toml'' samplePeer configHost) of
       Inl _ \<Rightarrow> ''a=1'' | Inr _ \<Rightarrow> withPeer ''a=1'' samplePeer))"
    using AppendPeer_all_or_nothing [OF l prod.collapse [symmetric]] by blast
qed

definition sampleKeys :: keyLib where
  "sampleKeys = \<lparr>klParse = Inr, klString = (\<lambda>k. k), klPublic = (\<lambda>k. ''P'' @ k), klGenerate = Inr ''S''\<rparr>"

definition keyHost :: fsys where
  "keyHost = \<lparr>outcomes = [], sqlnow = [], clock = 0, seed = 0, files = [(wgPrivateKeyFile (cfgWireGuard Default), File ''S'')]\<rparr>"

lemma setup_runs:
  "\<exists>client t. NewPeerSetup sampleKeys Default ''laptop'' ''K'' [] keyHost =
     (Inr (\<lparr>peerName = ''laptop'', peerPublicKey = ''K'', peerAllowedIPs = [ipString 336928495290378273096710020141405962242 @ ''/128'']\<rparr>, client), t)"
proof -
  let ?a = "336928495290378273096710020141405962242 :: nat" and ?h = "336928495290378273096710020141405962241 :: nat"
  have ne: "ipString ?a \<noteq> ipString ?h" using ipString_inj [of ?a ?h] by (auto simp: ipBound_def)
  have s: "searchPeer (Suc (Suc 0)) 336928495290378273096710020141405962240 (2 ^ 64) [ipString ?h] 1 = Some (Inr (ipString ?a @ ''/128''))"
    using ne by (simp add: searchPeer.simps addToIP_def Let_def ipBound_def)
  have n: "nextPeerAllowedIP Default = Inr (ipString ?a @ ''/128'')"
    using s by (simp add: nextPeerAllowedIP_def Default_def default_nets Let_def netWidth_def To4_def maskIP_def peerAddresses_def)
  have p: "ParseCIDR (ipString ?a @ ''/128'') = Some (?a, \<lparr>netIP = ?a, netOnes = 128, netIs4 = False\<rparr>)"
    by (rule ParseCIDR_single) (simp_all add: ipBound_def To4_def)
  have c: "normalizePeerIP (ipString ?a @ ''/128'') = Inr (ipString ?a @ ''/128'')"
    unfolding normalizePeerIP_def p by (simp add: netWidth_def To4_def netString_def natDec.simps digitChar_def char_of_eq_iff)
  have u: "\<exists>url. APIURL (wgAddress (cfgWireGuard Default)) = Inr url" by (simp add: APIURL_def Default_def default_nets)
  have k: "ensureServerPrivateKey sampleKeys (wgPrivateKeyFile (cfgWireGuard Default)) keyHost = (Inr ''S'', keyHost)"
    by (rule wp_eqI) (simp add: ensureServerPrivateKey_def readServerPrivateKey_def wp_rules ff_rules keyHost_def sampleKeys_def
        trimSpace_def isSpace_def)
  have w: "wgPeers (cfgWireGuard Default) = []" by (simp add: Default_def)
  show ?thesis
    using u k by (auto simp: NewPeerSetup_def sampleKeys_def n c w peerConfig_def Let_def bind_def ret_def fromSum_def
        wrapping_def split: prod.splits sum.splits)
qed

lemma new_peer_is_valid_witness:
  "\<exists>peer client t. NewPeerSetup sampleKeys Default ''laptop'' ''K'' [] keyHost = (Inr (peer, client), t) \<and>
     validatePeers [] [] [] (wgPeers (cfgWireGuard Default) @ [peer]) = Inr ()"
proof -
  have v: "validatePeers [] [] [] (wgPeers (cfgWireGuard Default)) = Inr ()" by (simp add: Default_def)
  from setup_runs obtain peer client t where r: "NewPeerSetup sampleKeys Default ''laptop'' ''K'' [] keyHost = (Inr (peer, client), t)"
    by blast
  with new_peer_is_valid [OF r v] show ?thesis by blast
qed

end
