(* ===== verification/Device.thy ===== *)
theory Device
  imports Wireguard
begin

text \<open>
  The WireGuard device of the host, \<open>internal/host/wireguard.go\<close>: bringing it up, and following a
  reloaded configuration by changing only the peers that differ.  The packages \<open>netlink\<close> and \<open>wgctrl\<close>
  are the fields of the parameter \<open>netlib\<close>, programs over the state of the host; the order in which Go
  walks through a map is a parameter as well.

  The counts that \<open>wireGuardPeerDiff\<close> returns for the log are left out.

  Shown here: the peers of the device after a change of configuration are exactly those of the new
  configuration, whatever order the maps are walked in, although only the differences are sent.
\<close>

section \<open>What is sent to the device\<close>

record wgPeerCfg =
  pcKey :: string
  pcRemove :: bool
  pcReplace :: bool
  pcAllowed :: "IPNet list"

record wgDeviceCfg =
  dcPrivateKey :: "string option"
  dcListenPort :: "int option"
  dcReplacePeers :: bool
  dcPeers :: "wgPeerCfg list"

text \<open>
  \<open>nlLinkByName\<close> returns the type of the link, and \<open>None\<close> for \<open>LinkNotFoundError\<close>.
\<close>

record 's netlib =
  nlLinkByName :: "string \<Rightarrow> ('s, string option) prog"
  nlLinkAdd :: "string \<Rightarrow> ('s, unit) prog"
  nlParseAddr :: "string \<Rightarrow> err + unit"
  nlAddrReplace :: "string \<Rightarrow> string \<Rightarrow> ('s, unit) prog"
  nlLinkSetUp :: "string \<Rightarrow> ('s, unit) prog"
  wgNew :: "('s, unit) prog"
  wgConfigureDevice :: "string \<Rightarrow> wgDeviceCfg \<Rightarrow> ('s, unit) prog"
  wgClose :: "('s, unit) prog"

fun parseNets :: "string list \<Rightarrow> err + IPNet list" where
  "parseNets [] = Inr []"
| "parseNets (cidr # rest) = (case ParseCIDR cidr of
      None \<Rightarrow> Inl (Msg ''allowed_ips'')
    | Some (_, n) \<Rightarrow> (case parseNets rest of Inl e \<Rightarrow> Inl e | Inr ns \<Rightarrow> Inr (n # ns)))"

section \<open>Bringing the device up\<close>

definition ensureWireGuardPrivateKey :: "keyLib \<Rightarrow> string \<Rightarrow> ('z fsys_scheme, string) prog" where
  "ensureWireGuardPrivateKey k path = bind (attempt (osReadFile path)) (\<lambda>r.
     case r of
       Inr data \<Rightarrow> fromSum (klParse k data)
     | Inl e \<Rightarrow>
         if \<not> isNotExist e then throw e else
         bind (fromSum (klGenerate k)) (\<lambda>key.
         bind (osMkdirAll (pathDir path)) (\<lambda>_.
         bind (osWriteFile path (klString k key @ [CHR 0x0A])) (\<lambda>_.
         ret key))))"

definition ensureWireGuardLink :: "'s netlib \<Rightarrow> string \<Rightarrow> ('s, unit) prog" where
  "ensureWireGuardLink nl name = bind (nlLinkByName nl name) (\<lambda>r.
     case r of
       Some kind \<Rightarrow> if kind \<noteq> ''wireguard'' then throw (Msg ''existing link has another type'') else ret ()
     | None \<Rightarrow>
         bind (nlLinkAdd nl name) (\<lambda>_.
         bind (nlLinkByName nl name) (\<lambda>r.
         if r = None then throw (Msg ''Link not found'') else ret ())))"

fun devicePeers :: "keyLib \<Rightarrow> WGPeer list \<Rightarrow> err + wgPeerCfg list" where
  "devicePeers k [] = Inr []"
| "devicePeers k (peer # rest) = (case klParse k (peerPublicKey peer) of
      Inl e \<Rightarrow> Inl (Wrap ''public key'' e)
    | Inr key \<Rightarrow> (case parseNets (peerAllowedIPs peer) of
        Inl e \<Rightarrow> Inl (Wrap ''allowed_ips'' e)
      | Inr nets \<Rightarrow> (case devicePeers k rest of
          Inl e \<Rightarrow> Inl e
        | Inr cs \<Rightarrow> Inr (\<lparr>pcKey = key, pcRemove = False, pcReplace = True, pcAllowed = nets\<rparr> # cs))))"

definition EnsureWireGuard :: "'z fsys_scheme netlib \<Rightarrow> keyLib \<Rightarrow> WireGuardConfig \<Rightarrow> ('z fsys_scheme, unit) prog" where
  "EnsureWireGuard nl k cfg =
     bind (fromSum (validateWireGuard cfg)) (\<lambda>_.
     bind (wrapping ''private key'' (ensureWireGuardPrivateKey k (wgPrivateKeyFile cfg))) (\<lambda>privateKey.
     bind (wrapping ''link'' (ensureWireGuardLink nl (wgInterface cfg))) (\<lambda>_.
     bind (wrapping ''parse address'' (fromSum (nlParseAddr nl (wgAddress cfg)))) (\<lambda>_.
     bind (wrapping ''assign address'' (nlAddrReplace nl (wgInterface cfg) (wgAddress cfg))) (\<lambda>_.
     bind (wrapping ''open wgctrl'' (wgNew nl)) (\<lambda>_.
     deferring (wgClose nl) (
     bind (fromSum (devicePeers k (wgPeers cfg))) (\<lambda>peers.
     bind (wrapping ''configure device'' (wgConfigureDevice nl (wgInterface cfg)
       \<lparr>dcPrivateKey = Some privateKey, dcListenPort = Some (wgListenPort cfg), dcReplacePeers = True, dcPeers = peers\<rparr>)) (\<lambda>_.
     wrapping ''set link up'' (nlLinkSetUp nl (wgInterface cfg)))))))))))"

section \<open>Following a reloaded configuration\<close>

record runtimeWGPeer =
  rpName :: string
  rpKey :: string
  rpAllowed :: "IPNet list"
  rpParts :: "string list"

fun runtimePeersInto :: "keyLib \<Rightarrow> (string \<times> runtimeWGPeer) list \<Rightarrow> WGPeer list \<Rightarrow> err + (string \<times> runtimeWGPeer) list" where
  "runtimePeersInto k out [] = Inr out"
| "runtimePeersInto k out (peer # rest) = (case klParse k (peerPublicKey peer) of
      Inl e \<Rightarrow> Inl (Wrap ''public key'' e)
    | Inr publicKey \<Rightarrow>
        let key = klString k publicKey in
        if map_of out key \<noteq> None then Inl (Msg ''duplicates public key'')
        else (case parseNets (peerAllowedIPs peer) of
            Inl e \<Rightarrow> Inl (Wrap ''allowed_ips'' e)
          | Inr nets \<Rightarrow>
              runtimePeersInto k (out @ [(key, \<lparr>rpName = peerName peer, rpKey = publicKey, rpAllowed = nets,
                rpParts = sort (map netString nets)\<rparr>)]) rest))"

definition runtimeWGPeersByKey :: "keyLib \<Rightarrow> WGPeer list \<Rightarrow> err + (string \<times> runtimeWGPeer) list" where
  "runtimeWGPeersByKey k peers = runtimePeersInto k [] peers"

fun sameStringSet :: "string list \<Rightarrow> string list \<Rightarrow> bool" where
  "sameStringSet a b = (length a = length b \<and> list_all (\<lambda>i. a ! i = b ! i) [0..<length a])"

definition removedPeer :: "(string \<times> runtimeWGPeer) list \<Rightarrow> (string \<times> runtimeWGPeer) list \<Rightarrow> string \<Rightarrow> wgPeerCfg list" where
  "removedPeer oldByKey newByKey key = (case (map_of newByKey key, map_of oldByKey key) of
      (None, Some oldPeer) \<Rightarrow> [\<lparr>pcKey = rpKey oldPeer, pcRemove = True, pcReplace = False, pcAllowed = []\<rparr>]
    | _ \<Rightarrow> [])"

definition changedPeer :: "(string \<times> runtimeWGPeer) list \<Rightarrow> (string \<times> runtimeWGPeer) list \<Rightarrow> string \<Rightarrow> wgPeerCfg list" where
  "changedPeer oldByKey newByKey key = (case map_of newByKey key of
      None \<Rightarrow> []
    | Some newPeer \<Rightarrow>
        let sent = [\<lparr>pcKey = rpKey newPeer, pcRemove = False, pcReplace = True, pcAllowed = rpAllowed newPeer\<rparr>] in
        (case map_of oldByKey key of
           None \<Rightarrow> sent
         | Some oldPeer \<Rightarrow> if \<not> sameStringSet (rpParts oldPeer) (rpParts newPeer) then sent else []))"

text \<open>The two arguments \<open>walkOld\<close> and \<open>walkNew\<close> give the order in which the keys of a map come.\<close>

definition wireGuardPeerDiff ::
    "keyLib \<Rightarrow> (string list \<Rightarrow> string list) \<Rightarrow> (string list \<Rightarrow> string list) \<Rightarrow> WGPeer list \<Rightarrow> WGPeer list \<Rightarrow> err + wgPeerCfg list" where
  "wireGuardPeerDiff k walkOld walkNew oldPeers newPeers = (case runtimeWGPeersByKey k oldPeers of
      Inl e \<Rightarrow> Inl e
    | Inr oldByKey \<Rightarrow> (case runtimeWGPeersByKey k newPeers of
        Inl e \<Rightarrow> Inl e
      | Inr newByKey \<Rightarrow> Inr (
          concat (map (removedPeer oldByKey newByKey) (walkOld (map fst oldByKey))) @
          concat (map (changedPeer oldByKey newByKey) (walkNew (map fst newByKey))))))"

definition ReconcileWireGuardPeers ::
    "'s netlib \<Rightarrow> keyLib \<Rightarrow> (string list \<Rightarrow> string list) \<Rightarrow> (string list \<Rightarrow> string list) \<Rightarrow>
     WireGuardConfig \<Rightarrow> WireGuardConfig \<Rightarrow> ('s, unit) prog" where
  "ReconcileWireGuardPeers nl k walkOld walkNew oldCfg newCfg =
     bind (fromSum (wireGuardPeerDiff k walkOld walkNew (wgPeers oldCfg) (wgPeers newCfg))) (\<lambda>peerConfigs.
     if peerConfigs = [] then ret () else
     bind (wrapping ''open wgctrl'' (wgNew nl)) (\<lambda>_.
     deferring (wgClose nl) (
     wrapping ''configure device'' (wgConfigureDevice nl (wgInterface oldCfg)
       \<lparr>dcPrivateKey = None, dcListenPort = None, dcReplacePeers = False, dcPeers = peerConfigs\<rparr>))))"

section \<open>What the device does, and what it should have\<close>

text \<open>
  A device has a set of allowed networks for each peer.  The documented effect of one peer of a
  configuration: a peer to be removed goes; any other is there afterwards, has lost its networks if
  they are replaced, and has the given ones, which every other peer loses.
\<close>

type_synonym device = "string \<rightharpoonup> IPNet set"

definition applyPeer :: "device \<Rightarrow> wgPeerCfg \<Rightarrow> device" where
  "applyPeer d c =
     (if pcRemove c then d(pcKey c := None)
      else (\<lambda>k. if k = pcKey c
             then Some ((if pcReplace c then {} else (case d k of None \<Rightarrow> {} | Some a \<Rightarrow> a)) \<union> set (pcAllowed c))
             else map_option (\<lambda>a. a - set (pcAllowed c)) (d k)))"

text \<open>
  What the two packages are relied on for: opening, closing and the other calls leave the peers of the
  device alone, a call of \<open>ConfigureDevice\<close> that succeeds has the documented effect on the named
  device, and keys that print alike are the same.
\<close>

definition deviceDocs :: "'s netlib \<Rightarrow> keyLib \<Rightarrow> ('s \<Rightarrow> string \<Rightarrow> device) \<Rightarrow> bool" where
  "deviceDocs nl k peersOf \<longleftrightarrow>
     inj (klString k) \<and>
     (\<forall>s. peersOf (snd (wgNew nl s)) = peersOf s) \<and> (\<forall>s. peersOf (snd (wgClose nl s)) = peersOf s) \<and>
     (\<forall>s name. peersOf (snd (nlLinkSetUp nl name s)) = peersOf s) \<and>
     (\<forall>s t name cfg. wgConfigureDevice nl name cfg s = (Inr (), t) \<longrightarrow>
        peersOf t = (peersOf s)(name := foldl applyPeer (if dcReplacePeers cfg then Map.empty else peersOf s name) (dcPeers cfg)))"

text \<open>The peers a configuration asks for.\<close>

definition netsOf :: "string list \<Rightarrow> IPNet set" where
  "netsOf as = {n. \<exists>a \<in> set as. \<exists>p. ParseCIDR a = Some (p, n)}"

fun deviceOf :: "keyLib \<Rightarrow> WGPeer list \<Rightarrow> device" where
  "deviceOf k [] = Map.empty"
| "deviceOf k (peer # rest) = (case klParse k (peerPublicKey peer) of
      Inl _ \<Rightarrow> deviceOf k rest
    | Inr key \<Rightarrow> (deviceOf k rest)(key \<mapsto> netsOf (peerAllowedIPs peer)))"

section \<open>Networks that print alike\<close>

lemma To4_mask:
  assumes "ParseCIDR a = Some (p, n)" and "To4 p = None"
  shows "\<not> netIs4 n \<and> To4 (netIP n) = None"
proof -
  from assms(1) obtain x where x: "ParseIP x = Some p" "netIs4 n = (CHR '':'' \<notin> set x)" "netIP n = maskIP p (netOnes n) (netIs4 n)"
    by (auto simp: ParseCIDR_def Let_def split: prod.splits option.splits if_splits)
  have v6: "\<not> netIs4 n"
  proof
    assume "netIs4 n"
    with x obtain v where "v < 2 ^ 32" "p = embed4 v" by (auto simp: ParseIP_def dest!: parseIPv4_bound)
    then have "p div 2 ^ 32 = 65535" by (intro div_nat_eqI) (auto simp: embed4_def)
    with assms(2) show False by (simp add: To4_def)
  qed
  define w where "w = 128 - netOnes n"
  have m: "netIP n = p div 2 ^ w * 2 ^ w" using x(3) v6 by (simp add: maskIP_def netWidth_def w_def)
  have "netIP n div 2 ^ 32 \<noteq> 65535"
  proof (cases "w \<le> 32")
    case True
    then have e: "(2 :: nat) ^ 32 = 2 ^ w * 2 ^ (32 - w)" by (simp flip: power_add)
    have "netIP n div 2 ^ 32 = p div 2 ^ 32" unfolding e div_mult2_eq m by simp
    with assms(2) show ?thesis by (simp add: To4_def split: if_splits)
  next
    case False
    then have "w = 32 + Suc (w - 33)" by simp
    then have "(2 :: nat) ^ w = 2 ^ 32 * (2 * 2 ^ (w - 33))" by (metis power_add power_Suc)
    then have "netIP n = (p div 2 ^ w * 2 ^ (w - 33) * 2) * 2 ^ 32" unfolding m by (simp add: algebra_simps)
    then have "even (netIP n div 2 ^ 32)" by simp
    then show ?thesis by (metis odd_numeral)
  qed
  with v6 show ?thesis by (simp add: To4_def)
qed

lemma netString_inj:
  assumes "ParseCIDR a = Some (p, n)" "To4 p = None" "ParseCIDR b = Some (q, m)" "To4 q = None" "netString n = netString m"
  shows "n = m"
proof -
  note t = To4_mask [OF assms(1,2)] To4_mask [OF assms(3,4)]
  have e: "ipv6String (netIP n) @ CHR ''/'' # natDec (netOnes n) = ipv6String (netIP m) @ CHR ''/'' # natDec (netOnes m)"
    using assms(5) t by (simp add: netString_def ipString_def)
  have c: "cut (ipv6String i @ CHR ''/'' # natDec j) (CHR ''/'') = (ipv6String i, natDec j, True)" for i j
    by (rule cut_append_sep) (rule ipv6String_no_slash)
  have "(ipv6String (netIP n), natDec (netOnes n), True) = (ipv6String (netIP m), natDec (netOnes m), True)"
    by (simp only: c [symmetric] e)
  then have "ipString (netIP n) = ipString (netIP m)" "natDec (netOnes n) = natDec (netOnes m)" using t by (simp_all add: ipString_def)
  moreover have "netIP n < ipBound" "netIP m < ipBound" using ParseCIDR_bound assms(1,3) by fastforce+
  ultimately have "netIP n = netIP m" "netOnes n = netOnes m" using ipString_inj decNat_natDec by (blast, metis option.inject)
  with t show ?thesis by (cases n, cases m) simp
qed

section \<open>The maps of peers\<close>

definition entryOf :: "keyLib \<Rightarrow> WGPeer \<Rightarrow> string \<times> runtimeWGPeer \<Rightarrow> bool" where
  "entryOf k p e \<longleftrightarrow> klParse k (peerPublicKey p) = Inr (rpKey (snd e)) \<and> fst e = klString k (rpKey (snd e)) \<and>
     parseNets (peerAllowedIPs p) = Inr (rpAllowed (snd e)) \<and> rpParts (snd e) = sort (map netString (rpAllowed (snd e)))"

lemma runtimePeersInto_ok:
  "runtimePeersInto k out ps = Inr b \<Longrightarrow> distinct (map fst out) \<Longrightarrow>
     \<exists>c. b = out @ c \<and> list_all2 (entryOf k) ps c \<and> distinct (map fst b)"
proof (induction k out ps rule: runtimePeersInto.induct)
  case (2 k out p rest)
  from "2.prems"(1) obtain key nets where p: "klParse k (peerPublicKey p) = Inr key" "map_of out (klString k key) = None"
    "parseNets (peerAllowedIPs p) = Inr nets"
    and r: "runtimePeersInto k (out @ [(klString k key, \<lparr>rpName = peerName p, rpKey = key, rpAllowed = nets,
        rpParts = sort (map netString nets)\<rparr>)]) rest = Inr b"
    by (auto simp: Let_def split: sum.splits if_splits)
  have "distinct (map fst (out @ [(klString k key, \<lparr>rpName = peerName p, rpKey = key, rpAllowed = nets, rpParts = sort (map netString nets)\<rparr>)]))"
    using "2.prems"(2) p(2) by (auto simp: map_of_eq_None_iff)
  from "2.IH" [OF p(1) refl _ p(3) r this] p(2) obtain c where
    "b = out @ (klString k key, \<lparr>rpName = peerName p, rpKey = key, rpAllowed = nets, rpParts = sort (map netString nets)\<rparr>) # c"
    "list_all2 (entryOf k) rest c" "distinct (map fst b)" by auto
  with p show ?case by (auto simp: entryOf_def [of k p] intro!: exI)
qed simp

lemma byKey_ok:
  "runtimeWGPeersByKey k ps = Inr b \<Longrightarrow> list_all2 (entryOf k) ps b \<and> distinct (map fst b)"
  unfolding runtimeWGPeersByKey_def by (drule runtimePeersInto_ok) auto

lemma parseNets_ok: "parseNets as = Inr ns \<Longrightarrow> set ns = netsOf as \<and> map netString ns = allowedNets as"
proof (induction as arbitrary: ns)
  case (Cons a as)
  then obtain p n ms where "ParseCIDR a = Some (p, n)" "parseNets as = Inr ms" "ns = n # ms"
    by (auto split: option.splits sum.splits)
  with Cons.IH show ?case by (auto simp: netsOf_def allowedNets_def)
qed (auto simp: netsOf_def allowedNets_def)

definition peersIn :: "keyLib \<Rightarrow> (string \<times> runtimeWGPeer) list \<Rightarrow> device" where
  "peersIn k b = (\<lambda>x. map_option (\<lambda>r. set (rpAllowed r)) (map_of b (klString k x)))"

lemma deviceOf_byKey:
  "list_all2 (entryOf k) ps b \<Longrightarrow> inj (klString k) \<Longrightarrow> deviceOf k ps = peersIn k b"
proof (induction ps b rule: list_all2_induct)
  case (Cons p ps e b)
  then show ?case
    by (auto simp: entryOf_def [of k p] peersIn_def fun_eq_iff inj_def parseNets_ok)
qed (simp add: peersIn_def fun_eq_iff)

section \<open>Sending only the differences\<close>

text \<open>Two lists of networks that were read from a valid configuration.\<close>

definition validNets :: "IPNet list \<Rightarrow> bool" where
  "validNets ns \<longleftrightarrow> distinct (map netString ns) \<and> (\<forall>n \<in> set ns. \<exists>a p. ParseCIDR a = Some (p, n) \<and> To4 p = None)"

lemma sameStringSet_iff: "sameStringSet a b \<longleftrightarrow> a = b"
  by (auto simp: list_all_iff intro: nth_equalityI)

declare sameStringSet.simps [simp del]

lemma same_parts:
  assumes "validNets ns" and "validNets ms"
  shows "sameStringSet (sort (map netString ns)) (sort (map netString ms)) \<longleftrightarrow> set ns = set ms"
proof
  assume "sameStringSet (sort (map netString ns)) (sort (map netString ms))"
  then have "set (map netString ns) = set (map netString ms)" unfolding sameStringSet_iff by (metis set_sort)
  moreover have "inj_on netString (set ns \<union> set ms)"
    using assms netString_inj unfolding validNets_def inj_on_def by blast
  ultimately show "set ns = set ms" by (simp add: inj_on_image_eq_iff [of netString "set ns \<union> set ms"])
next
  assume "set ns = set ms"
  then show "sameStringSet (sort (map netString ns)) (sort (map netString ms))"
    using assms unfolding sameStringSet_iff validNets_def
    by (intro sorted_distinct_set_unique) auto
qed

lemma foldl_removed:
  assumes "\<And>key r. (key, r) \<in> set old \<Longrightarrow> key = klString k (rpKey r)" and "inj (klString k)"
    and "set ks \<subseteq> fst ` set old"
  shows "foldl applyPeer d (concat (map (removedPeer old new) ks)) =
     (\<lambda>x. if klString k x \<in> set ks \<and> map_of new (klString k x) = None then None else d x)"
  using assms(3)
proof (induction ks arbitrary: d)
  case (Cons key ks)
  then obtain r where r: "map_of old key = Some r" by (cases "map_of old key") (auto simp: map_of_eq_None_iff)
  have key: "klString k x = key \<longleftrightarrow> x = rpKey r" for x
    using assms(1) [OF map_of_SomeD [OF r]] assms(2) by (auto dest: injD)
  have step: "foldl applyPeer d (removedPeer old new key) =
      (\<lambda>x. if klString k x = key \<and> map_of new key = None then None else d x)"
    by (cases "map_of new key") (auto simp: removedPeer_def r applyPeer_def fun_eq_iff key)
  have "set ks \<subseteq> fst ` set old" using Cons.prems by simp
  note ih = Cons.IH [OF this]
  show ?case unfolding list.map concat.simps foldl_append step ih by (rule ext) auto
qed (simp add: fun_eq_iff)

text \<open>What holds of the device once the peers in \<open>P\<close> have been gone through.\<close>

definition settled :: "keyLib \<Rightarrow> (string \<times> runtimeWGPeer) list \<Rightarrow> (string \<times> runtimeWGPeer) list \<Rightarrow> string set \<Rightarrow> device \<Rightarrow> bool" where
  "settled k old new P d \<longleftrightarrow> (\<forall>x.
     (map_of new (klString k x) = None \<longrightarrow> d x = None) \<and>
     (\<forall>r. map_of new (klString k x) = Some r \<and> (klString k x \<in> P \<or> changedPeer old new (klString k x) = []) \<longrightarrow>
        d x = Some (set (rpAllowed r))))"

lemma settled_changed:
  assumes key: "\<And>key r. (key, r) \<in> set new \<Longrightarrow> key = klString k (rpKey r)" and inj: "inj (klString k)"
    and disjoint: "\<And>i j r q. map_of new i = Some r \<Longrightarrow> map_of new j = Some q \<Longrightarrow> i \<noteq> j \<Longrightarrow> set (rpAllowed r) \<inter> set (rpAllowed q) = {}"
    and d: "settled k old new P d" and i: "i \<in> fst ` set new"
  shows "settled k old new (insert i P) (foldl applyPeer d (changedPeer old new i))"
proof -
  from i obtain r where r: "map_of new i = Some r" by (cases "map_of new i") (auto simp: map_of_eq_None_iff)
  have same: "klString k x = i \<longleftrightarrow> x = rpKey r" for x
    using key [OF map_of_SomeD [OF r]] inj by (auto dest: injD)
  show ?thesis
  proof (cases "changedPeer old new i = []")
    case True
    with d r show ?thesis by (auto simp: settled_def)
  next
    case False
    then have c: "changedPeer old new i = [\<lparr>pcKey = rpKey r, pcRemove = False, pcReplace = True, pcAllowed = rpAllowed r\<rparr>]"
      by (cases "map_of old i") (simp_all add: changedPeer_def r Let_def split: if_splits)
    have other: "set (rpAllowed q) - set (rpAllowed r) = set (rpAllowed q)" if "map_of new (klString k x) = Some q" "x \<noteq> rpKey r" for x q
      by (rule Diff_triv, rule disjoint [OF that(1) r]) (simp add: same that(2))
    show ?thesis unfolding settled_def c
    proof (intro allI conjI impI)
      fix x
      assume n: "map_of new (klString k x) = None"
      then have "klString k x \<noteq> i" using r by auto
      then have "x \<noteq> rpKey r" by (simp add: same)
      moreover have "d x = None" using d n unfolding settled_def by blast
      ultimately show "foldl applyPeer d [\<lparr>pcKey = rpKey r, pcRemove = False, pcReplace = True, pcAllowed = rpAllowed r\<rparr>] x = None"
        by (simp add: applyPeer_def)
    next
      fix x q
      assume q: "map_of new (klString k x) = Some q \<and> (klString k x \<in> insert i P \<or> changedPeer old new (klString k x) = [])"
      show "foldl applyPeer d [\<lparr>pcKey = rpKey r, pcRemove = False, pcReplace = True, pcAllowed = rpAllowed r\<rparr>] x = Some (set (rpAllowed q))"
      proof (cases "x = rpKey r")
        case True
        with q r same [of x] show ?thesis by (simp add: applyPeer_def)
      next
        case False
        with q same [of x] have "d x = Some (set (rpAllowed q))" using d unfolding settled_def by blast
        with False other [OF conjunct1 [OF q] False] show ?thesis by (simp add: applyPeer_def)
      qed
    qed
  qed
qed

lemma settled_all:
  assumes "\<And>key r. (key, r) \<in> set new \<Longrightarrow> key = klString k (rpKey r)" and "inj (klString k)"
    and "\<And>i j r q. map_of new i = Some r \<Longrightarrow> map_of new j = Some q \<Longrightarrow> i \<noteq> j \<Longrightarrow> set (rpAllowed r) \<inter> set (rpAllowed q) = {}"
  shows "settled k old new P d \<Longrightarrow> set ks \<subseteq> fst ` set new \<Longrightarrow>
     settled k old new (P \<union> set ks) (foldl applyPeer d (concat (map (changedPeer old new) ks)))"
proof (induction ks arbitrary: P d)
  case (Cons i ks)
  then have "settled k old new (insert i P) (foldl applyPeer d (changedPeer old new i))"
    by (intro settled_changed assms) auto
  from Cons.IH [OF this] Cons.prems(2) show ?case by simp
qed simp

lemma valid_entries:
  assumes "list_all2 (entryOf k) ps b" and "validatePeers [] [] [] ps = Inr ()" and "e \<in> set b"
  shows "validNets (rpAllowed (snd e)) \<and> rpParts (snd e) = sort (map netString (rpAllowed (snd e))) \<and> fst e = klString k (rpKey (snd e))"
proof -
  from assms(1,3) obtain p where p: "p \<in> set ps" "entryOf k p e"
    by (metis in_set_conv_nth list_all2_conv_all_nth)
  have n: "parseNets (peerAllowedIPs p) = Inr (rpAllowed (snd e))" using p(2) by (simp add: entryOf_def)
  have "distinct (concat (map (\<lambda>p. allowedNets (peerAllowedIPs p)) ps))" using validatePeers_ok [OF assms(2)] by simp
  then have "distinct (allowedNets (peerAllowedIPs p))" using p(1) by (simp add: distinct_concat_iff)
  moreover have "\<exists>a q. ParseCIDR a = Some (q, n) \<and> To4 q = None" if "n \<in> set (rpAllowed (snd e))" for n
    using that parseNets_ok [OF n] validatePeers_parse [OF assms(2) p(1)] by (fastforce simp: netsOf_def)
  ultimately show ?thesis using p(2) parseNets_ok [OF n] by (simp add: validNets_def entryOf_def)
qed

lemma distinct_concat_nth:
  "distinct (concat xss) \<Longrightarrow> m < length xss \<Longrightarrow> n < length xss \<Longrightarrow> m \<noteq> n \<Longrightarrow> set (xss ! m) \<inter> set (xss ! n) = {}"
proof (induction xss arbitrary: m n)
  case (Cons xs xss)
  have apart: "set xs \<inter> set (xss ! i) = {}" if "i < length xss" for i
    using Cons.prems(1) nth_mem [OF that] by auto
  show ?case
  proof (cases m)
    case 0
    with Cons.prems apart [of "n - 1"] show ?thesis by (cases n) auto
  next
    case (Suc i)
    with Cons apart [of i] show ?thesis by (cases n) (simp_all add: Int_commute)
  qed
qed simp

lemma disjoint_entries:
  assumes l: "list_all2 (entryOf k) ps b" and v: "validatePeers [] [] [] ps = Inr ()"
    and r: "map_of b i = Some r" and q: "map_of b j = Some q" and "i \<noteq> j"
  shows "set (rpAllowed r) \<inter> set (rpAllowed q) = {}"
proof -
  have "map (\<lambda>p. allowedNets (peerAllowedIPs p)) ps = map (\<lambda>e. map netString (rpAllowed (snd e))) b"
    using l by (induction rule: list_all2_induct) (auto simp: entryOf_def parseNets_ok)
  then have d: "distinct (concat (map (\<lambda>e. map netString (rpAllowed (snd e))) b))" using validatePeers_ok [OF v] by simp
  from map_of_SomeD [OF r] map_of_SomeD [OF q] obtain m n where m: "m < length b" "b ! m = (i, r)" "n < length b" "b ! n = (j, q)"
    by (metis in_set_conv_nth)
  with \<open>i \<noteq> j\<close> have "m \<noteq> n" by auto
  with distinct_concat_nth [OF d, of m n] m
  have "set (map netString (rpAllowed (snd (b ! m)))) \<inter> set (map netString (rpAllowed (snd (b ! n)))) = {}"
    by (simp del: set_map)
  with m show ?thesis by auto
qed

text \<open>The configuration sent to a device that has the old peers gives it the new ones.\<close>

lemma diff_refines:
  assumes diff: "wireGuardPeerDiff k walkOld walkNew ps qs = Inr cs"
    and walk: "\<And>ks. set (walkOld ks) = set ks" "\<And>ks. set (walkNew ks) = set ks" and inj: "inj (klString k)"
    and v: "validatePeers [] [] [] ps = Inr ()" "validatePeers [] [] [] qs = Inr ()"
  shows "foldl applyPeer (deviceOf k ps) cs = deviceOf k qs"
proof -
  from diff obtain old new where b: "runtimeWGPeersByKey k ps = Inr old" "runtimeWGPeersByKey k qs = Inr new"
    and cs: "cs = concat (map (removedPeer old new) (walkOld (map fst old))) @ concat (map (changedPeer old new) (walkNew (map fst new)))"
    by (auto simp: wireGuardPeerDiff_def split: sum.splits)
  note lo = conjunct1 [OF byKey_ok [OF b(1)]] and ln = conjunct1 [OF byKey_ok [OF b(2)]]
  note old_valid = valid_entries [OF lo v(1)] and new_valid = valid_entries [OF ln v(2)]
  have key: "i = klString k (rpKey r)" if "(i, r) \<in> set old \<or> (i, r) \<in> set new" for i r
    using that old_valid new_valid by fastforce
  define d where "d = foldl applyPeer (deviceOf k ps) (concat (map (removedPeer old new) (walkOld (map fst old))))"
  have d: "d = (\<lambda>x. if klString k x \<in> fst ` set old \<and> map_of new (klString k x) = None then None else peersIn k old x)"
    unfolding d_def deviceOf_byKey [OF lo inj]
    by (subst foldl_removed [of old k]) (use key inj walk in auto)
  have unchanged: "\<exists>r. map_of old i = Some r \<and> set (rpAllowed r) = set (rpAllowed q)"
    if "map_of new i = Some q" "changedPeer old new i = []" for i q
  proof -
    from that obtain r where r: "map_of old i = Some r" "sameStringSet (rpParts r) (rpParts q)"
      by (cases "map_of old i") (auto simp: changedPeer_def Let_def split: if_splits)
    then show ?thesis
      using old_valid [OF map_of_SomeD [OF r(1)]] new_valid [OF map_of_SomeD [OF that(1)]] same_parts [of "rpAllowed r" "rpAllowed q"]
      by simp
  qed
  have "settled k old new {} d" unfolding settled_def
  proof (intro allI conjI impI)
    fix x assume "map_of new (klString k x) = None"
    then show "d x = None" by (auto simp: d peersIn_def map_of_eq_None_iff)
  next
    fix x q assume "map_of new (klString k x) = Some q \<and> (klString k x \<in> {} \<or> changedPeer old new (klString k x) = [])"
    then have q: "map_of new (klString k x) = Some q" "changedPeer old new (klString k x) = []" by auto
    show "d x = Some (set (rpAllowed q))" using q(1) unchanged [OF q] by (simp add: d peersIn_def)
  qed
  then have "settled k old new ({} \<union> set (walkNew (map fst new))) (foldl applyPeer (deviceOf k ps) cs)"
    unfolding cs foldl_append d_def [symmetric]
    by (rule settled_all [rotated 3]) (use key inj disjoint_entries [OF ln v(2)] walk in auto)
  then have all: "settled k old new (fst ` set new) (foldl applyPeer (deviceOf k ps) cs)" by (simp add: walk)
  show ?thesis
    unfolding deviceOf_byKey [OF ln inj]
  proof (rule ext)
    fix x
    show "foldl applyPeer (deviceOf k ps) cs x = peersIn k new x"
    proof (cases "map_of new (klString k x)")
      case None
      with all show ?thesis by (simp add: settled_def peersIn_def)
    next
      case (Some q)
      then have "klString k x \<in> fst ` set new" by (force dest: map_of_SomeD)
      with Some all show ?thesis by (simp add: settled_def peersIn_def)
    qed
  qed
qed

text \<open>
  C18: Following a reloaded configuration refines the plain specification ``the device has the peers
  of the configuration''.  If the device has exactly the peers of the old configuration, each with its
  networks, and \<open>ReconcileWireGuardPeers\<close> returns no error, then the device has exactly the peers of the
  new one, though only differences were sent: no peer is left over or missing, and a network that went
  from one peer to another is with the new one only.  This holds in whatever order Go walks through
  the maps, if the device does with a peer what WireGuard documents and both lists of peers passed
  validation.
\<close>

theorem ReconcileWireGuardPeers_refines:
  assumes "deviceDocs nl k peersOf" and "\<And>ks. set (walkOld ks) = set ks" and "\<And>ks. set (walkNew ks) = set ks"
    and "validatePeers [] [] [] (wgPeers oldCfg) = Inr ()" and "validatePeers [] [] [] (wgPeers newCfg) = Inr ()"
    and "peersOf s (wgInterface oldCfg) = deviceOf k (wgPeers oldCfg)"
    and "ReconcileWireGuardPeers nl k walkOld walkNew oldCfg newCfg s = (Inr (), t)"
  shows "peersOf t (wgInterface oldCfg) = deviceOf k (wgPeers newCfg)"
proof -
  let ?i = "wgInterface oldCfg"
  let ?cfg = "\<lambda>cs. \<lparr>dcPrivateKey = None, dcListenPort = None, dcReplacePeers = False, dcPeers = cs\<rparr>"
  from assms(7) obtain cs where cs: "wireGuardPeerDiff k walkOld walkNew (wgPeers oldCfg) (wgPeers newCfg) = Inr cs"
    by (auto simp: ReconcileWireGuardPeers_def bind_def fromSum_def split: sum.splits)
  have inj: "inj (klString k)" using assms(1) by (simp add: deviceDocs_def)
  note final = diff_refines [OF cs assms(2,3) inj assms(4,5)]
  show ?thesis
  proof (cases "cs = []")
    case True
    with assms(6,7) cs final show ?thesis by (simp add: ReconcileWireGuardPeers_def bind_def fromSum_def ret_def)
  next
    case False
    with assms(7) cs have "bind (wrapping ''open wgctrl'' (wgNew nl)) (\<lambda>_. deferring (wgClose nl)
        (wrapping ''configure device'' (wgConfigureDevice nl ?i (?cfg cs)))) s = (Inr (), t)"
      by (simp add: ReconcileWireGuardPeers_def bind_def fromSum_def)
    then obtain u v where u: "u = snd (wgNew nl s)" and v: "wgConfigureDevice nl ?i (?cfg cs) u = (Inr (), v)" and t: "t = snd (wgClose nl v)"
      by (auto simp: bind_def wrapping_def deferring_def split: prod.splits sum.splits)
    from v assms(1) have "peersOf v = (peersOf u)(?i := foldl applyPeer (peersOf u ?i) cs)"
      by (force simp: deviceDocs_def)
    moreover have "peersOf u = peersOf s" "peersOf t = peersOf v" using assms(1) u t by (simp_all add: deviceDocs_def)
    ultimately show ?thesis using assms(6) final by simp
  qed
qed

definition sampleNet :: "(string \<Rightarrow> device) netlib" where
  "sampleNet = \<lparr>nlLinkByName = (\<lambda>_. ret (Some ''wireguard'')), nlLinkAdd = (\<lambda>_. ret ()), nlParseAddr = (\<lambda>_. Inr ()),
     nlAddrReplace = (\<lambda>_ _. ret ()), nlLinkSetUp = (\<lambda>_. ret ()), wgNew = ret (),
     wgConfigureDevice = (\<lambda>name cfg. modify (\<lambda>s. s(name :=
       foldl applyPeer (if dcReplacePeers cfg then Map.empty else s name) (dcPeers cfg)))), wgClose = ret ()\<rparr>"

definition onePeer :: "string \<Rightarrow> WireGuardConfig" where
  "onePeer key = (cfgWireGuard Default)\<lparr>wgPeers :=
     [\<lparr>peerName = ''laptop'', peerPublicKey = key, peerAllowedIPs = [''fd7a:115c:a1e1::2/128'']\<rparr>]\<rparr>"

lemma onePeer_net:
  "ParseCIDR ''fd7a:115c:a1e1::2/128'' = Some (336928495290378273096710020141405962242,
     \<lparr>netIP = 336928495290378273096710020141405962242, netOnes = 128, netIs4 = False\<rparr>)"
  by (simp add: eval_net)

lemma ReconcileWireGuardPeers_refines_witness:
  "\<exists>t. ReconcileWireGuardPeers sampleNet sampleKeys rev (\<lambda>ks. ks) (onePeer ''A'') (onePeer ''B'')
       (\<lambda>_. deviceOf sampleKeys (wgPeers (onePeer ''A''))) = (Inr (), t) \<and>
     t (wgInterface (onePeer ''A'')) = [''B'' \<mapsto> {\<lparr>netIP = 336928495290378273096710020141405962242, netOnes = 128, netIs4 = False\<rparr>}]"
proof -
  let ?s = "\<lambda>_. deviceOf sampleKeys (wgPeers (onePeer ''A''))"
  have docs: "deviceDocs sampleNet sampleKeys (\<lambda>s. s)"
    by (auto simp: deviceDocs_def sampleNet_def sampleKeys_def inj_def ret_def modify_def)
  have v: "validatePeers [] [] [] (wgPeers (onePeer x)) = Inr ()" if "x \<noteq> []" for x
    using that by (simp add: onePeer_def onePeer_net To4_def)
  obtain cs where "wireGuardPeerDiff sampleKeys rev (\<lambda>ks. ks) (wgPeers (onePeer ''A'')) (wgPeers (onePeer ''B'')) = Inr cs"
    by (simp add: wireGuardPeerDiff_def runtimeWGPeersByKey_def onePeer_def onePeer_net sampleKeys_def Let_def)
  then have "fst (ReconcileWireGuardPeers sampleNet sampleKeys rev (\<lambda>ks. ks) (onePeer ''A'') (onePeer ''B'') ?s) = Inr ()"
    by (cases "cs = []") (simp_all add: ReconcileWireGuardPeers_def bind_def fromSum_def sampleNet_def ret_def modify_def wrapping_def deferring_def)
  then obtain t where t: "ReconcileWireGuardPeers sampleNet sampleKeys rev (\<lambda>ks. ks) (onePeer ''A'') (onePeer ''B'') ?s = (Inr (), t)"
    by (metis prod.collapse)
  have "t (wgInterface (onePeer ''A'')) = deviceOf sampleKeys (wgPeers (onePeer ''B''))"
    by (rule ReconcileWireGuardPeers_refines [OF docs _ _ v v refl t]) auto
  also have "\<dots> = [''B'' \<mapsto> {\<lparr>netIP = 336928495290378273096710020141405962242, netOnes = 128, netIs4 = False\<rparr>}]"
    by (simp add: onePeer_def sampleKeys_def netsOf_def onePeer_net)
  finally show ?thesis using t by blast
qed

end
