(* ===== verification/Firewall.thy ===== *)
theory Firewall
  imports Device
begin

text \<open>
  The packet filter of the host and two smaller settings, \<open>internal/host\<close>: \<open>firewall.go\<close>, \<open>ksm.go\<close>
  and \<open>dns.go\<close>.  The commands \<open>iptables\<close> and \<open>ip6tables\<close> are run by the parameter \<open>run\<close>, which returns
  the output, the error if any, and the new state.  \<open>Unwrap\<close> of a failed command is left out: the
  error is its text.

  Shown here: once the filter is set up, a new packet to a machine that enters \<open>INPUT\<close> or \<open>FORWARD\<close> is
  dropped unless it comes from the WireGuard interface, from a tap device or from the host itself, or
  a foreign rule in front of a jump that was there before decides on it first.
\<close>

section \<open>Commands\<close>

type_synonym 's runner = "string \<Rightarrow> string list \<Rightarrow> 's \<Rightarrow> (string \<times> err option) \<times> 's"

definition ip6tablesPath :: string where
  "ip6tablesPath = ''/usr/sbin/ip6tables''"

definition iptablesPath :: string where
  "iptablesPath = ''/usr/sbin/iptables''"

definition firewallChainName :: string where
  "firewallChainName = ''FIREDOZE-VM''"

definition tapInterfaceMatch :: string where
  "tapInterfaceMatch = ''fdtap+''"

definition commandError :: "string \<Rightarrow> string list \<Rightarrow> string \<Rightarrow> err \<Rightarrow> string" where
  "commandError name args output e =
     name @ '' '' @ join args '' '' @ '': '' @ errText e @
     (let trimmed = trimSpace output in if trimmed \<noteq> [] then '': '' @ trimmed else [])"

definition runTables :: "'s runner \<Rightarrow> string \<Rightarrow> string list \<Rightarrow> ('s, unit) prog" where
  "runTables run path args = (\<lambda>s. case run path args s of ((output, e), t) \<Rightarrow>
     (case e of None \<Rightarrow> (Inr (), t) | Some e \<Rightarrow> (Inl (Msg (commandError path args output e)), t)))"

definition isAlreadyExistsError :: "err \<Rightarrow> bool" where
  "isAlreadyExistsError e \<longleftrightarrow> contains (errText e) ''Chain already exists'' \<or> contains (errText e) ''File exists''"

section \<open>The filter\<close>

definition firewallIPv6Subnet :: "string \<Rightarrow> err + string" where
  "firewallIPv6Subnet raw = (case ParseCIDR raw of
      None \<Rightarrow> Inl (Msg ''vm_network.subnet must be CIDR'')
    | Some (p, n) \<Rightarrow> if To4 p \<noteq> None then Inl (Msg ''vm_network.subnet must be IPv6'') else Inr (netString n))"

definition firewallIPv4Subnet :: "string \<Rightarrow> err + string" where
  "firewallIPv4Subnet raw = (case ParseCIDR raw of
      None \<Rightarrow> Inl (Msg ''vm_network.ipv4_subnet must be CIDR'')
    | Some (p, n) \<Rightarrow> if To4 p = None then Inl (Msg ''vm_network.ipv4_subnet must be IPv4'') else Inr (netString n))"

definition ensureFirewallHook :: "(string list \<Rightarrow> ('s, unit) prog) \<Rightarrow> string \<Rightarrow> ('s, unit) prog" where
  "ensureFirewallHook tables chain = bind (attempt (tables [''-C'', chain, ''-j'', firewallChainName])) (\<lambda>r.
     case r of
       Inr _ \<Rightarrow> ret ()
     | Inl _ \<Rightarrow> wrapping ''install firewall hook'' (tables [''-I'', chain, ''1'', ''-j'', firewallChainName]))"

definition rules6 :: "string \<Rightarrow> string \<Rightarrow> string list list" where
  "rules6 wireGuardInterface vmSubnet = [
     [''-m'', ''conntrack'', ''--ctstate'', ''ESTABLISHED,RELATED'', ''-j'', ''ACCEPT''],
     [''-i'', wireGuardInterface, ''-d'', vmSubnet, ''-j'', ''ACCEPT''],
     [''-i'', tapInterfaceMatch, ''-d'', vmSubnet, ''-j'', ''ACCEPT''],
     [''-i'', tapInterfaceMatch, ''-s'', vmSubnet, ''-j'', ''ACCEPT''],
     [''-i'', ''lo'', ''-d'', vmSubnet, ''-j'', ''ACCEPT''],
     [''-d'', vmSubnet, ''-j'', ''DROP''],
     [''-j'', ''RETURN'']]"

definition rules4 :: "string \<Rightarrow> string list list" where
  "rules4 vmSubnet = [
     [''-m'', ''conntrack'', ''--ctstate'', ''ESTABLISHED,RELATED'', ''-j'', ''ACCEPT''],
     [''-i'', tapInterfaceMatch, ''-d'', vmSubnet, ''-j'', ''ACCEPT''],
     [''-i'', tapInterfaceMatch, ''-s'', vmSubnet, ''-j'', ''ACCEPT''],
     [''-i'', ''lo'', ''-d'', vmSubnet, ''-j'', ''ACCEPT''],
     [''-d'', vmSubnet, ''-j'', ''DROP''],
     [''-j'', ''RETURN'']]"

text \<open>What the two functions for IPv6 and IPv4 have in common: one chain with the given rules.\<close>

definition ensureChain :: "(string list \<Rightarrow> ('s, unit) prog) \<Rightarrow> string list list \<Rightarrow> ('s, unit) prog" where
  "ensureChain tables rules =
     bind (attempt (tables [''-N'', firewallChainName])) (\<lambda>r.
     bind (case r of
         Inl e \<Rightarrow> if isAlreadyExistsError e then ret () else throw (Wrap ''create firewall chain'' e)
       | Inr _ \<Rightarrow> ret ()) (\<lambda>_.
     bind (wrapping ''flush firewall chain'' (tables [''-F'', firewallChainName])) (\<lambda>_.
     bind (forEach rules (\<lambda>rule. wrapping ''append firewall rule'' (tables ([''-A'', firewallChainName] @ rule)))) (\<lambda>_.
     forEach [''INPUT'', ''FORWARD''] (ensureFirewallHook tables)))))"

definition ensureIPv6FirewallChain :: "'s runner \<Rightarrow> string \<Rightarrow> string \<Rightarrow> ('s, unit) prog" where
  "ensureIPv6FirewallChain run wireGuardInterface vmSubnet = ensureChain (runTables run ip6tablesPath) (rules6 wireGuardInterface vmSubnet)"

definition ensureIPv4FirewallChain :: "'s runner \<Rightarrow> string \<Rightarrow> ('s, unit) prog" where
  "ensureIPv4FirewallChain run vmSubnet = ensureChain (runTables run iptablesPath) (rules4 vmSubnet)"

definition ensureOutboundNAT :: "(string list \<Rightarrow> ('s, unit) prog) \<Rightarrow> string \<Rightarrow> ('s, unit) prog" where
  "ensureOutboundNAT tables vmSubnet =
     (let rule = [''POSTROUTING'', ''-s'', vmSubnet, ''!'', ''-d'', vmSubnet, ''-j'', ''MASQUERADE''] in
      bind (attempt (tables ([''-t'', ''nat'', ''-C''] @ rule))) (\<lambda>r.
      case r of
        Inr _ \<Rightarrow> ret ()
      | Inl _ \<Rightarrow> wrapping ''install outbound nat rule'' (tables ([''-t'', ''nat'', ''-A''] @ rule))))"

definition EnsureFirewall :: "'s runner \<Rightarrow> Config \<Rightarrow> ('s, unit) prog" where
  "EnsureFirewall run cfg =
     (if \<not> hfEnabled (cfgHostFirewall cfg) then ret ()
      else if hfBackend (cfgHostFirewall cfg) \<noteq> ''ip6tables'' then throw (Msg ''unsupported host_firewall.backend'')
      else
        bind (fromSum (firewallIPv6Subnet (netSubnet (cfgVMNetwork cfg)))) (\<lambda>vmSubnet.
        bind (fromSum (firewallIPv4Subnet (netIPv4Subnet (cfgVMNetwork cfg)))) (\<lambda>vmIPv4Subnet.
        if wgInterface (cfgWireGuard cfg) = [] then throw (Msg ''wireguard.interface is required'') else
        bind (ensureIPv6FirewallChain run (wgInterface (cfgWireGuard cfg)) vmSubnet) (\<lambda>_.
        bind (ensureIPv4FirewallChain run vmIPv4Subnet) (\<lambda>_.
        bind (ensureOutboundNAT (runTables run ip6tablesPath) vmSubnet) (\<lambda>_.
        ensureOutboundNAT (runTables run iptablesPath) vmIPv4Subnet))))))"

section \<open>Memory deduplication and the loopback address\<close>

definition ksmRootPath :: string where
  "ksmRootPath = ''/sys/kernel/mm/ksm''"

definition readKSMValue :: "string \<Rightarrow> ('z fsys_scheme, string) prog" where
  "readKSMValue name = bind (osReadFile (pathJoin [ksmRootPath, name])) (\<lambda>data. ret (trimSpace data))"

definition writeKSMValue :: "string \<Rightarrow> string \<Rightarrow> ('z fsys_scheme, unit) prog" where
  "writeKSMValue name value = osWriteFile (pathJoin [ksmRootPath, name]) (value @ [CHR 0x0A])"

definition writeKSMValueIfPresent :: "string \<Rightarrow> string \<Rightarrow> ('z fsys_scheme, unit) prog" where
  "writeKSMValueIfPresent name value = bind (attempt (writeKSMValue name value)) (\<lambda>r.
     case r of Inl e \<Rightarrow> if isNotExist e then ret () else throw e | Inr _ \<Rightarrow> ret ())"

definition EnsureKSM :: "('z fsys_scheme, unit) prog" where
  "EnsureKSM = bind (attempt (osStat ksmRootPath)) (\<lambda>r.
     case r of
       Inl e \<Rightarrow> if isNotExist e then ret () else throw (Wrap ''stat KSM sysfs'' e)
     | Inr _ \<Rightarrow>
         bind (wrapping ''read KSM run state'' (readKSMValue ''run'')) (\<lambda>r.
         bind (if r \<noteq> ''1'' then
             bind (writeKSMValueIfPresent ''pages_to_scan'' ''1000'') (\<lambda>_.
             bind (writeKSMValueIfPresent ''sleep_millisecs'' ''1000'') (\<lambda>_.
             wrapping ''enable KSM'' (writeKSMValue ''run'' ''1'')))
           else ret ()) (\<lambda>_.
         forEach [''run'', ''pages_to_scan'', ''sleep_millisecs'', ''pages_sharing''] (\<lambda>name. ignoring (readKSMValue name)))))"

definition loopbackCIDR :: "string \<Rightarrow> err + string" where
  "loopbackCIDR address = (case ParseIP address of
      None \<Rightarrow> Inl (Msg ''parse loopback address'')
    | Some p \<Rightarrow> Inr (address @ (if To4 p = None then ''/128'' else ''/32'')))"

definition EnsureLoopbackAddress :: "'s netlib \<Rightarrow> string \<Rightarrow> ('s, unit) prog" where
  "EnsureLoopbackAddress nl address =
     bind (wrapping ''find loopback'' (nlLinkByName nl ''lo'')) (\<lambda>link.
     if link = None then throw (Wrap ''find loopback'' (Msg ''Link not found'')) else
     bind (fromSum (loopbackCIDR address)) (\<lambda>cidr.
     bind (wrapping ''parse loopback address'' (fromSum (nlParseAddr nl cidr))) (\<lambda>_.
     wrapping ''assign loopback address'' (nlAddrReplace nl ''lo'' cidr))))"

section \<open>What the rules mean\<close>

text \<open>
  A packet in the \<open>filter\<close> table, and the meaning the manual of \<open>iptables\<close> gives to the options used
  above: an interface that ends in \<open>+\<close> stands for all that begin with the rest; a rule applies if all
  its options do; the first rule that applies decides.
\<close>

record packet =
  pkIn :: string
  pkSrc :: ip
  pkDst :: ip
  pkState :: string

definition ifaceMatches :: "string \<Rightarrow> string \<Rightarrow> bool" where
  "ifaceMatches pattern iface =
     (if pattern \<noteq> [] \<and> last pattern = CHR ''+'' then hasPrefix iface (butlast pattern) else iface = pattern)"

definition inCIDR :: "string \<Rightarrow> ip \<Rightarrow> bool" where
  "inCIDR cidr p = (case ParseCIDR cidr of None \<Rightarrow> False | Some (_, n) \<Rightarrow> netContains n p)"

fun applies :: "string list \<Rightarrow> packet \<Rightarrow> bool" where
  "applies (opt # arg # rest) p =
     (if opt = ''-i'' then ifaceMatches arg (pkIn p) \<and> applies rest p
      else if opt = ''-d'' then inCIDR arg (pkDst p) \<and> applies rest p
      else if opt = ''-s'' then inCIDR arg (pkSrc p) \<and> applies rest p
      else if opt = ''-m'' then applies rest p
      else if opt = ''--ctstate'' then pkState p \<in> set (split arg (CHR '','')) \<and> applies rest p
      else opt = ''-j'')"
| "applies _ p = False"

definition verdict :: "string list list \<Rightarrow> packet \<Rightarrow> string option" where
  "verdict rules p = map_option last (find (\<lambda>rule. applies rule p) rules)"

text \<open>The rule that sends a packet from a built-in chain to the chain of Firedoze.\<close>

definition jumpRule :: "string list" where
  "jumpRule = [''-j'', firewallChainName]"

text \<open>
  What happens to a packet in a built-in chain.  At the jump the chain of Firedoze decides, unless it
  returns; what any other rule decides, if anything, is the argument \<open>other\<close>, for these rules are not
  Firedoze's.  A packet on which no rule decides gets the policy of the chain.
\<close>

fun fate :: "(string list \<Rightarrow> packet \<Rightarrow> string option) \<Rightarrow> string list list \<Rightarrow> string list list \<Rightarrow> packet \<Rightarrow> string option" where
  "fate other chain [] p = None"
| "fate other chain (rule # rules) p =
     (case (if rule = jumpRule then verdict chain p else other rule p) of
        None \<Rightarrow> fate other chain rules p
      | Some v \<Rightarrow> if v = ''RETURN'' then fate other chain rules p else Some v)"

text \<open>
  What the commands are relied on for, by the path of the command and the chain of the \<open>filter\<close> table:
  a failed command changes nothing; \<open>-N\<close>, \<open>-F\<close>, \<open>-A\<close> and \<open>-I\<close> create, empty, extend at the end and
  extend at the front; \<open>-C\<close> tells whether a rule is there; commands on the table \<open>nat\<close> are elsewhere.
\<close>

definition filterDocs :: "'s runner \<Rightarrow> ('s \<Rightarrow> string \<Rightarrow> string \<Rightarrow> string list list) \<Rightarrow> bool" where
  "filterDocs run rulesOf \<longleftrightarrow> (\<forall>path args s out e t. run path args s = ((out, e), t) \<longrightarrow>
     (e \<noteq> None \<longrightarrow> rulesOf t = rulesOf s) \<and>
     (e = None \<longrightarrow>
        (\<forall>c. args = [''-N'', c] \<or> args = [''-F'', c] \<longrightarrow> rulesOf t = (rulesOf s)(path := (rulesOf s path)(c := []))) \<and>
        (\<forall>c rule. args = ''-A'' # c # rule \<longrightarrow>
           rulesOf t = (rulesOf s)(path := (rulesOf s path)(c := rulesOf s path c @ [rule]))) \<and>
        (\<forall>c rule. args = ''-I'' # c # ''1'' # rule \<longrightarrow>
           rulesOf t = (rulesOf s)(path := (rulesOf s path)(c := rule # rulesOf s path c))) \<and>
        (\<forall>c rule. args = ''-C'' # c # rule \<longrightarrow> rule \<in> set (rulesOf s path c) \<and> rulesOf t = rulesOf s) \<and>
        (\<forall>rest. args = ''-t'' # ''nat'' # rest \<longrightarrow> rulesOf t = rulesOf s)))"

section \<open>The chain after setting it up\<close>

lemma wp_runTables:
  assumes docs: "filterDocs run rulesOf"
    and fail: "\<And>e t. rulesOf t = rulesOf s \<Longrightarrow> E e t"
    and ok: "\<And>t. (\<forall>c. args = [''-N'', c] \<or> args = [''-F'', c] \<longrightarrow> rulesOf t = (rulesOf s)(path := (rulesOf s path)(c := []))) \<Longrightarrow>
        (\<forall>c rule. args = ''-A'' # c # rule \<longrightarrow>
           rulesOf t = (rulesOf s)(path := (rulesOf s path)(c := rulesOf s path c @ [rule]))) \<Longrightarrow>
        (\<forall>c rule. args = ''-I'' # c # ''1'' # rule \<longrightarrow>
           rulesOf t = (rulesOf s)(path := (rulesOf s path)(c := rule # rulesOf s path c))) \<Longrightarrow>
        (\<forall>c rule. args = ''-C'' # c # rule \<longrightarrow> rule \<in> set (rulesOf s path c) \<and> rulesOf t = rulesOf s) \<Longrightarrow>
        (\<forall>rest. args = ''-t'' # ''nat'' # rest \<longrightarrow> rulesOf t = rulesOf s) \<Longrightarrow> Q () t"
  shows "wp (runTables run path args) Q E s"
proof -
  obtain out e t where r: "run path args s = ((out, e), t)" by (metis prod.exhaust)
  note d = docs [unfolded filterDocs_def, rule_format, OF r]
  show ?thesis
  proof (cases e)
    case None
    have "Q () t" by (rule ok) (use d None in blast)+
    with r None show ?thesis by (simp add: wp_def runTables_def)
  next
    case (Some x)
    with r d fail show ?thesis by (simp add: wp_def runTables_def)
  qed
qed

lemma wp_appendRules:
  assumes "filterDocs run rulesOf"
  shows "wp (forEach rules (\<lambda>rule. wrapping m (runTables run path ([''-A'', c] @ rule))))
     (\<lambda>_ t. rulesOf t = (rulesOf s)(path := (rulesOf s path)(c := rulesOf s path c @ rules))) (\<lambda>_ _. True) s"
proof (induction rules arbitrary: s)
  case (Cons rule rules)
  show ?case
    unfolding forEach.simps wp_bind wp_wrapping
  proof (rule wp_runTables [OF assms])
    fix t assume "\<forall>c' rule'. [''-A'', c] @ rule = ''-A'' # c' # rule' \<longrightarrow>
      rulesOf t = (rulesOf s)(path := (rulesOf s path)(c' := rulesOf s path c' @ [rule']))"
    then have t: "rulesOf t = (rulesOf s)(path := (rulesOf s path)(c := rulesOf s path c @ [rule]))" by simp
    show "wp (forEach rules (\<lambda>rule. wrapping m (runTables run path ([''-A'', c] @ rule))))
      (\<lambda>_ t. rulesOf t = (rulesOf s)(path := (rulesOf s path)(c := rulesOf s path c @ rule # rules))) (\<lambda>_ _. True) t"
      by (rule wp_mono [OF Cons]) (simp_all add: t fun_eq_iff)
  qed simp
qed (simp add: wp_rules)

text \<open>A built-in chain after setting up: the jump was put in front, or it was there before.\<close>

definition hooked :: "string list list \<Rightarrow> string list list \<Rightarrow> bool" where
  "hooked old new \<longleftrightarrow> new = jumpRule # old \<or> jumpRule \<in> set old \<and> new = old"

lemma wp_hook:
  assumes "filterDocs run rulesOf"
  shows "wp (ensureFirewallHook (runTables run path) c)
     (\<lambda>_ t. \<exists>new. hooked (rulesOf s path c) new \<and> rulesOf t = (rulesOf s)(path := (rulesOf s path)(c := new))) (\<lambda>_ _. True) s"
proof -
  let ?Q = "\<lambda>_ :: unit. \<lambda>t. \<exists>new. hooked (rulesOf s path c) new \<and> rulesOf t = (rulesOf s)(path := (rulesOf s path)(c := new))"
  let ?m = "\<lambda>r :: err + unit. case r of
      Inl _ \<Rightarrow> wrapping ''install firewall hook'' (runTables run path [''-I'', c, ''1'', ''-j'', firewallChainName]) | Inr _ \<Rightarrow> ret ()"
  show ?thesis
    unfolding ensureFirewallHook_def wp_bind wp_attempt
  proof (rule wp_runTables [OF assms])
    fix e t assume t: "rulesOf t = rulesOf s"
    show "wp (?m (Inl e)) ?Q (\<lambda>_ _. True) t"
      unfolding sum.case wp_wrapping
      by (rule wp_runTables [OF assms]) (auto simp: t hooked_def jumpRule_def)
  next
    fix t assume "\<forall>c' rule. [''-C'', c, ''-j'', firewallChainName] = ''-C'' # c' # rule \<longrightarrow>
      rule \<in> set (rulesOf s path c') \<and> rulesOf t = rulesOf s"
    then have "hooked (rulesOf s path c) (rulesOf s path c)" "rulesOf t = (rulesOf s)(path := (rulesOf s path)(c := rulesOf s path c))"
      by (simp_all add: hooked_def jumpRule_def)
    then show "wp (?m (Inr ())) ?Q (\<lambda>_ _. True) t" unfolding sum.case wp_ret by blast
  qed
qed

definition guarded :: "('s \<Rightarrow> string \<Rightarrow> string \<Rightarrow> string list list) \<Rightarrow> 's \<Rightarrow> 's \<Rightarrow> string \<Rightarrow> string list list \<Rightarrow> bool" where
  "guarded rulesOf s t path rules \<longleftrightarrow> rulesOf t path firewallChainName = rules \<and>
     hooked (rulesOf s path ''INPUT'') (rulesOf t path ''INPUT'') \<and> hooked (rulesOf s path ''FORWARD'') (rulesOf t path ''FORWARD'')"

lemma fate_skips: "(\<And>rule. rule \<in> set pre \<Longrightarrow> rule \<noteq> jumpRule \<and> other rule k = None) \<Longrightarrow> fate other chain (pre @ rules) k = fate other chain rules k"
  by (induction pre) auto

lemma fate_hooked:
  assumes "hooked old new" and "verdict chain k = Some v" "v \<noteq> ''RETURN''"
    and "jumpRule \<in> set old \<Longrightarrow> \<forall>rule \<in> set (takeWhile (\<lambda>x. x \<noteq> jumpRule) old). other rule k = None"
  shows "fate other chain new k = Some v"
  using assms(1) unfolding hooked_def
proof
  assume there: "jumpRule \<in> set old \<and> new = old"
  then obtain post where "new = takeWhile (\<lambda>x. x \<noteq> jumpRule) old @ jumpRule # post"
    by (metis (mono_tags, lifting) dropWhile_eq_Cons_conv list.exhaust dropWhile_eq_Nil_conv takeWhile_dropWhile_id)
  moreover have "fate other chain (takeWhile (\<lambda>x. x \<noteq> jumpRule) old @ jumpRule # post) k = Some v"
    by (subst fate_skips) (use assms there in \<open>auto dest: set_takeWhileD\<close>)
  ultimately show ?thesis by simp
qed (use assms in simp)

lemma wp_ensureChain:
  assumes docs: "filterDocs run rulesOf"
  shows "wp (ensureChain (runTables run path) rules)
     (\<lambda>_ t. guarded rulesOf s t path rules \<and> (\<forall>q. q \<noteq> path \<longrightarrow> rulesOf t q = rulesOf s q)) (\<lambda>_ _. True) s"
proof -
  let ?F = firewallChainName
  let ?same = "\<lambda>t. \<forall>q. q \<noteq> path \<longrightarrow> rulesOf t q = rulesOf s q"
  have hooks: "wp (forEach [''INPUT'', ''FORWARD''] (ensureFirewallHook (runTables run path)))
      (\<lambda>_ t. guarded rulesOf s t path rules \<and> ?same t) (\<lambda>_ _. True) u"
    if "rulesOf u path ?F = rules" "?same u" "\<forall>c. c \<noteq> ?F \<longrightarrow> rulesOf u path c = rulesOf s path c" for u
    unfolding forEach.simps wp_bind wp_ret
    apply (rule wp_mono [OF wp_hook [OF docs]])
     apply (rule wp_mono [OF wp_hook [OF docs]])
    using that by (auto simp: guarded_def firewallChainName_def)
  have rest: "wp (bind (wrapping m (runTables run path [''-F'', ?F])) (\<lambda>_.
      bind (forEach rules (\<lambda>rule. wrapping n (runTables run path ([''-A'', ?F] @ rule)))) (\<lambda>_.
      forEach [''INPUT'', ''FORWARD''] (ensureFirewallHook (runTables run path)))))
      (\<lambda>_ t. guarded rulesOf s t path rules \<and> ?same t) (\<lambda>_ _. True) u" if "?same u" "\<forall>c. c \<noteq> ?F \<longrightarrow> rulesOf u path c = rulesOf s path c" for u m n
    unfolding wp_bind wp_wrapping
  proof (rule wp_runTables [OF docs])
    fix t assume "\<forall>c. [''-F'', ?F] = [''-N'', c] \<or> [''-F'', ?F] = [''-F'', c] \<longrightarrow> rulesOf t = (rulesOf u)(path := (rulesOf u path)(c := []))"
    then have t: "rulesOf t = (rulesOf u)(path := (rulesOf u path)(?F := []))" by simp
    show "wp (forEach rules (\<lambda>rule. wrapping n (runTables run path ([''-A'', ?F] @ rule))))
        (\<lambda>_. wp (forEach [''INPUT'', ''FORWARD''] (ensureFirewallHook (runTables run path)))
          (\<lambda>_ t. guarded rulesOf s t path rules \<and> ?same t) (\<lambda>_ _. True)) (\<lambda>_ _. True) t"
      by (rule wp_mono [OF wp_appendRules [OF docs]]; (rule hooks)?) (use that t in auto)
  qed simp
  show ?thesis
    unfolding ensureChain_def wp_bind [of "attempt _"] wp_attempt
    by (rule wp_runTables [OF docs], auto simp only: sum.case if_True if_False wp_bind [of "ret _"] wp_bind [of "throw _"]
        wp_ret wp_throw intro!: rest split: if_split) auto
qed

lemma wp_ensureOutboundNAT:
  assumes docs: "filterDocs run rulesOf"
  shows "wp (ensureOutboundNAT (runTables run path) subnet) (\<lambda>_ t. rulesOf t = rulesOf s) (\<lambda>_ _. True) s"
  unfolding ensureOutboundNAT_def Let_def wp_bind wp_attempt
  by (rule wp_runTables [OF docs]; simp only: sum.case wp_ret wp_wrapping; (rule wp_runTables [OF docs])?) auto

lemma bind_fromSum: "bind (fromSum (Inr x)) f = f x" "bind (fromSum (Inl e)) f = throw e"
  by (simp_all add: bind_def fromSum_def throw_def fun_eq_iff)

lemma EnsureFirewall_rules:
  assumes docs: "filterDocs run rulesOf" and on: "hfEnabled (cfgHostFirewall cfg)" and r: "EnsureFirewall run cfg s = (Inr (), t)"
  obtains p n q m where "ParseCIDR (netSubnet (cfgVMNetwork cfg)) = Some (p, n)" and "To4 p = None"
    and "ParseCIDR (netIPv4Subnet (cfgVMNetwork cfg)) = Some (q, m)" and "To4 q \<noteq> None"
    and "guarded rulesOf s t ip6tablesPath (rules6 (wgInterface (cfgWireGuard cfg)) (netString n))"
    and "guarded rulesOf s t iptablesPath (rules4 (netString m))"
proof -
  from r on obtain p n q m where c: "ParseCIDR (netSubnet (cfgVMNetwork cfg)) = Some (p, n)" "To4 p = None"
    "ParseCIDR (netIPv4Subnet (cfgVMNetwork cfg)) = Some (q, m)" "To4 q \<noteq> None"
    and r: "bind (ensureIPv6FirewallChain run (wgInterface (cfgWireGuard cfg)) (netString n)) (\<lambda>_.
        bind (ensureIPv4FirewallChain run (netString m)) (\<lambda>_.
        bind (ensureOutboundNAT (runTables run ip6tablesPath) (netString n)) (\<lambda>_.
        ensureOutboundNAT (runTables run iptablesPath) (netString m)))) s = (Inr (), t)"
    by (auto simp: EnsureFirewall_def firewallIPv6Subnet_def firewallIPv4Subnet_def bind_fromSum throw_def
        split: if_splits option.splits)
  let ?Q = "\<lambda>t. guarded rulesOf s t ip6tablesPath (rules6 (wgInterface (cfgWireGuard cfg)) (netString n)) \<and>
    guarded rulesOf s t iptablesPath (rules4 (netString m))"
  have step4: "wp (ensureChain (runTables run iptablesPath) (rules4 (netString m))) (\<lambda>_. ?Q) (\<lambda>_ _. True) u"
    if "guarded rulesOf s u ip6tablesPath (rules6 (wgInterface (cfgWireGuard cfg)) (netString n))" "rulesOf u iptablesPath = rulesOf s iptablesPath" for u
    by (rule wp_mono [OF wp_ensureChain [OF docs]])
      (use that in \<open>auto simp: guarded_def ip6tablesPath_def iptablesPath_def\<close>)
  have nat: "wp (ensureOutboundNAT (runTables run path) subnet) (\<lambda>_. ?Q) (\<lambda>_ _. True) u" if "?Q u" for path subnet u
    by (rule wp_mono [OF wp_ensureOutboundNAT [OF docs]]) (use that in \<open>auto simp: guarded_def\<close>)
  have "wp (bind (ensureIPv6FirewallChain run (wgInterface (cfgWireGuard cfg)) (netString n)) (\<lambda>_.
        bind (ensureIPv4FirewallChain run (netString m)) (\<lambda>_.
        bind (ensureOutboundNAT (runTables run ip6tablesPath) (netString n)) (\<lambda>_.
        ensureOutboundNAT (runTables run iptablesPath) (netString m))))) (\<lambda>_. ?Q) (\<lambda>_ _. True) s"
    unfolding ensureIPv6FirewallChain_def ensureIPv4FirewallChain_def
    by (rule wp_seq [OF wp_ensureChain [OF docs]], rule wp_seq [OF step4], blast,
        simp add: ip6tablesPath_def iptablesPath_def, rule wp_seq [OF nat], assumption, rule nat, assumption) simp_all
  from wpD_Inr [OF this r] c that show thesis by blast
qed

section \<open>Networks are read back as they are printed\<close>

lemma ParseCIDR_parts:
  assumes "ParseCIDR a = Some (p, n)"
  shows "netIP n = maskIP p (netOnes n) (netIs4 n) \<and> netOnes n \<le> netWidth (netIs4 n) \<and> (netIs4 n \<longrightarrow> (\<exists>v < 2 ^ 32. p = embed4 v))"
  using assms by (auto simp: ParseCIDR_def ParseIP_def Let_def dest!: parseIPv4_bound split: prod.splits option.splits if_splits)

lemma To4_mask4:
  assumes "ParseCIDR a = Some (p, n)" and "netIs4 n"
  shows "To4 (netIP n) \<noteq> None"
proof -
  obtain v where v: "v < 2 ^ 32" "p = embed4 v" and w: "netIP n = p div 2 ^ (32 - netOnes n) * 2 ^ (32 - netOnes n)"
    using ParseCIDR_parts [OF assms(1)] assms(2) by (auto simp: maskIP_def netWidth_def)
  have e: "(2 :: nat) ^ 32 = 2 ^ (32 - netOnes n) * 2 ^ (32 - (32 - netOnes n))" by (simp flip: power_add)
  have "netIP n div 2 ^ 32 = p div 2 ^ 32" unfolding w e div_mult2_eq by simp
  also have "\<dots> = 65535" using v by (intro div_nat_eqI) (auto simp: embed4_def)
  finally show ?thesis by (simp add: To4_def)
qed

lemma ipv4String_no_slash: "CHR ''/'' \<notin> set (ipv4String v)"
  using natDec_chars by (auto simp: ipv4String_def)

lemma ParseCIDR_netString:
  assumes a: "ParseCIDR a = Some (p, n)" and kind: "netIs4 n \<or> To4 p = None"
  shows "ParseCIDR (netString n) = Some (netIP n, n)"
proof -
  have four: "netIs4 n \<longleftrightarrow> To4 (netIP n) \<noteq> None" using To4_mask4 [OF a] To4_mask [OF a] kind by auto
  let ?t = "ipString (netIP n)"
  have ns: "netString n = ?t @ CHR ''/'' # natDec (netOnes n)" using four by (auto simp: netString_def)
  have slash: "CHR ''/'' \<notin> set ?t" using ipv4String_no_slash ipv6String_no_slash by (auto simp: ipString_def split: option.splits)
  have colon: "CHR '':'' \<in> set ?t \<longleftrightarrow> \<not> netIs4 n"
    using four ipv4String_no_colon ipv6String_colon by (auto simp: ipString_def split: option.splits)
  have "netIP n < ipBound" using ParseCIDR_bound [OF a] by simp
  then have ip: "ParseIP ?t = Some (netIP n)" by (rule ParseIP_String)
  have idem: "maskIP (netIP n) (netOnes n) (netIs4 n) = netIP n" using ParseCIDR_parts [OF a] by (simp add: maskIP_def)
  have bound: "\<not> netWidth (netIs4 n) < netOnes n" using ParseCIDR_parts [OF a] by simp
  show ?thesis
    unfolding ParseCIDR_def ns cut_append_sep [OF slash] using bound by (simp add: ip Let_def colon idem)
qed

lemma inCIDR_netString:
  "ParseCIDR a = Some (p, n) \<Longrightarrow> netIs4 n \<or> To4 p = None \<Longrightarrow> inCIDR (netString n) q = netContains n q"
  by (simp add: inCIDR_def ParseCIDR_netString)

lemma states_split: "split ''ESTABLISHED,RELATED'' (CHR '','') = [''ESTABLISHED'', ''RELATED'']"
  by (simp add: split_def)

lemma iface_known: "ifaceMatches ''fdtap+'' i = hasPrefix i ''fdtap''" "ifaceMatches ''lo'' i = (i = ''lo'')"
  by (auto simp: ifaceMatches_def)

text \<open>
  C19: Once the packet filter is set up without an error, no stranger reaches a machine.  A packet that
  enters \<open>INPUT\<close> or \<open>FORWARD\<close>, goes to an address of the machines' network and does not belong to a
  connection already accepted is dropped, unless it comes in from the WireGuard interface (IPv6 only),
  a tap device of a machine, or the loopback interface; an IPv6 packet from WireGuard is accepted.  The
  jump to the chain is the first rule, unless it was there before: then, since the code leaves it
  where it is, the claim is for packets on which no rule in front of it decides.  This holds for all
  earlier rules and all other chains, if the commands do what their manual says.
\<close>

theorem firewall_guards_machines:
  assumes "filterDocs run rulesOf" and "hfEnabled (cfgHostFirewall cfg)" and "EnsureFirewall run cfg s = (Inr (), t)"
    and "ParseCIDR (netSubnet (cfgVMNetwork cfg)) = Some (p6, n6)"
    and "ParseCIDR (netIPv4Subnet (cfgVMNetwork cfg)) = Some (p4, n4)" and "netIs4 n4"
    and "hook = ''INPUT'' \<or> hook = ''FORWARD''"
    and "path \<in> {ip6tablesPath, iptablesPath} \<Longrightarrow> jumpRule \<in> set (rulesOf s path hook) \<Longrightarrow>
       \<forall>rule \<in> set (takeWhile (\<lambda>x. x \<noteq> jumpRule) (rulesOf s path hook)). other rule k = None"
  shows "(pkState k \<notin> {''ESTABLISHED'', ''RELATED''} \<and> \<not> hasPrefix (pkIn k) ''fdtap'' \<and> pkIn k \<noteq> ''lo'' \<and>
       (path = ip6tablesPath \<and> netContains n6 (pkDst k) \<and> \<not> ifaceMatches (wgInterface (cfgWireGuard cfg)) (pkIn k) \<or>
        path = iptablesPath \<and> netContains n4 (pkDst k)) \<longrightarrow>
       fate other (rulesOf t path firewallChainName) (rulesOf t path hook) k = Some ''DROP'') \<and>
    (path = ip6tablesPath \<and> netContains n6 (pkDst k) \<and> ifaceMatches (wgInterface (cfgWireGuard cfg)) (pkIn k) \<longrightarrow>
       fate other (rulesOf t path firewallChainName) (rulesOf t path hook) k = Some ''ACCEPT'')"
proof -
  from EnsureFirewall_rules [OF assms(1-3)] assms(4,5) have v6: "To4 p6 = None"
    and g6: "guarded rulesOf s t ip6tablesPath (rules6 (wgInterface (cfgWireGuard cfg)) (netString n6))"
    and g4: "guarded rulesOf s t iptablesPath (rules4 (netString n4))"
    by (metis Pair_inject option.inject)+
  have m: "inCIDR (netString n6) q = netContains n6 q" "inCIDR (netString n4) q = netContains n4 q" for q
    using inCIDR_netString [OF assms(4)] inCIDR_netString [OF assms(5)] v6 assms(6) by blast+
  have in_hook: "fate other (rulesOf t path firewallChainName) (rulesOf t path hook) k = Some v"
    if "path \<in> {ip6tablesPath, iptablesPath}" "verdict (rulesOf t path firewallChainName) k = Some v" "v \<noteq> ''RETURN''" for v
  proof -
    have "hooked (rulesOf s path hook) (rulesOf t path hook)" using that(1) g6 g4 assms(7) by (auto simp: guarded_def)
    then show ?thesis by (rule fate_hooked [OF _ that(2,3)]) (use assms(8) that(1) in blast)
  qed
  have drop6: "verdict (rulesOf t ip6tablesPath firewallChainName) k = Some ''DROP''"
    if "pkState k \<notin> {''ESTABLISHED'', ''RELATED''}" "\<not> hasPrefix (pkIn k) ''fdtap''" "pkIn k \<noteq> ''lo''"
      "netContains n6 (pkDst k)" "\<not> ifaceMatches (wgInterface (cfgWireGuard cfg)) (pkIn k)"
    using that g6 by (simp add: guarded_def m rules6_def verdict_def states_split iface_known tapInterfaceMatch_def)
  have drop4: "verdict (rulesOf t iptablesPath firewallChainName) k = Some ''DROP''"
    if "pkState k \<notin> {''ESTABLISHED'', ''RELATED''}" "\<not> hasPrefix (pkIn k) ''fdtap''" "pkIn k \<noteq> ''lo''" "netContains n4 (pkDst k)"
    using that g4 by (simp add: guarded_def m rules4_def verdict_def states_split iface_known tapInterfaceMatch_def)
  have pass6: "verdict (rulesOf t ip6tablesPath firewallChainName) k = Some ''ACCEPT''"
    if "netContains n6 (pkDst k)" "ifaceMatches (wgInterface (cfgWireGuard cfg)) (pkIn k)"
    using that g6 by (simp add: guarded_def m rules6_def verdict_def states_split)
  show ?thesis using drop6 drop4 pass6 in_hook [of "''DROP''"] in_hook [of "''ACCEPT''"] by auto
qed

text \<open>A filter that does what the manual says, with a chain left over from an earlier run.\<close>

definition sampleTables :: "(string \<Rightarrow> string \<Rightarrow> string list list) runner" where
  "sampleTables path args s = (case args of
      opt # c # rule \<Rightarrow>
        if opt = ''-N'' then ((''Chain already exists.'', Some (Msg ''exit status 1'')), s)
        else if opt = ''-F'' then (([], None), s(path := (s path)(c := [])))
        else if opt = ''-A'' then (([], None), s(path := (s path)(c := s path c @ [rule])))
        else if opt = ''-I'' then (([], None), s(path := (s path)(c := tl rule # s path c)))
        else if opt = ''-C'' then (([], if rule \<in> set (s path c) then None else Some (Msg ''exit status 1'')), s)
        else (([], None), s)
    | _ \<Rightarrow> (([], Some (Msg ''exit status 2'')), s))"

lemma sampleTables_docs: "filterDocs sampleTables (\<lambda>s. s)"
  by (auto simp: filterDocs_def sampleTables_def split: list.splits if_splits)

lemma sampleTables_runs:
  "runTables sampleTables path (opt # c # rule) s =
     (if opt = ''-N'' then (Inl (Msg (commandError path (opt # c # rule) ''Chain already exists.'' (Msg ''exit status 1''))), s)
      else if opt = ''-C'' \<and> rule \<notin> set (s path c) then (Inl (Msg (commandError path (opt # c # rule) [] (Msg ''exit status 1''))), s)
      else (Inr (), snd (sampleTables path (opt # c # rule) s)))"
  by (simp add: runTables_def sampleTables_def)

lemma contains_suffix: "contains t w \<Longrightarrow> contains (u @ t) w"
  by (induction u) auto

lemma sample_exists: "isAlreadyExistsError (Msg (commandError path args ''Chain already exists.'' e))"
proof -
  have "trimSpace ''Chain already exists.'' = ''Chain already exists.''" by (simp add: trimSpace_def isSpace_def)
  moreover have "contains ''Chain already exists.'' ''Chain already exists''" by (simp add: hasPrefix_def)
  ultimately show ?thesis by (simp add: isAlreadyExistsError_def commandError_def contains_suffix)
qed

lemma tables_answer: "opt \<noteq> ''-N'' \<Longrightarrow> opt \<noteq> ''-C'' \<Longrightarrow> answers (runTables sampleTables path (opt # c # rule))"
  by (auto simp: answers_def wp_def sampleTables_runs)

lemma sample_setup: "answers (ensureChain (runTables sampleTables path) rules)"
  "answers (ensureOutboundNAT (runTables sampleTables path) subnet)"
proof -
  have new: "bind (attempt (runTables sampleTables path [''-N'', c])) f = f (Inl (Msg (commandError path [''-N'', c] ''Chain already exists.'' (Msg ''exit status 1''))))" for c f
    by (simp add: bind_def attempt_def sampleTables_runs fun_eq_iff)
  show "answers (ensureChain (runTables sampleTables path) rules)"
    unfolding ensureChain_def new sum.case eqTrueI [OF sample_exists] if_True
    by (intro answers_rules) (auto simp: ensureFirewallHook_def intro!: answers_rules tables_answer split: sum.splits)
  show "answers (ensureOutboundNAT (runTables sampleTables path) subnet)"
    unfolding ensureOutboundNAT_def Let_def
    by (auto intro!: answers_rules tables_answer split: sum.splits)
qed

lemma firewall_guards_machines_witness:
  "\<exists>t. EnsureFirewall sampleTables Default (\<lambda>_ _. []) = (Inr (), t) \<and>
     fate (\<lambda>_ _. None) (t ip6tablesPath firewallChainName) (t ip6tablesPath ''INPUT'')
       \<lparr>pkIn = ''eth0'', pkSrc = 1, pkDst = 336928495290377064170890405512231256067, pkState = ''NEW''\<rparr> = Some ''DROP''"
proof -
  let ?n6 = "\<lparr>netIP = 336928495290377064170890405512231256064, netOnes = 64, netIs4 = False\<rparr>"
  have nets: "ParseCIDR (netSubnet (cfgVMNetwork Default)) = Some (336928495290377064170890405512231256064, ?n6)"
    "ParseCIDR (netIPv4Subnet (cfgVMNetwork Default)) = Some (281470855282688, \<lparr>netIP = 281470855282688, netOnes = 16, netIs4 = True\<rparr>)"
    by (simp_all add: Default_def default_nets)
  have on: "hfEnabled (cfgHostFirewall Default)" "hfBackend (cfgHostFirewall Default) = ''ip6tables''"
    "wgInterface (cfgWireGuard Default) = ''fdwg0''" by (simp_all add: Default_def)
  have "answers (EnsureFirewall sampleTables Default)"
    unfolding EnsureFirewall_def firewallIPv6Subnet_def firewallIPv4Subnet_def nets ensureIPv6FirewallChain_def ensureIPv4FirewallChain_def
    by (auto simp: on To4_def bind_fromSum intro!: answers_rules sample_setup)
  then obtain t where t: "EnsureFirewall sampleTables Default (\<lambda>_ _. []) = (Inr (), t)"
    by (rule answersE [of _ "\<lambda>_ _. []"]) auto
  have "netContains ?n6 336928495290377064170890405512231256067" by (simp add: netContains_def To4_def maskIP_def netWidth_def)
  moreover have "\<not> ifaceMatches ''fdwg0'' ''eth0''" "\<not> hasPrefix ''eth0'' ''fdtap''" by (simp_all add: ifaceMatches_def hasPrefix_def)
  ultimately show ?thesis
    using firewall_guards_machines [OF sampleTables_docs on(1) t nets, of "''INPUT''" ip6tablesPath "\<lambda>_ _. None"
        "\<lparr>pkIn = ''eth0'', pkSrc = 1, pkDst = 336928495290377064170890405512231256067, pkState = ''NEW''\<rparr>"] t on(3) by auto
qed

end
