(* ===== verification/Dns.thy ===== *)
theory Dns
  imports Addresses
begin

text \<open>
  The name server for machines, \<open>internal/dns/server.go\<close>.  The packets belong to the package
  \<open>miekg/dns\<close>: a query is its list of questions, a reply made here is its code and its answers, and a
  reply of an upstream server is passed on as it is.  Asking an upstream server is the parameter
  \<open>exchange\<close>.  The listeners of \<open>Run\<close> are not modelled.

  Shown here: every address the server gives for a name is that of the machine with this name, and a
  machine with an IPv6 address is found under its name in any mixture of cases.
\<close>

record question =
  qName :: string
  qType :: nat

record aaaaRecord =
  rrName :: string
  rrTtl :: nat
  rrAddr :: ip

datatype 'm dnsResponse =
    Reply nat "aaaaRecord list"
  | Relayed 'm

definition typeAAAA :: nat where
  "typeAAAA = 28"

definition typeANY :: nat where
  "typeANY = 255"

text \<open>The response codes: success, format error, server failure, name error.\<close>

definition rcodeSuccess :: nat where
  "rcodeSuccess = 0"

definition rcodeFormatError :: nat where
  "rcodeFormatError = 1"

definition rcodeServerFailure :: nat where
  "rcodeServerFailure = 2"

definition rcodeNameError :: nat where
  "rcodeNameError = 3"

definition normalizeDomain :: "string \<Rightarrow> string" where
  "normalizeDomain domain =
     (let domain = trimSuffix (toLower (trimSpace domain)) ''.'' in
      (if domain = [] then ''firedoze'' else domain) @ ''.'')"

definition dnsVmName :: "string \<Rightarrow> string \<Rightarrow> string option" where
  "dnsVmName domain name =
     (if \<not> hasSuffix name (''.'' @ domain) then None
      else let label = trimSuffix name (''.'' @ domain) in
        if label = [] \<or> contains label ''.'' then None else Some label)"

definition answerVM :: "DNSConfig \<Rightarrow> question \<Rightarrow> string \<Rightarrow> ('z store_scheme, 'm dnsResponse) prog" where
  "answerVM cfg q label =
     (if qType q \<noteq> typeAAAA \<and> qType q \<noteq> typeANY then ret (Reply rcodeSuccess [])
      else bind (attempt (GetVMByName label)) (\<lambda>r.
        case r of
          Inl _ \<Rightarrow> ret (Reply rcodeNameError [])
        | Inr vm \<Rightarrow> (case ParseIP (vmPrivateIP vm) of
            None \<Rightarrow> ret (Reply rcodeNameError [])
          | Some p \<Rightarrow>
              if To4 p \<noteq> None then ret (Reply rcodeNameError [])
              else ret (Reply rcodeSuccess
                [\<lparr>rrName = qName q, rrTtl = nat (dnsTTLSeconds cfg mod 2 ^ 32), rrAddr = p\<rparr>]))))"

fun forward :: "(string \<Rightarrow> question list \<Rightarrow> ('s, 'm option) prog) \<Rightarrow> string list \<Rightarrow> question list \<Rightarrow> ('s, 'm dnsResponse) prog" where
  "forward exchange [] r = ret (Reply rcodeServerFailure [])"
| "forward exchange (upstream # rest) r = bind (attempt (exchange upstream r)) (\<lambda>resp.
     case resp of
       Inr (Some m) \<Rightarrow> ret (Relayed m)
     | _ \<Rightarrow> forward exchange rest r)"

definition dnsHandle :: "(string \<Rightarrow> question list \<Rightarrow> ('z store_scheme, 'm option) prog) \<Rightarrow> DNSConfig \<Rightarrow> question list \<Rightarrow>
    ('z store_scheme, 'm dnsResponse) prog" where
  "dnsHandle exchange cfg r = (case r of
      [] \<Rightarrow> ret (Reply rcodeFormatError [])
    | q # _ \<Rightarrow> (case dnsVmName (normalizeDomain (dnsDomain cfg)) (toLower (qName q)) of
        Some v \<Rightarrow> answerVM cfg q v
      | None \<Rightarrow> forward exchange (dnsUpstreamServers cfg) r))"

section \<open>Names\<close>

lemma contains_char: "contains s [c] \<longleftrightarrow> c \<in> set s"
  by (induction s) (auto simp: hasPrefix_def)

lemma dnsVmName_iff: "dnsVmName domain name = Some v \<longleftrightarrow> name = v @ ''.'' @ domain \<and> v \<noteq> [] \<and> CHR ''.'' \<notin> set v"
proof -
  have "trimSuffix (v @ ''.'' @ domain) (''.'' @ domain) = v" for v by (rule trimSuffix_append)
  then show ?thesis by (auto simp: dnsVmName_def Let_def hasSuffix_iff contains_char)
qed

lemma forward_relays: "wp (forward exchange us r) (\<lambda>x _. \<forall>c as. x = Reply c as \<longrightarrow> as = []) (\<lambda>_ _. False) s"
proof (induction us arbitrary: s)
  case (Cons u us)
  show ?case unfolding forward.simps wp_bind wp_attempt
    by (simp add: wp_def [of "exchange u r"] wp_ret Cons split: prod.splits sum.splits option.splits)
qed (simp add: wp_ret)

section \<open>Addresses\<close>

lemma find_in: "find P xs = Some x \<Longrightarrow> x \<in> set xs \<and> P x"
  by (auto simp: find_Some_iff)

lemma find_by_name: "distinct (map cName rows) \<Longrightarrow> r \<in> set rows \<Longrightarrow> find (\<lambda>x. cName x = cName r) rows = Some r"
  by (induction rows) auto

lemma wp_GetVMByName:
  assumes "\<And>rs r. r \<in> set (vmsT s) \<Longrightarrow> cName r = n \<Longrightarrow> Q (scanVM r) (s\<lparr>outcomes := rs\<rparr>)"
    and "\<And>e rs. E e (s\<lparr>outcomes := rs\<rparr>)"
  shows "wp (GetVMByName n) Q E s"
  unfolding GetVMByName_def wp_bind by (rule wp_query_frame) (auto simp: wp_rules dest!: find_in intro: assms split: option.splits)

lemma answerVM_truth:
  "wp (answerVM cfg q v) (\<lambda>x _. \<forall>c as. x = Reply c as \<longrightarrow> (\<forall>a \<in> set as. rrName a = qName q \<and>
     (\<exists>r \<in> set (vmsT s). cName r = v \<and> ParseIP (coalesce (cPrivateIP r)) = Some (rrAddr a) \<and> To4 (rrAddr a) = None)))
     (\<lambda>_ _. False) s"
proof (cases "qType q \<noteq> typeAAAA \<and> qType q \<noteq> typeANY")
  case False
  then show ?thesis unfolding answerVM_def if_not_P [OF False] wp_bind wp_attempt
    by (intro wp_GetVMByName)
      (auto simp: wp_rules scanVM_def split: option.splits)
qed (simp add: answerVM_def wp_rules)

text \<open>
  C24: The name server tells the truth about machines, whatever calls fail: each address it makes
  an answer of belongs to a machine in the tables whose name, followed by the domain, is the name that was
  asked for up to case; and it is an IPv6 address.  When no call fails, a machine with such an address
  and a name without dots is found: a query for its name, in whatever case, is answered with exactly its address.
\<close>

theorem dns_answers_are_machines:
  fixes exchange :: "string \<Rightarrow> question list \<Rightarrow> ('z store_scheme, 'm option) prog"
  assumes "dnsHandle exchange cfg (q # qs) s = (x, t)" and "wfStore s"
  shows "(\<forall>c as a. x = Inr (Reply c as) \<and> a \<in> set as \<longrightarrow> (\<exists>r \<in> set (vmsT s).
       toLower (rrName a) = cName r @ ''.'' @ normalizeDomain (dnsDomain cfg) \<and>
       ParseIP (coalesce (cPrivateIP r)) = Some (rrAddr a) \<and> To4 (rrAddr a) = None)) \<and>
    (\<forall>r p. fault_free s \<and> r \<in> set (vmsT s) \<and> cPrivateIP r = Some (ipString p) \<and> p < ipBound \<and> To4 p = None \<and>
       cName r \<noteq> [] \<and> CHR ''.'' \<notin> set (cName r) \<and> qType q = typeAAAA \<and>
       toLower (qName q) = cName r @ ''.'' @ normalizeDomain (dnsDomain cfg) \<longrightarrow>
       x = Inr (Reply rcodeSuccess [\<lparr>rrName = qName q, rrTtl = nat (dnsTTLSeconds cfg mod 2 ^ 32), rrAddr = p\<rparr>]) \<and> t = s)"
proof (intro conjI allI impI)
  fix c as a
  assume a: "x = Inr (Reply c as) \<and> a \<in> set as"
  let ?d = "normalizeDomain (dnsDomain cfg)"
  show "\<exists>r \<in> set (vmsT s). toLower (rrName a) = cName r @ ''.'' @ ?d \<and>
      ParseIP (coalesce (cPrivateIP r)) = Some (rrAddr a) \<and> To4 (rrAddr a) = None"
  proof (cases "dnsVmName ?d (toLower (qName q))")
    case None
    with forward_relays [of exchange "dnsUpstreamServers cfg" "q # qs" s] assms(1) a show ?thesis
      by (auto simp: dnsHandle_def wp_def)
  next
    case (Some v)
    with assms(1) a have "(answerVM cfg q v s :: (err + 'm dnsResponse) \<times> _) = (Inr (Reply c as), t)"
      by (simp add: dnsHandle_def)
    from wpD_Inr [OF answerVM_truth this] a Some show ?thesis by (fastforce simp: dnsVmName_iff)
  qed
next
  fix r p
  assume r: "fault_free s \<and> r \<in> set (vmsT s) \<and> cPrivateIP r = Some (ipString p) \<and> p < ipBound \<and> To4 p = None \<and>
    cName r \<noteq> [] \<and> CHR ''.'' \<notin> set (cName r) \<and> qType q = typeAAAA \<and>
    toLower (qName q) = cName r @ ''.'' @ normalizeDomain (dnsDomain cfg)"
  then have n: "dnsVmName (normalizeDomain (dnsDomain cfg)) (toLower (qName q)) = Some (cName r)"
    by (simp add: dnsVmName_iff)
  have f: "find (\<lambda>x. cName x = cName r) (vmsT s) = Some r"
    using assms(2) r by (simp add: wfStore_def find_by_name)
  have ip: "ParseIP (ipString p) = Some p" using r ParseIP_String by blast
  have "dnsHandle exchange cfg (q # qs) s =
      (Inr (Reply rcodeSuccess [\<lparr>rrName = qName q, rrTtl = nat (dnsTTLSeconds cfg mod 2 ^ 32), rrAddr = p\<rparr>]), s)"
    unfolding dnsHandle_def list.case n option.case
    by (rule wp_eqI) (use r in \<open>simp add: answerVM_def coalesce_def GetVMByName_def query_def wp_rules ff_rules f scanVM_def ip typeAAAA_def typeANY_def\<close>)
  with assms(1) show "x = Inr (Reply rcodeSuccess [\<lparr>rrName = qName q, rrTtl = nat (dnsTTLSeconds cfg mod 2 ^ 32), rrAddr = p\<rparr>])" "t = s"
    by simp_all
qed

definition namedStore :: store where
  "namedStore = emptyStore\<lparr>vmsT := [vmRowOf [] ''u1'' (sampleParams\<lparr>cpPrivateIP := ipString 336928495290377064170890405512231256067\<rparr>)]\<rparr>"

lemma dns_answers_are_machines_witness:
  "\<exists>t ttl. dnsHandle (\<lambda>_ _. ret (Some ())) (cfgDNS Default) [\<lparr>qName = ''Dev.Firedoze.'', qType = typeAAAA\<rparr>] namedStore =
     (Inr (Reply rcodeSuccess [\<lparr>rrName = ''Dev.Firedoze.'', rrTtl = ttl, rrAddr = 336928495290377064170890405512231256067\<rparr>]), t)"
proof -
  let ?p = "336928495290377064170890405512231256067 :: nat"
  let ?r = "vmRowOf [] ''u1'' (sampleParams\<lparr>cpPrivateIP := ipString ?p\<rparr>)"
  have n: "toLower ''Dev.Firedoze.'' = ''dev.firedoze.'' \<and> normalizeDomain ''firedoze'' = ''firedoze.''" by code_simp
  have w: "wfStore namedStore" "fault_free namedStore" "?r \<in> set (vmsT namedStore)"
    by (simp_all add: wfStore_def namedStore_def emptyStore_def)
  have "ipString ?p \<noteq> []" using ParseIP_String [of ?p] by (auto simp: ipBound_def ParseIP_def parseIPv4_def split_def)
  then have r: "cPrivateIP ?r = Some (ipString ?p)" "cName ?r = ''dev''" by (simp_all add: vmRowOf_def sampleParams_def)
  have d: "dnsDomain (cfgDNS Default) = ''firedoze''" by (simp add: Default_def)
  let ?run = "dnsHandle (\<lambda>_ _. ret (Some ())) (cfgDNS Default) [\<lparr>qName = ''Dev.Firedoze.'', qType = typeAAAA\<rparr>] namedStore"
  have "fst ?run = Inr (Reply rcodeSuccess [\<lparr>rrName = qName \<lparr>qName = ''Dev.Firedoze.'', qType = typeAAAA\<rparr>,
      rrTtl = nat (dnsTTLSeconds (cfgDNS Default) mod 2 ^ 32), rrAddr = ?p\<rparr>]) \<and> snd ?run = namedStore"
    by (rule dns_answers_are_machines [OF prod.collapse [symmetric] w(1), THEN conjunct2, rule_format, of ?r ?p])
      (use w r n d in \<open>simp add: ipBound_def To4_def\<close>)
  then show ?thesis by (intro exI) (auto intro: prod_eqI)
qed

end
