(* ===== verification/Json_Parse.thy ===== *)
theory Json_Parse
  imports Json Net_IP
begin

text \<open>
  Reading JSON text the way \<open>encoding/json\<close> does.  The scanner gives a tree whose leaves and keys
  are the literals as they are spelled, since \<open>json.RawMessage\<close>, \<open>json.Compact\<close> and \<open>json.Indent\<close> keep
  the spelling; \<open>unquote\<close> then decodes a string literal.  The recursion over nested values has fuel;
  twice the length of the text is enough (\<open>pValue_enough_fuel\<close>).

  Shown here: the compact and the indented text of a tree are read back as that tree, whatever
  follows, and the text of a string is decoded to the string.
\<close>

section \<open>Scanner\<close>

definition jsonSpace :: "char \<Rightarrow> bool" where
  "jsonSpace c \<longleftrightarrow> c = CHR '' '' \<or> c = CHR 0x09 \<or> c = CHR 0x0A \<or> c = CHR 0x0D"

definition skipWS :: "string \<Rightarrow> string" where
  "skipWS = dropWhile jsonSpace"

definition prepend :: "'a list \<Rightarrow> ('a list \<times> 'b) option \<Rightarrow> ('a list \<times> 'b) option" where
  "prepend p = map_option (map_prod (append p) id)"

definition escapable :: "char \<Rightarrow> bool" where
  "escapable c \<longleftrightarrow> c = CHR 0x22 \<or> c = CHR 0x5C \<or> c \<in> set ''/bfnrt''"

text \<open>The rest of a string literal after its opening quote, with the closing one.\<close>

fun scanString :: "string \<Rightarrow> (string \<times> string) option" where
  "scanString [] = None"
| "scanString (c # r) =
     (if c = CHR 0x22 then Some ([c], r)
      else if c = CHR 0x5C then
        (case r of [] \<Rightarrow> None | e # r1 \<Rightarrow>
           if escapable e then prepend [c, e] (scanString r1)
           else if e = CHR ''u'' \<and> length (take 4 r1) = 4 \<and> list_all (\<lambda>d. hexVal d \<noteq> None) (take 4 r1)
             then prepend (c # e # take 4 r1) (scanString (drop 4 r1))
           else None)
      else if (of_char c :: nat) < 32 then None
      else prepend [c] (scanString r))"

definition isDigit :: "char \<Rightarrow> bool" where
  "isDigit c \<longleftrightarrow> digitVal c \<noteq> None"

text \<open>An optional part of a number literal: a point, or an exponent mark and a sign, and then digits.\<close>

definition digitsAfter :: "string \<Rightarrow> string \<Rightarrow> (string \<times> string) option" where
  "digitsAfter p r = (if takeWhile isDigit r = [] then None else Some (p @ takeWhile isDigit r, dropWhile isDigit r))"

definition fraction :: "string \<Rightarrow> (string \<times> string) option" where
  "fraction s = (case s of [] \<Rightarrow> Some ([], s) | c # r \<Rightarrow> if c = CHR ''.'' then digitsAfter [c] r else Some ([], s))"

definition exponent :: "string \<Rightarrow> (string \<times> string) option" where
  "exponent s = (case s of [] \<Rightarrow> Some ([], s) | c # r \<Rightarrow>
     if c = CHR ''e'' \<or> c = CHR ''E'' then
       (case r of [] \<Rightarrow> None | g # r' \<Rightarrow> if g = CHR ''+'' \<or> g = CHR ''-'' then digitsAfter [c, g] r' else digitsAfter [c] r)
     else Some ([], s))"

definition unsigned :: "string \<Rightarrow> (string \<times> string) option" where
  "unsigned s = (let ds = takeWhile isDigit s in
     if ds = [] \<or> (hd ds = CHR ''0'' \<and> length ds > 1) then None else
     (case fraction (dropWhile isDigit s) of None \<Rightarrow> None | Some (fr, r1) \<Rightarrow> prepend (ds @ fr) (exponent r1)))"

definition scanNumber :: "string \<Rightarrow> (string \<times> string) option" where
  "scanNumber s = (case s of [] \<Rightarrow> None | c # r \<Rightarrow> if c = CHR ''-'' then prepend [c] (unsigned r) else unsigned s)"

definition fixedWord :: "string \<Rightarrow> string \<Rightarrow> (string \<times> string) option" where
  "fixedWord w s = (if take (length w) s = w then Some (w, drop (length w) s) else None)"

text \<open>A value that is not an object and not an array.\<close>

definition scanLiteral :: "string \<Rightarrow> (string \<times> string) option" where
  "scanLiteral s = (case s of [] \<Rightarrow> None | c # r \<Rightarrow>
     if c = CHR 0x22 then prepend [c] (scanString r)
     else if c = CHR ''t'' then fixedWord ''true'' s
     else if c = CHR ''f'' then fixedWord ''false'' s
     else if c = CHR ''n'' then fixedWord ''null'' s
     else scanNumber s)"

section \<open>Trees\<close>

datatype raw = RLit string | RArr "raw list" | RObj "(string \<times> raw) list"

text \<open>The text after a token of one character, if it comes next.\<close>

definition after :: "char \<Rightarrow> string \<Rightarrow> string option" where
  "after c s = (case skipWS s of [] \<Rightarrow> None | x # r \<Rightarrow> if x = c then Some r else None)"

fun pValue :: "nat \<Rightarrow> string \<Rightarrow> (raw \<times> string) option"
  and pElems :: "nat \<Rightarrow> string \<Rightarrow> (raw list \<times> string) option"
  and pMembers :: "nat \<Rightarrow> string \<Rightarrow> ((string \<times> raw) list \<times> string) option" where
  "pValue 0 s = None"
| "pValue (Suc n) s =
     (case after (CHR ''{'') s of
        Some r \<Rightarrow> (case after (CHR ''}'') r of Some r' \<Rightarrow> Some (RObj [], r')
           | None \<Rightarrow> map_option (map_prod RObj id) (pMembers n r))
      | None \<Rightarrow>
     (case after (CHR ''['') s of
        Some r \<Rightarrow> (case after (CHR '']'') r of Some r' \<Rightarrow> Some (RArr [], r')
           | None \<Rightarrow> map_option (map_prod RArr id) (pElems n r))
      | None \<Rightarrow> map_option (map_prod RLit id) (scanLiteral (skipWS s))))"
| "pElems 0 s = None"
| "pElems (Suc n) s = (case pValue n s of None \<Rightarrow> None | Some (v, r) \<Rightarrow>
     (case after (CHR '','') r of Some r' \<Rightarrow> prepend [v] (pElems n r')
      | None \<Rightarrow> map_option (Pair [v]) (after (CHR '']'') r)))"
| "pMembers 0 s = None"
| "pMembers (Suc n) s =
     (case Option.bind (after (CHR 0x22) s) scanString of None \<Rightarrow> None | Some (k, r1) \<Rightarrow>
     (case Option.bind (after (CHR '':'') r1) (pValue n) of None \<Rightarrow> None | Some (v, r) \<Rightarrow>
     (case after (CHR '','') r of Some r' \<Rightarrow> prepend [(CHR 0x22 # k, v)] (pMembers n r')
      | None \<Rightarrow> map_option (Pair [(CHR 0x22 # k, v)]) (after (CHR ''}'') r))))"

definition readValue :: "string \<Rightarrow> (raw \<times> string) option" where
  "readValue s = pValue (2 * length s + 1) s"

definition parseRaw :: "string \<Rightarrow> raw option" where
  "parseRaw s = (case readValue s of None \<Rightarrow> None | Some (v, r) \<Rightarrow> if skipWS r = [] then Some v else None)"

definition validJSON :: "string \<Rightarrow> bool" where
  "validJSON s \<longleftrightarrow> parseRaw s \<noteq> None"

text \<open>\<open>json.Compact\<close> and \<open>json.Indent\<close> with two spaces: the text of a tree at a nesting depth, with a
  line break for each depth and a separator after a key.\<close>

fun layoutRaw :: "(nat \<Rightarrow> string) \<Rightarrow> string \<Rightarrow> nat \<Rightarrow> raw \<Rightarrow> string" where
  "layoutRaw br sep d (RLit t) = t"
| "layoutRaw br sep d (RArr vs) = (if vs = [] then ''[]'' else ''['' @ br (Suc d) @
     join (map (layoutRaw br sep (Suc d)) vs) ('','' @ br (Suc d)) @ br d @ '']'')"
| "layoutRaw br sep d (RObj kvs) = (if kvs = [] then ''{}'' else ''{'' @ br (Suc d) @
     join (map (\<lambda>(k, v). k @ '':'' @ sep @ layoutRaw br sep (Suc d) v) kvs) ('','' @ br (Suc d)) @ br d @ ''}'')"

definition compactRaw :: "raw \<Rightarrow> string" where
  "compactRaw = layoutRaw (\<lambda>_. []) [] 0"

definition indentRaw :: "nat \<Rightarrow> raw \<Rightarrow> string" where
  "indentRaw = layoutRaw newline '' ''"

text \<open>The escapes that \<open>json.Marshal\<close> puts into the text of a \<open>json.Marshaler\<close>; the escaped characters
  can only be in string literals.\<close>

definition escapeHTML :: "string \<Rightarrow> string" where
  "escapeHTML t = concat (map (\<lambda>c. if c \<in> set ''<>&'' then escapeChar c else [c]) t)"

definition escapeLit :: "string \<Rightarrow> string" where
  "escapeLit t = (if take 1 t = [CHR 0x22] then escapeHTML t else t)"

fun mapLiterals :: "(string \<Rightarrow> string) \<Rightarrow> raw \<Rightarrow> raw" where
  "mapLiterals f (RLit t) = RLit (f t)"
| "mapLiterals f (RArr vs) = RArr (map (mapLiterals f) vs)"
| "mapLiterals f (RObj kvs) = RObj (map (\<lambda>(k, v). (f k, mapLiterals f v)) kvs)"

section \<open>String literals\<close>

text \<open>\<open>utf8.AppendRune\<close> for a scalar value.\<close>

definition utf8 :: "nat \<Rightarrow> string" where
  "utf8 n = map char_of
     (if n < 128 then [n] else if n < 2048 then [192 + n div 64, 128 + n mod 64]
      else if n < 65536 then [224 + n div 4096, 128 + n div 64 mod 64, 128 + n mod 64]
      else [240 + n div 262144, 128 + n div 4096 mod 64, 128 + n div 64 mod 64, 128 + n mod 64])"

definition unescape :: "char \<Rightarrow> char" where
  "unescape c =
     (if c = CHR ''b'' then CHR 0x08 else if c = CHR ''f'' then CHR 0x0C else if c = CHR ''n'' then CHR 0x0A
      else if c = CHR ''r'' then CHR 0x0D else if c = CHR ''t'' then CHR 0x09 else c)"

text \<open>The low half of a surrogate pair at the start of a text.\<close>

definition lowSurrogate :: "string \<Rightarrow> nat option" where
  "lowSurrogate s = (if take 2 s = [CHR 0x5C, CHR ''u''] then
     (case hexNat 0 (take 4 (drop 2 s)) of None \<Rightarrow> None | Some m \<Rightarrow> if 56320 \<le> m \<and> m < 57344 then Some m else None)
     else None)"

text \<open>The text after the opening quote of a literal that the scanner accepted; a surrogate that is
  not part of a pair becomes the replacement character.\<close>

fun decodeBody :: "string \<Rightarrow> string" where
  "decodeBody [] = []"
| "decodeBody (c # r) =
     (if c = CHR 0x22 then []
      else if c = CHR 0x5C then
        (case r of [] \<Rightarrow> [] | e # r1 \<Rightarrow>
           if e = CHR ''u'' then
             (let n = (case hexNat 0 (take 4 r1) of None \<Rightarrow> 0 | Some n \<Rightarrow> n); r2 = drop 4 r1 in
              if n < 55296 \<or> 57344 \<le> n then utf8 n @ decodeBody r2
              else (case (if n < 56320 then lowSurrogate r2 else None) of
                  None \<Rightarrow> utf8 65533 @ decodeBody r2
                | Some m \<Rightarrow> utf8 (65536 + (n - 55296) * 1024 + (m - 56320)) @ decodeBody (drop 6 r2)))
           else unescape e # decodeBody r1)
      else c # decodeBody r)"

definition unquote :: "string \<Rightarrow> string" where
  "unquote t = decodeBody (drop 1 t)"

section \<open>Fuel\<close>

lemma prepend_Some [simp]: "prepend p m = Some (x, y) \<longleftrightarrow> (\<exists>z. m = Some (z, y) \<and> x = p @ z)"
  unfolding prepend_def by (cases m) auto

lemma after_shorter: "after c s = Some r \<Longrightarrow> length r < length s"
proof -
  have "length (skipWS s) \<le> length s" by (simp add: skipWS_def length_dropWhile_le)
  then show "after c s = Some r \<Longrightarrow> length r < length s" by (auto simp: after_def split: list.splits if_splits)
qed

lemma scanString_split: "scanString s = Some (x, y) \<Longrightarrow> s = x @ y \<and> x \<noteq> [] \<and> (\<forall>t. scanString (x @ t) = Some (x, t))"
proof (induction s arbitrary: x y rule: scanString.induct)
  case (2 c r)
  show ?case
  proof (cases "c = CHR 0x22 \<or> c \<noteq> CHR 0x5C")
    case True
    then show ?thesis using 2 by (fastforce split: if_splits)
  next
    case False
    then obtain e r1 where r: "r = e # r1" using 2(4) by (cases r) auto
    consider "escapable e" | "\<not> escapable e" by blast
    then show ?thesis
    proof cases
      case 1
      then show ?thesis using 2(1) [OF _ _ r] 2(4) r False by fastforce
    next
      case 2
      then show ?thesis using "2.IH"(2) [OF _ _ r] "2.prems" r False
        by (auto split: if_splits simp: min_def) (metis append_take_drop_id)+
    qed
  qed
qed simp

text \<open>What may come after a number literal.\<close>

definition stops :: "string \<Rightarrow> bool" where
  "stops r \<longleftrightarrow> (case r of [] \<Rightarrow> True | c # _ \<Rightarrow> \<not> isDigit c \<and> c \<notin> set ''.eE'')"

lemma stops_while:
  assumes "stops r"
  shows "takeWhile isDigit (s @ r) = takeWhile isDigit s" "dropWhile isDigit (s @ r) = dropWhile isDigit s @ r"
  using assms by (induction s) (auto simp: stops_def split: list.splits)

lemma digitsAfter_ext: "digitsAfter p s = Some (x, y) \<Longrightarrow> stops r \<Longrightarrow> digitsAfter p (s @ r) = Some (x, y @ r) \<and> x @ y = p @ s"
  by (auto simp: digitsAfter_def stops_while split: if_splits)

lemma fraction_ext: "fraction s = Some (x, y) \<Longrightarrow> stops r \<Longrightarrow> fraction (s @ r) = Some (x, y @ r) \<and> x @ y = s"
  using digitsAfter_ext [of "''.''"]
  by (cases s) (auto simp: fraction_def stops_def split: if_splits list.splits)

lemma exponent_ext: "exponent s = Some (x, y) \<Longrightarrow> stops r \<Longrightarrow> exponent (s @ r) = Some (x, y @ r) \<and> x @ y = s"
proof (cases s)
  case (Cons c s')
  assume e: "exponent s = Some (x, y)" and r: "stops r"
  show ?thesis
  proof (cases s')
    case Nil
    then show ?thesis using e r Cons by (auto simp: exponent_def split: if_splits)
  next
    case (Cons g s'')
    then show ?thesis using e r \<open>s = c # s'\<close> digitsAfter_ext [OF _ r, of "[c, g]" s''] digitsAfter_ext [OF _ r, of "[c]" s']
      by (auto simp: exponent_def split: if_splits)
  qed
qed (auto simp: exponent_def stops_def split: list.splits)

lemma unsigned_ext:
  assumes "unsigned s = Some (x, y)" and "stops r"
  shows "unsigned (s @ r) = Some (x, y @ r) \<and> x @ y = s"
proof -
  let ?ds = "takeWhile isDigit s"
  obtain fr r1 ex where ds: "\<not> (?ds = [] \<or> (hd ?ds = CHR ''0'' \<and> length ?ds > 1))"
    and fr: "fraction (dropWhile isDigit s) = Some (fr, r1)" and ex: "exponent r1 = Some (ex, y)" and x: "x = ?ds @ fr @ ex"
    using assms(1) by (auto simp: unsigned_def Let_def split: if_splits option.splits)
  show ?thesis
    using ds fraction_ext [OF fr assms(2)] exponent_ext [OF ex assms(2)] x
    by (auto simp: unsigned_def Let_def stops_while [OF assms(2)])
qed

lemma unsigned_starts: "unsigned s = Some (x, y) \<Longrightarrow> s \<noteq> [] \<and> isDigit (hd s)"
  by (cases s) (auto simp: unsigned_def Let_def split: if_splits)

lemma scanNumber_ext:
  assumes "scanNumber s = Some (x, y)" and "stops r"
  shows "scanNumber (s @ r) = Some (x, y @ r) \<and> x @ y = s"
  using assms unsigned_ext [OF _ assms(2)] by (cases s) (fastforce simp: scanNumber_def split: if_splits)+

lemma scanLiteral_ext:
  assumes "scanLiteral t = Some (t, [])" and "stops r"
  shows "scanLiteral (t @ r) = Some (t, r)"
proof (cases t)
  case (Cons c t')
  show ?thesis
  proof (cases "c = CHR 0x22")
    case True
    then show ?thesis using assms(1) Cons scanString_split [of t' t' "[]"] by (auto simp: scanLiteral_def)
  next
    case False
    then show ?thesis using assms Cons scanNumber_ext [OF _ assms(2), of t t "[]"]
      by (auto simp: scanLiteral_def fixedWord_def split: if_splits)
  qed
qed (use assms in \<open>simp add: scanLiteral_def\<close>)

text \<open>A character that starts a value and is not white space or punctuation.\<close>

definition leads :: "char \<Rightarrow> bool" where
  "leads c \<longleftrightarrow> \<not> jsonSpace c \<and> c \<notin> set ''{[,]}:''"

lemma leads_digit: "isDigit c \<Longrightarrow> leads c"
proof (rule ccontr)
  assume "isDigit c" and "\<not> leads c"
  then show False by (elim disjE notE) (auto simp: leads_def jsonSpace_def isDigit_def digitVal_def)
qed

lemma leads_marks: "leads (CHR 0x22)" "leads (CHR ''t'')" "leads (CHR ''f'')" "leads (CHR ''n'')" "leads (CHR ''-'')"
  by (simp_all add: leads_def jsonSpace_def)

lemma scanLiteral_starts:
  assumes "scanLiteral t = Some (x, y)"
  shows "t \<noteq> [] \<and> leads (hd t)"
proof -
  obtain c t' where t: "t = c # t'" using assms by (cases t) (auto simp: scanLiteral_def)
  have "leads c"
  proof (rule ccontr)
    assume n: "\<not> leads c"
    then have "scanLiteral t = unsigned t" using leads_marks by (auto simp: scanLiteral_def scanNumber_def t)
    then show False using unsigned_starts [of t x y] assms n t leads_digit by simp
  qed
  then show ?thesis using t by simp
qed

lemma scanNumber_shorter: "scanNumber s = Some (x, y) \<Longrightarrow> length y < length s"
proof -
  have u: "length y < length s" if "unsigned s = Some (x, y)" for s x
  proof -
    have "x \<noteq> []" using that by (auto simp: unsigned_def Let_def split: if_splits option.splits)
    then show ?thesis using unsigned_ext [OF that, of "[]"] by (auto simp: stops_def)
  qed
  assume "scanNumber s = Some (x, y)"
  then show ?thesis using u by (cases s) (fastforce simp: scanNumber_def split: if_splits)+
qed

lemma scanLiteral_shorter: "scanLiteral s = Some (x, y) \<Longrightarrow> length y < length s"
proof (cases s)
  case (Cons c r)
  assume s: "scanLiteral s = Some (x, y)"
  have "fixedWord w s = Some (x, y) \<Longrightarrow> w \<noteq> [] \<Longrightarrow> length y < length s" for w
    using Cons by (auto simp: fixedWord_def split: if_splits)
  moreover have "prepend [c] (scanString r) = Some (x, y) \<Longrightarrow> length y < length s"
    using Cons scanString_split [of r] by fastforce
  ultimately show ?thesis using s Cons scanNumber_shorter [of s x y]
    by (auto simp: scanLiteral_def split: if_splits)
qed (simp add: scanLiteral_def)

lemma skipWS_le: "length (skipWS s) \<le> length s"
  by (simp add: skipWS_def length_dropWhile_le)

lemma scanString_shorter: "scanString s = Some (x, y) \<Longrightarrow> length y < length s"
  using scanString_split by fastforce

lemma parse_shorter:
  shows pValue_shorter: "pValue n s = Some (v, r) \<Longrightarrow> length r < length s"
    and pElems_shorter: "pElems n s = Some (vs, r) \<Longrightarrow> length r < length s"
    and pMembers_shorter: "pMembers n s = Some (kvs, r) \<Longrightarrow> length r < length s"
proof (induction n s and n s and n s arbitrary: v r and vs r and kvs r rule: pValue_pElems_pMembers.induct)
  case (2 n s)
  show ?case
  proof (cases "after (CHR ''{'') s")
    case None
    show ?thesis
    proof (cases "after (CHR ''['') s")
      case (Some a)
      then show ?thesis using 2 None after_shorter [OF Some]
        by (fastforce dest: after_shorter split: option.splits)
    qed (use 2(3) None in \<open>auto dest!: scanLiteral_shorter intro: less_le_trans [OF _ skipWS_le]\<close>)
  next
    case (Some a)
    then show ?thesis using 2(2,3) after_shorter [OF Some] by (fastforce dest: after_shorter split: option.splits)
  qed
next
  case (4 n s)
  then show ?case by (fastforce dest: after_shorter split: option.splits)
next
  case (6 n s)
  then show ?case by (fastforce dest!: after_shorter scanString_shorter split: option.splits bind_splits)
qed auto

text \<open>With this fuel the result no longer depends on it.\<close>

lemma parse_fuel:
  "(2 * length s < n \<longrightarrow> 2 * length s < m \<longrightarrow> pValue n s = pValue m s) \<and>
   (2 * length s + 1 < n \<longrightarrow> 2 * length s + 1 < m \<longrightarrow> pElems n s = pElems m s) \<and>
   (2 * length s + 1 < n \<longrightarrow> 2 * length s + 1 < m \<longrightarrow> pMembers n s = pMembers m s)"
proof (induction "length s" arbitrary: s n m rule: less_induct)
  case less
  have v: "pValue n s = pValue m s" if nm: "2 * length s < n" "2 * length s < m" for n m
  proof -
    obtain n' m' where "n = Suc n'" "m = Suc m'" using nm by (metis not0_implies_Suc not_less0)
    moreover have "pElems n' r = pElems m' r \<and> pMembers n' r = pMembers m' r" if "after c s = Some r" for c r
      using less [of r n' m'] after_shorter [OF that] nm calculation by auto
    ultimately show ?thesis by (auto split: option.splits)
  qed
  have e: "pElems n s = pElems m s" if nm: "2 * length s + 1 < n" "2 * length s + 1 < m" for n m
  proof -
    obtain n' m' where n: "n = Suc n'" "m = Suc m'" using nm by (metis not0_implies_Suc not_less0)
    have "pElems n' r' = pElems m' r'" if "pValue m' s = Some (x, r)" "after c r = Some r'" for x c r r'
      using less [of r' n' m'] pValue_shorter [OF that(1)] after_shorter [OF that(2)] nm n by auto
    then show ?thesis using v [of n' m'] nm n by (auto split: option.splits)
  qed
  have "pMembers n s = pMembers m s" if nm: "2 * length s + 1 < n" "2 * length s + 1 < m" for n m
  proof -
    obtain n' m' where n: "n = Suc n'" "m = Suc m'" using nm by (metis not0_implies_Suc not_less0)
    have r1: "length r2 < length s" if "after c s = Some r" "scanString r = Some (k, r1)" "after d r1 = Some r2" for c r k r1 d r2
      using after_shorter [OF that(1)] scanString_shorter [OF that(2)] after_shorter [OF that(3)] by simp
    then have "pValue n' r2 = pValue m' r2" if "after c s = Some r" "scanString r = Some (k, r1)" "after d r1 = Some r2" for c r k r1 d r2
      using less [of r2 n' m'] that nm n by fastforce
    moreover have "pMembers n' r' = pMembers m' r'"
      if "after c s = Some r" "scanString r = Some (k, r1)" "after d r1 = Some r2" "pValue m' r2 = Some (x, r3)" "after c' r3 = Some r'"
      for c r k r1 d r2 x r3 c' r'
      using less [of r' n' m'] r1 [OF that(1-3)] pValue_shorter [OF that(4)] after_shorter [OF that(5)] nm n by auto
    ultimately show ?thesis unfolding n by (auto split: option.splits bind_splits)
  qed
  then show ?case using v e by blast
qed

lemma pValue_enough_fuel: "2 * length s < n \<Longrightarrow> pValue n s = pValue (2 * length s + 1) s"
  using parse_fuel [of s n "2 * length s + 1"] by auto

definition readElems :: "string \<Rightarrow> (raw list \<times> string) option" where
  "readElems s = pElems (2 * length s + 2) s"

definition readMembers :: "string \<Rightarrow> ((string \<times> raw) list \<times> string) option" where
  "readMembers s = pMembers (2 * length s + 2) s"

lemma read_fuel:
  shows "2 * length s < n \<Longrightarrow> pValue n s = readValue s" "2 * length s + 1 < n \<Longrightarrow> pElems n s = readElems s"
    "2 * length s + 1 < n \<Longrightarrow> pMembers n s = readMembers s"
  unfolding readValue_def readElems_def readMembers_def
  using parse_fuel [of s n "2 * length s + 1"] parse_fuel [of s n "2 * length s + 2"] by auto

text \<open>The parser without its fuel.\<close>

lemma readValue_eq:
  "readValue s =
     (case after (CHR ''{'') s of
        Some r \<Rightarrow> (case after (CHR ''}'') r of Some r' \<Rightarrow> Some (RObj [], r')
           | None \<Rightarrow> map_option (map_prod RObj id) (readMembers r))
      | None \<Rightarrow>
     (case after (CHR ''['') s of
        Some r \<Rightarrow> (case after (CHR '']'') r of Some r' \<Rightarrow> Some (RArr [], r')
           | None \<Rightarrow> map_option (map_prod RArr id) (readElems r))
      | None \<Rightarrow> map_option (map_prod RLit id) (scanLiteral (skipWS s))))"
proof -
  have "pElems (2 * length s) r = readElems r \<and> pMembers (2 * length s) r = readMembers r" if "after c s = Some r" for c r
    using after_shorter [OF that] by (auto intro!: read_fuel)
  then show ?thesis unfolding readValue_def by (auto split: option.splits)
qed

lemma readElems_eq:
  "readElems s = (case readValue s of None \<Rightarrow> None | Some (v, r) \<Rightarrow>
     (case after (CHR '','') r of Some r' \<Rightarrow> prepend [v] (readElems r')
      | None \<Rightarrow> map_option (Pair [v]) (after (CHR '']'') r)))"
proof -
  define n where "n = 2 * length s + 1"
  then have n: "2 * length s < n" by simp
  have "pElems n r' = readElems r'" if "readValue s = Some (x, r)" "after c r = Some r'" for x c r r'
    using pValue_shorter [OF that(1) [unfolded readValue_def]] after_shorter [OF that(2)] by (intro read_fuel(2)) (simp add: n_def)
  then show ?thesis using read_fuel(2) [of s "Suc n"] read_fuel(1) [of s n]
    by (auto simp: n split: option.splits)
qed

lemma readMembers_eq:
  "readMembers s =
     (case Option.bind (after (CHR 0x22) s) scanString of None \<Rightarrow> None | Some (k, r1) \<Rightarrow>
     (case Option.bind (after (CHR '':'') r1) readValue of None \<Rightarrow> None | Some (v, r) \<Rightarrow>
     (case after (CHR '','') r of Some r' \<Rightarrow> prepend [(CHR 0x22 # k, v)] (readMembers r')
      | None \<Rightarrow> map_option (Pair [(CHR 0x22 # k, v)]) (after (CHR ''}'') r))))"
proof -
  define n where "n = 2 * length s + 1"
  then have n: "2 * length s < n" by simp
  have l: "length r2 < length s" if "after c s = Some r" "scanString r = Some (k, r1)" "after d r1 = Some r2" for c r k r1 d r2
    using after_shorter [OF that(1)] scanString_shorter [OF that(2)] after_shorter [OF that(3)] by simp
  then have "pValue n r2 = readValue r2"
    if "after c s = Some r" "scanString r = Some (k, r1)" "after d r1 = Some r2" for c r k r1 d r2
    using l [OF that] by (intro read_fuel(1)) (simp add: n_def)
  moreover have "pMembers n r' = readMembers r'"
    if "after c s = Some r" "scanString r = Some (k, r1)" "after d r1 = Some r2" "readValue r2 = Some (x, r3)" "after c' r3 = Some r'"
    for c r k r1 d r2 x r3 c' r'
    using l [OF that(1-3)] pValue_shorter [OF that(4) [unfolded readValue_def]] after_shorter [OF that(5)] by (intro read_fuel(3)) (simp add: n_def)
  ultimately show ?thesis using read_fuel(3) [of s "Suc n"]
    by (auto simp: n split: option.splits bind_splits)
qed

section \<open>Printed trees are read back\<close>

definition wfKey :: "string \<Rightarrow> bool" where
  "wfKey k \<longleftrightarrow> take 1 k = [CHR 0x22] \<and> scanString (drop 1 k) = Some (drop 1 k, [])"

fun wfRaw :: "raw \<Rightarrow> bool" where
  "wfRaw (RLit t) \<longleftrightarrow> scanLiteral t = Some (t, [])"
| "wfRaw (RArr vs) \<longleftrightarrow> list_all wfRaw vs"
| "wfRaw (RObj kvs) \<longleftrightarrow> list_all (\<lambda>(k, v). wfKey k \<and> wfRaw v) kvs"

definition blank :: "string \<Rightarrow> bool" where
  "blank ws \<longleftrightarrow> list_all jsonSpace ws"

lemma skipWS_blank: "blank ws \<Longrightarrow> skipWS (ws @ s) = skipWS s"
  by (induction ws) (auto simp: blank_def skipWS_def)

lemma after_blank: "blank ws \<Longrightarrow> after c (ws @ s) = after c s"
  by (simp add: after_def skipWS_blank)

lemma after_mark: "\<not> jsonSpace x \<Longrightarrow> after c (x # r) = (if x = c then Some r else None)"
  by (simp add: after_def skipWS_def)

lemma readValue_blank: assumes "blank ws" shows "readValue (ws @ s) = readValue s"
  unfolding readValue_eq [of "ws @ s"] readValue_eq [of s] after_blank [OF assms] skipWS_blank [OF assms] by (rule refl)

lemma readElems_blank: assumes "blank ws" shows "readElems (ws @ s) = readElems s"
  unfolding readElems_eq [of "ws @ s"] readElems_eq [of s] readValue_blank [OF assms] by (rule refl)

lemma readMembers_blank: assumes "blank ws" shows "readMembers (ws @ s) = readMembers s"
  unfolding readMembers_eq [of "ws @ s"] readMembers_eq [of s] after_blank [OF assms] by (rule refl)

lemma stops_mark: "c \<in> set '',]}'' \<Longrightarrow> stops (c # r)"
  by (auto simp: stops_def isDigit_def digitVal_def)

lemma stops_space: "jsonSpace c \<Longrightarrow> stops (c # r)"
  by (auto simp: stops_def isDigit_def digitVal_def jsonSpace_def)

lemma stops_blank: "blank ws \<Longrightarrow> c \<in> set '',]}'' \<Longrightarrow> stops (ws @ c # r)"
  using stops_mark stops_space by (cases ws) (auto simp: blank_def)

lemma mark_not_space: "c \<in> set ''{[,]}:'' \<Longrightarrow> \<not> jsonSpace c"
  by (auto simp: jsonSpace_def)

lemmas after_marks = after_mark [OF mark_not_space]

lemma readValue_literal:
  assumes "scanLiteral t = Some (t, [])" and "stops r"
  shows "readValue (t @ r) = Some (RLit t, r)"
proof -
  obtain c t' where t: "t = c # t'" and c: "leads c" using scanLiteral_starts [OF assms(1)] by (cases t) auto
  have "skipWS (t @ r) = t @ r" using t c by (simp add: skipWS_def leads_def)
  moreover have "after x (t @ r) = None" if "x \<in> set ''{[''" for x
    using t c that by (auto simp: after_mark leads_def)
  ultimately show ?thesis
    unfolding readValue_eq using scanLiteral_ext [OF assms] by simp
qed

lemma readElems_join:
  assumes "\<And>v r. v \<in> set vs \<Longrightarrow> stops r \<Longrightarrow> readValue (f v @ r) = Some (v, r)"
    and "blank ws" "blank ws'" and "vs \<noteq> []"
  shows "readElems (join (map f vs) ('','' @ ws) @ ws' @ '']'' @ r) = Some (vs, r)"
  using assms(4,1)
proof (induction vs rule: list_nonempty_induct)
  case (single v)
  show ?case
    unfolding readElems_eq [of "join _ _ @ _"]
    using single(1) [of v "ws' @ '']'' @ r"] stops_blank [OF assms(3), of "CHR '']''" r]
    by (simp add: after_blank [OF assms(3)] after_marks)
next
  case (cons v vs)
  let ?rest = "join (map f vs) ('','' @ ws) @ ws' @ '']'' @ r"
  have "readValue (f v @ CHR '','' # ws @ ?rest) = Some (v, CHR '','' # ws @ ?rest)"
    using cons.prems by (simp add: stops_mark)
  moreover have "readElems (ws @ ?rest) = Some (vs, r)"
    using cons.IH cons.prems by (simp add: readElems_blank [OF assms(2)])
  ultimately show ?case
    using cons.hyps by (simp add: readElems_eq [of "f v @ _"] after_marks join_Cons)
qed

lemma wfKey_cases: "wfKey k \<Longrightarrow> (\<And>b. k = CHR 0x22 # b \<Longrightarrow> scanString b = Some (b, []) \<Longrightarrow> P) \<Longrightarrow> P"
  by (cases k) (auto simp: wfKey_def)

lemma readMembers_join:
  assumes "\<And>k v r. (k, v) \<in> set kvs \<Longrightarrow> wfKey k \<and> (stops r \<longrightarrow> readValue (f v @ r) = Some (v, r))"
    and "blank ws" "blank ws'" "blank sep" and "kvs \<noteq> []"
  shows "readMembers (join (map (\<lambda>(k, v). k @ '':'' @ sep @ f v) kvs) ('','' @ ws) @ ws' @ ''}'' @ r) = Some (kvs, r)"
  using assms(5,1)
proof (induction kvs rule: list_nonempty_induct)
  case (single kv)
  obtain k v where kv: "kv = (k, v)" by fastforce
  have v: "wfKey k" "readValue (f v @ ws' @ ''}'' @ r) = Some (v, ws' @ ''}'' @ r)"
    using single [of k v "ws' @ ''}'' @ r"] stops_blank [OF assms(3), of "CHR ''}''" r] kv by auto
  obtain b where "k = CHR 0x22 # b" "scanString b = Some (b, [])" using v(1) by (rule wfKey_cases)
  then show ?case
    using v(2) scanString_split [of b b "[]"] mark_not_space
    by (simp add: kv readMembers_eq [of "CHR 0x22 # _"] after_mark jsonSpace_def readValue_blank [OF assms(4)] after_blank [OF assms(3)])
next
  case (cons kv kvs)
  obtain k v where kv: "kv = (k, v)" by fastforce
  let ?rest = "join (map (\<lambda>(k, v). k @ '':'' @ sep @ f v) kvs) ('','' @ ws) @ ws' @ ''}'' @ r"
  have v: "wfKey k" "readValue (f v @ CHR '','' # ws @ ?rest) = Some (v, CHR '','' # ws @ ?rest)"
    using cons.prems [of k v] kv by (auto simp: stops_mark)
  have "readMembers (ws @ ?rest) = Some (kvs, r)"
    unfolding readMembers_blank [OF assms(2)] by (rule cons.IH, rule cons.prems) simp
  moreover obtain b where "k = CHR 0x22 # b" "scanString b = Some (b, [])" using v(1) by (rule wfKey_cases)
  ultimately show ?case
    using v(2) cons.hyps scanString_split [of b b "[]"]
    by (simp add: kv join_Cons readMembers_eq [of "CHR 0x22 # _"] after_mark jsonSpace_def readValue_blank [OF assms(4)])
qed

lemma layout_starts: "wfRaw v \<Longrightarrow> \<exists>c t. layoutRaw br sep d v = c # t \<and> \<not> jsonSpace c \<and> c \<notin> set '']},:''"
proof (cases v)
  case (RLit t)
  moreover assume "wfRaw v"
  ultimately show ?thesis using scanLiteral_starts [of t t "[]"] by (cases t) (auto simp: leads_def)
qed (auto simp: jsonSpace_def)

lemma readValue_layout:
  assumes "\<And>d. blank (br d)" "blank sep"
  shows "wfRaw v \<Longrightarrow> stops r \<Longrightarrow> readValue (layoutRaw br sep d v @ r) = Some (v, r)"
proof (induction v arbitrary: d r)
  case (RLit t)
  then show ?case by (simp add: readValue_literal)
next
  case (RArr vs)
  show ?case
  proof (cases vs)
    case Nil
    then show ?thesis by (simp add: readValue_eq [of "CHR ''['' # _"] after_marks)
  next
    case (Cons v vs')
    then obtain c t where c: "layoutRaw br sep (Suc d) v = c # t" "\<not> jsonSpace c" "c \<notin> set '']},:''"
      using layout_starts [of v br sep "Suc d"] RArr.prems by auto
    let ?body = "join (map (layoutRaw br sep (Suc d)) vs) ('','' @ br (Suc d)) @ br d @ '']'' @ r"
    have "readElems ?body = Some (vs, r)"
      using RArr Cons assms by (intro readElems_join) (auto simp: list_all_iff)
    moreover have "after (CHR '']'') ?body = None"
      using c Cons by (cases vs') (auto simp: after_mark)
    ultimately show ?thesis
      using Cons assms by (simp add: readValue_eq [of "CHR ''['' # _"] after_marks after_blank readElems_blank)
  qed
next
  case (RObj kvs)
  show ?case
  proof (cases kvs)
    case Nil
    then show ?thesis by (simp add: readValue_eq [of "CHR ''{'' # _"] after_marks)
  next
    case (Cons kv kvs')
    let ?body = "join (map (\<lambda>(k, v). k @ '':'' @ sep @ layoutRaw br sep (Suc d) v) kvs) ('','' @ br (Suc d)) @ br d @ ''}'' @ r"
    have "readMembers ?body = Some (kvs, r)"
      using RObj Cons assms by (intro readMembers_join) (fastforce simp: list_all_iff)+
    moreover obtain b where "fst kv = CHR 0x22 # b" using RObj.prems Cons by (auto elim!: wfKey_cases)
    then have "after (CHR ''}'') ?body = None"
      using Cons by (cases kvs') (auto simp: after_mark jsonSpace_def split: prod.splits)
    ultimately show ?thesis
      using Cons assms by (simp add: readValue_eq [of "CHR ''{'' # _"] after_marks after_blank readMembers_blank)
  qed
qed

lemma blank_newline: "blank (newline d)" "blank []" "blank '' ''"
  by (auto simp: blank_def newline_def jsonSpace_def list_all_iff)

lemma indentRaw_read: "wfRaw v \<Longrightarrow> stops r \<Longrightarrow> readValue (indentRaw d v @ r) = Some (v, r)"
  unfolding indentRaw_def by (rule readValue_layout) (rule blank_newline)+

lemma parseRaw_layout:
  assumes "wfRaw v" "blank ws"
  shows "parseRaw (indentRaw d v @ ws) = Some v" "parseRaw (compactRaw v) = Some v"
proof -
  have "stops ws" using assms(2) stops_space by (cases ws) (auto simp: blank_def stops_def)
  moreover have "skipWS ws = []" using skipWS_blank [OF assms(2), of "[]"] by (simp add: skipWS_def)
  ultimately show "parseRaw (indentRaw d v @ ws) = Some v"
    using assms(1) by (simp add: parseRaw_def indentRaw_read)
  have "readValue (compactRaw v @ []) = Some (v, [])"
    unfolding compactRaw_def by (rule readValue_layout) (auto simp: blank_newline assms stops_def)
  then show "parseRaw (compactRaw v) = Some v" by (simp add: parseRaw_def skipWS_def)
qed

section \<open>What was read is well formed\<close>

lemma takeWhile_self: "takeWhile P (takeWhile P s) = takeWhile P s" "dropWhile P (takeWhile P s) = []"
  by (induction s) auto

lemma while_ext: "u = [] \<or> \<not> P (hd u) \<Longrightarrow> takeWhile P (s @ u) = takeWhile P s \<and> dropWhile P (s @ u) = dropWhile P s @ u"
  by (induction s) (cases u; auto)+

lemma digitsAfter_self:
  assumes "digitsAfter p s = Some (x, y)"
  obtains z where "x = p @ z" "z \<noteq> []" "\<forall>q. digitsAfter q z = Some (q @ z, [])" "s = z @ y"
  using assms that [of "takeWhile isDigit s"] by (auto simp: digitsAfter_def takeWhile_self split: if_splits)

lemma exponent_self: "exponent s = Some (x, y) \<Longrightarrow> exponent x = Some (x, []) \<and> (x = [] \<or> hd x \<in> {CHR ''e'', CHR ''E''})"
proof (cases s)
  case (Cons c s')
  assume e: "exponent s = Some (x, y)"
  show ?thesis
  proof (cases "c = CHR ''e'' \<or> c = CHR ''E''")
    case True
    then obtain g s'' where s': "s' = g # s''" using e Cons by (cases s') (auto simp: exponent_def)
    show ?thesis
    proof (cases "g = CHR ''+'' \<or> g = CHR ''-''")
      case sign: True
      then have "digitsAfter [c, g] s'' = Some (x, y)" using e True Cons s' by (auto simp: exponent_def)
      then show ?thesis using True sign by (elim digitsAfter_self) (auto simp: exponent_def)
    next
      case False
      then have "digitsAfter [c] s' = Some (x, y)" using e True Cons s' by (auto simp: exponent_def)
      then obtain z where z: "x = [c] @ z" "z \<noteq> []" "\<forall>q. digitsAfter q z = Some (q @ z, [])" "s' = z @ y"
        by (rule digitsAfter_self)
      then obtain z' where "z = g # z'" using s' by (cases z) auto
      then show ?thesis using z True False by (auto simp: exponent_def)
    qed
  qed (use e Cons in \<open>auto simp: exponent_def\<close>)
qed (auto simp: exponent_def)

lemma fraction_self: "fraction s = Some (x, y) \<Longrightarrow> fraction x = Some (x, []) \<and> (x = [] \<or> hd x = CHR ''.'')"
  by (cases s) (auto simp: fraction_def digitsAfter_def takeWhile_self split: if_splits)

lemma unsigned_self:
  assumes "unsigned s = Some (x, y)"
  shows "unsigned x = Some (x, [])"
proof -
  let ?ds = "takeWhile isDigit s"
  obtain fr r1 ex where ds: "\<not> (?ds = [] \<or> (hd ?ds = CHR ''0'' \<and> length ?ds > 1))"
    and fr: "fraction (dropWhile isDigit s) = Some (fr, r1)" and ex: "exponent r1 = Some (ex, y)" and x: "x = ?ds @ fr @ ex"
    using assms(1) by (auto simp: unsigned_def Let_def split: if_splits option.splits)
  have nd: "\<not> isDigit (CHR ''.'')" "\<not> isDigit (CHR ''e'')" "\<not> isDigit (CHR ''E'')" by (simp_all add: isDigit_def digitVal_def)
  have w: "takeWhile isDigit (?ds @ u) = ?ds \<and> dropWhile isDigit (?ds @ u) = u" if "u = [] \<or> \<not> isDigit (hd u)" for u
    using that while_ext [of u isDigit ?ds] by (simp add: takeWhile_self)
  have "fraction (fr @ ex) = Some (fr, ex)"
  proof (cases fr)
    case Nil
    then show ?thesis using exponent_self [OF ex] by (cases ex) (auto simp: fraction_def)
  next
    case (Cons c z)
    then have z: "c = CHR ''.''" "digitsAfter [c] z = Some (fr, [])" using fraction_self [OF fr] by (auto simp: fraction_def)
    then have "takeWhile isDigit z = z" "z \<noteq> []" using Cons by (auto simp: digitsAfter_def split: if_splits)
    moreover have "takeWhile isDigit (z @ ex) = takeWhile isDigit z \<and> dropWhile isDigit (z @ ex) = dropWhile isDigit z @ ex"
      using exponent_self [OF ex] nd by (intro while_ext) auto
    ultimately show ?thesis using z Cons by (auto simp: fraction_def digitsAfter_def split: if_splits)
  qed
  moreover have "fr @ ex = [] \<or> \<not> isDigit (hd (fr @ ex))"
    using fraction_self [OF fr] exponent_self [OF ex] nd by (cases fr; cases ex) auto
  ultimately show ?thesis
    using ds w exponent_self [OF ex] unfolding x by (simp add: unsigned_def Let_def)
qed

lemma scanNumber_self:
  assumes "scanNumber s = Some (x, y)"
  shows "scanNumber x = Some (x, []) \<and> x \<noteq> [] \<and> hd x = hd s"
proof -
  obtain c r where s: "s = c # r" using assms by (cases s) (auto simp: scanNumber_def)
  show ?thesis
  proof (cases "c = CHR ''-''")
    case True
    then obtain z where "unsigned r = Some (z, y)" "x = c # z" using assms s by (auto simp: scanNumber_def)
    then show ?thesis using unsigned_self [of r z y] True s by (simp add: scanNumber_def)
  next
    case False
    then have u: "unsigned s = Some (x, y)" using assms s by (simp add: scanNumber_def)
    then have "x @ y = s" using unsigned_ext [OF u, of "[]"] by (simp add: stops_def)
    moreover obtain d z where "x = d # z" using unsigned_starts [OF unsigned_self [OF u]] by (cases x) auto
    ultimately show ?thesis using unsigned_self [OF u] False s by (auto simp: scanNumber_def)
  qed
qed

lemma scanLiteral_self: "scanLiteral s = Some (x, y) \<Longrightarrow> scanLiteral x = Some (x, [])"
proof (cases s)
  case (Cons c r)
  assume s: "scanLiteral s = Some (x, y)"
  show ?thesis
  proof (cases "c = CHR 0x22")
    case True
    then obtain z where "scanString r = Some (z, y)" "x = c # z" using s Cons by (auto simp: scanLiteral_def)
    then show ?thesis using True scanString_split [of r z y] by (force simp: scanLiteral_def dest: spec [of _ "[]"])
  next
    case False
    have w: "fixedWord w s = Some (x, y) \<Longrightarrow> x = w" for w by (auto simp: fixedWord_def split: if_splits)
    show ?thesis
    proof (cases "c = CHR ''t'' \<or> c = CHR ''f'' \<or> c = CHR ''n''")
      case True
      then show ?thesis using s Cons w by (auto simp: scanLiteral_def fixedWord_def split: if_splits)
    next
      case num: False
      then have "scanNumber s = Some (x, y)" using s Cons False by (simp add: scanLiteral_def)
      from scanNumber_self [OF this] show ?thesis using num False Cons by (cases x) (auto simp: scanLiteral_def)
    qed
  qed
qed (simp add: scanLiteral_def)

lemma parse_wf:
  shows "pValue n s = Some (v, r) \<Longrightarrow> wfRaw v" "pElems n s = Some (vs, r) \<Longrightarrow> list_all wfRaw vs"
    "pMembers n s = Some (kvs, r) \<Longrightarrow> list_all (\<lambda>(k, v). wfKey k \<and> wfRaw v) kvs"
proof (induction n s and n s and n s arbitrary: v r and vs r and kvs r rule: pValue_pElems_pMembers.induct)
  case (2 n s)
  then show ?case by (auto split: option.splits dest: scanLiteral_self)
next
  case (4 n s)
  then show ?case by (fastforce split: option.splits)
next
  case (6 n s)
  have "wfKey (CHR 0x22 # k)" if "scanString t = Some (k, u)" for t k u
    using scanString_split [OF that] by (force simp: wfKey_def dest: spec [of _ "[]"])
  then show ?case using 6 by (fastforce split: option.splits bind_splits)
qed auto

lemma parseRaw_wf: "parseRaw s = Some v \<Longrightarrow> wfRaw v"
  using parse_wf(1) [of "2 * length s + 1" s] unfolding parseRaw_def readValue_def [symmetric]
  by (auto split: option.splits if_splits)

section \<open>Literals of the encoder\<close>

lemma hexVal_jsonHex: "d < 16 \<Longrightarrow> hexVal (jsonHex d) = Some d"
  using hexVal_hexChar [of d] by (simp add: jsonHex_def hexChar_def)

lemma hexVal_zero: "hexVal (CHR ''0'') = Some 0"
  by (simp add: hexVal_def)

lemma escapeChar_kinds:
  obtains "escapeChar c = [c]" "c \<noteq> CHR 0x22" "c \<noteq> CHR 0x5C" "\<not> (of_char c :: nat) < 32" "c \<notin> set ''<>&''"
  | e where "escapeChar c = [CHR 0x5C, e]" "escapable e" "e \<noteq> CHR ''u''" "unescape e = c" "e \<notin> set ''<>&''"
  | a b where "escapeChar c = [CHR 0x5C, CHR ''u'', CHR ''0'', CHR ''0'', a, b]" "hexVal a \<noteq> None" "hexVal b \<noteq> None"
      "hexNat 0 [CHR ''0'', CHR ''0'', a, b] = Some (of_char c)" "(of_char c :: nat) < 128"
proof -
  let ?n = "of_char c :: nat"
  have n: "?n div 16 < 16" "?n mod 16 < 16" using of_char_mod_256 [of c] by (simp_all add: less_mult_imp_div_less)
  have of: "?n = of_char d \<Longrightarrow> c = d" for d by (metis char_of_char)
  have codes: "?n = 8 \<Longrightarrow> c = CHR 0x08" "?n = 9 \<Longrightarrow> c = CHR 0x09" "?n = 10 \<Longrightarrow> c = CHR 0x0A" "?n = 12 \<Longrightarrow> c = CHR 0x0C"
    "?n = 13 \<Longrightarrow> c = CHR 0x0D" "?n = 60 \<Longrightarrow> c = CHR ''<''" "?n = 62 \<Longrightarrow> c = CHR ''>''" "?n = 38 \<Longrightarrow> c = CHR ''&''"
    by (rule of; simp)+
  consider "c = CHR 0x22 \<or> c = CHR 0x5C" | "c = CHR 0x08 \<or> c = CHR 0x09 \<or> c = CHR 0x0A \<or> c = CHR 0x0C \<or> c = CHR 0x0D"
    | "c \<noteq> CHR 0x22" "c \<noteq> CHR 0x5C" "?n \<notin> {8, 9, 10, 12, 13}" "?n < 32 \<or> c \<in> set ''<>&''"
    | "c \<noteq> CHR 0x22" "c \<noteq> CHR 0x5C" "\<not> ?n < 32" "c \<notin> set ''<>&''"
    using codes(1-5) by blast
  then show thesis
  proof cases
    case 1
    then show ?thesis by (intro that(2) [of c]) (auto simp: escapeChar_def escapable_def unescape_def)
  next
    case 2
    then show ?thesis
      by (elim disjE; intro that(2) [of "if c = CHR 0x08 then CHR ''b'' else if c = CHR 0x09 then CHR ''t'' else
          if c = CHR 0x0A then CHR ''n'' else if c = CHR 0x0C then CHR ''f'' else CHR ''r''"])
        (simp_all add: escapeChar_def escapable_def unescape_def)
  next
    case 3
    then have "escapeChar c = [CHR 0x5C, CHR ''u'', CHR ''0'', CHR ''0'', jsonHex (?n div 16), jsonHex (?n mod 16)]"
      by (auto simp: escapeChar_def Let_def)
    moreover have "?n < 128" using 3(4) by auto
    moreover have h: "hexVal (jsonHex (?n div 16)) = Some (?n div 16)" "hexVal (jsonHex (?n mod 16)) = Some (?n mod 16)"
      using n by (intro hexVal_jsonHex; simp)+
    moreover have "hexNat 0 [CHR ''0'', CHR ''0'', jsonHex (?n div 16), jsonHex (?n mod 16)] = Some ?n"
      by (simp only: hexNat.simps hexVal_zero h option.case) simp
    ultimately show ?thesis by (intro that(3)) simp_all
  next
    case 4
    then have "?n \<noteq> 60" "?n \<noteq> 62" "?n \<noteq> 38" using codes(6-8) by auto
    then show ?thesis using 4 by (intro that(1)) (simp_all add: escapeChar_def Let_def)
  qed
qed

lemma scanString_step: "scanString (escapeChar c @ s) = prepend (escapeChar c) (scanString s)"
proof (cases c rule: escapeChar_kinds)
  case (3 a b)
  then show ?thesis by (simp add: escapable_def hexVal_zero)
qed simp_all

lemma scanString_quoted: "scanString (concat (map escapeChar s) @ CHR 0x22 # r) = Some (concat (map escapeChar s) @ [CHR 0x22], r)"
  by (induction s) (simp_all add: scanString_step prepend_def)

lemma decodeBody_step: "decodeBody (escapeChar c @ s) = c # decodeBody s"
proof (cases c rule: escapeChar_kinds)
  case (3 a b)
  then show ?thesis by (simp add: utf8_def del: hexNat.simps)
qed simp_all

text \<open>The literal of a string is scanned to its end and decodes to the string.\<close>

lemma quoteJSON_literal: "wfKey (quoteJSON s)" "wfRaw (RLit (quoteJSON s))" "unquote (quoteJSON s) = s"
proof -
  show "wfKey (quoteJSON s)" "wfRaw (RLit (quoteJSON s))"
    using scanString_quoted [of s "[]"] by (simp_all add: wfKey_def quoteJSON_def scanLiteral_def prepend_def)
  have "decodeBody (concat (map escapeChar s) @ [CHR 0x22]) = s"
    by (induction s) (simp_all add: decodeBody_step)
  then show "unquote (quoteJSON s) = s" by (simp add: unquote_def quoteJSON_def)
qed

lemma natDec_isDigit: "list_all isDigit (natDec n)"
  unfolding list_all_iff using natDec_digits by (fastforce simp: isDigit_def digitVal_def Let_def)

lemma natDec_first: "length (natDec n) > 1 \<Longrightarrow> hd (natDec n) \<noteq> CHR ''0''"
proof (induction n rule: natDec.induct)
  case (1 n)
  have "natDec (n div 10) = [CHR ''0''] \<Longrightarrow> n < 10" using decNat_natDec [of "n div 10"] by (simp add: digitVal_def div_eq_0_iff)
  then show ?case using 1 by (cases "natDec (n div 10)") (auto simp: natDec.simps [of n] split: if_splits)
qed

lemma itoa_literal: "wfRaw (RLit (itoa i))"
proof -
  have u: "unsigned (natDec n) = Some (natDec n, [])" for n
    using natDec_isDigit [of n] natDec_first [of n]
    by (auto simp: unsigned_def Let_def list_all_iff takeWhile_eq_all_conv [THEN iffD2] dropWhile_eq_Nil_conv [THEN iffD2]
        fraction_def exponent_def prepend_def)
  obtain c t where c: "natDec (nat i) = c # t" by (cases "natDec (nat i)") auto
  have "isDigit c" using natDec_isDigit [of "nat i"] c by simp
  then have "c \<noteq> CHR ''-''" "c \<noteq> CHR 0x22" "c \<noteq> CHR ''t''" "c \<noteq> CHR ''f''" "c \<noteq> CHR ''n''"
    by (auto simp: isDigit_def digitVal_def)
  then show ?thesis using u [of "nat i"] u [of "nat (- i)"] c
    by (auto simp: itoa_def scanLiteral_def scanNumber_def prepend_def)
qed

lemma hexVal_not_html: "hexVal d \<noteq> None \<Longrightarrow> d \<notin> set ''<>&''"
  by (auto simp: hexVal_def)

lemma escapeHTML_simps [simp]:
  "escapeHTML [] = []" "escapeHTML (s @ t) = escapeHTML s @ escapeHTML t"
  "escapeHTML (c # s) = (if c \<in> set ''<>&'' then escapeChar c else [c]) @ escapeHTML s"
  by (simp_all add: escapeHTML_def)

lemma escapeText_plain: "(\<And>c. c \<in> set s \<Longrightarrow> c \<notin> set ''<>&'') \<Longrightarrow> escapeHTML s = s"
  by (induction s) auto

lemma scanString_escapeHTML: "scanString s = Some (x, y) \<Longrightarrow> scanString (escapeHTML x @ t) = Some (escapeHTML x, t)"
proof (induction s arbitrary: x y rule: scanString.induct)
  case (2 c r)
  consider "c = CHR 0x22" | "c \<noteq> CHR 0x22" "c \<noteq> CHR 0x5C" | "c = CHR 0x5C" by blast
  then show ?case
  proof cases
    case 1
    then show ?thesis using 2(4) by auto
  next
    case 2
    then obtain z where z: "scanString r = Some (z, y)" "x = c # z" "\<not> (of_char c :: nat) < 32"
      using "2.prems" by (auto split: if_splits)
    then have "scanString (escapeHTML z @ t) = Some (escapeHTML z, t)" using "2.IH"(3) 2 by blast
    then show ?thesis using z 2 scanString_step [of c "escapeHTML z @ t"] by (auto simp: prepend_def)
  next
    case 3
    then obtain e r1 where r: "r = e # r1" using "2.prems" by (cases r) auto
    show ?thesis
    proof (cases "escapable e")
      case True
      then obtain z where z: "scanString r1 = Some (z, y)" "x = c # e # z" using "2.prems" r 3 by auto
      then have "scanString (escapeHTML z @ t) = Some (escapeHTML z, t)" using "2.IH"(1) [OF _ _ r] 3 True by simp
      then show ?thesis using z 3 True by (auto simp: escapable_def prepend_def)
    next
      case False
      then obtain z where z: "scanString (drop 4 r1) = Some (z, y)" "x = c # CHR ''u'' # take 4 r1 @ z" "length (take 4 r1) = 4"
          "\<forall>d \<in> set (take 4 r1). hexVal d \<noteq> None" "e = CHR ''u''"
        using "2.prems" r 3 by (auto simp: list_all_iff split: if_splits)
      then have "scanString (escapeHTML z @ t) = Some (escapeHTML z, t)"
        using "2.IH"(2) [OF _ _ r] 3 False by (simp add: list_all_iff)
      moreover have "escapeHTML (take 4 r1) = take 4 r1" using z(4) hexVal_not_html by (intro escapeText_plain) blast
      ultimately show ?thesis using z 3 False by (auto simp: prepend_def list_all_iff)
    qed
  qed
qed simp

lemma escapeLit_literal: "wfRaw (RLit t) \<Longrightarrow> wfRaw (RLit (escapeLit t))"
  using scanString_escapeHTML [of "drop 1 t" "drop 1 t" "[]" "[]"]
  by (cases t) (auto simp: escapeLit_def scanLiteral_def prepend_def)

lemma escapeLit_key: "wfKey k \<Longrightarrow> wfKey (escapeLit k)"
  using scanString_escapeHTML [of "drop 1 k" "drop 1 k" "[]" "[]"] by (cases k) (auto simp: escapeLit_def wfKey_def)

lemma wfRaw_escape: "wfRaw v \<Longrightarrow> wfRaw (mapLiterals escapeLit v)"
proof (induction v)
  case (RLit t)
  then show ?case using escapeLit_literal by simp
next
  case (RObj kvs)
  then show ?case using escapeLit_key by (fastforce simp: list_all_iff)
qed (auto simp: list_all_iff)

text \<open>The tree of a value of the encoder; nothing in its literals is left to escape.\<close>

fun rawOf :: "json \<Rightarrow> raw" where
  "rawOf (JArr vs) = RArr (map rawOf vs)"
| "rawOf (JObj kvs) = RObj (map (\<lambda>(k, v). (quoteJSON k, rawOf v)) kvs)"
| "rawOf v = RLit (compactJSON v)"

lemma escapeLit_quote: "escapeLit (quoteJSON s) = quoteJSON s"
proof -
  have "c \<notin> set ''<>&''" if "c \<in> set (escapeChar d)" for c d
    using that hexVal_not_html by (cases d rule: escapeChar_kinds) auto
  then have "escapeHTML (quoteJSON s) = quoteJSON s" by (intro escapeText_plain) (auto simp: quoteJSON_def)
  then show ?thesis by (simp add: escapeLit_def)
qed

lemma rawOf_props: "wfRaw (rawOf v) \<and> compactRaw (rawOf v) = compactJSON v \<and> mapLiterals escapeLit (rawOf v) = rawOf v"
proof -
  have "wfRaw (rawOf v) \<and> layoutRaw (\<lambda>_. []) [] d (rawOf v) = compactJSON v \<and> mapLiterals escapeLit (rawOf v) = rawOf v" for d
  proof (induction v arbitrary: d)
    case (JNum i)
    have "take 1 (itoa i) \<noteq> [CHR 0x22]"
      using natDec_isDigit [of "nat i"] by (cases "natDec (nat i)") (auto simp: itoa_def isDigit_def digitVal_def)
    then show ?case using itoa_literal [of i] by (simp add: escapeLit_def)
  next
    case (JStr s)
    then show ?case using quoteJSON_literal(2) [of s] by (simp add: escapeLit_quote)
  next
    case (JArr vs)
    then show ?case by (auto simp: list_all_iff intro!: arg_cong [where f = "\<lambda>x. join x _"])
  next
    case (JObj kvs)
    then show ?case
      by (auto simp: list_all_iff escapeLit_quote quoteJSON_literal intro!: arg_cong [where f = "\<lambda>x. join x _"])
  qed (auto simp: scanLiteral_def fixedWord_def escapeLit_def)
  then show ?thesis by (simp add: compactRaw_def)
qed

lemma parseRaw_compactJSON: "parseRaw (compactJSON v) = Some (rawOf v)"
  using parseRaw_layout(2) [of "rawOf v" "[]"] rawOf_props [of v] by (simp add: blank_newline)

end
