(* ===== verification/Snapshot_Bundle.thy ===== *)
theory Snapshot_Bundle
  imports Lifecycle Json_Parse
begin

text \<open>
  Export and import of snapshots (\<open>internal/firecracker/snapshot_bundle.go\<close>, \<open>JSONText\<close> of
  \<open>internal/model/types.go\<close>).  A bundle is what the gzip and tar readers deliver: whether the stream
  opens, its entries, and whether it breaks off.  The manifest is read and written as JSON text.

  Shown here: a bundle written by an export is imported with the same disk and the same metadata;
  an import, whatever the names in its bundle and wherever it fails, changes no file that was there
  before and no row of another snapshot.
\<close>

section \<open>JSONText\<close>

text \<open>\<open>json.Marshal\<close> of a \<open>JSONText\<close>: its \<open>MarshalJSON\<close>, compacted with the escapes of the encoder.\<close>

definition JSONText_Marshal :: "string \<Rightarrow> string" where
  "JSONText_Marshal j =
     (if j = [] then ''null'' else
      case parseRaw j of Some v \<Rightarrow> compactRaw (mapLiterals escapeLit v) | None \<Rightarrow> quoteJSON j)"

definition JSONText_Unmarshal :: "string \<Rightarrow> err + string" where
  "JSONText_Unmarshal data =
     (if data = ''null'' then Inr [] else if \<not> validJSON data then Inl (Msg ''invalid JSONText'') else Inr data)"

section \<open>The manifest\<close>

record snapshotBundleManifest =
  mfFormat :: string
  mfName :: string
  mfSourceVM :: string
  mfBaseImageID :: string
  mfKernelID :: string
  mfBaseImageMetadata :: string
  mfDisk :: string
  mfDiskSize :: int
  mfCreatedAt :: string

definition emptyManifest :: snapshotBundleManifest where
  "emptyManifest = \<lparr>mfFormat = [], mfName = [], mfSourceVM = [], mfBaseImageID = [], mfKernelID = [],
     mfBaseImageMetadata = [], mfDisk = [], mfDiskSize = 0, mfCreatedAt = []\<rparr>"

definition snapshotBundleFormat :: string where
  "snapshotBundleFormat = ''firedoze.snapshot.v1''"

definition snapshotBundleManifestName :: string where
  "snapshotBundleManifestName = ''manifest.json''"

definition snapshotBundleDiskName :: string where
  "snapshotBundleDiskName = ''rootfs.ext4''"

text \<open>The members that \<open>encoding/json\<close> writes for the struct; \<open>omitempty\<close> leaves out empty ones.\<close>

definition strMember :: "string \<Rightarrow> string \<Rightarrow> (string \<times> raw) list" where
  "strMember k v = [(quoteJSON k, RLit (quoteJSON v))]"

definition omitEmptyStr :: "string \<Rightarrow> string \<Rightarrow> (string \<times> raw) list" where
  "omitEmptyStr k v = (if v = [] then [] else strMember k v)"

definition manifestMembers :: "snapshotBundleManifest \<Rightarrow> raw list \<Rightarrow> (string \<times> raw) list" where
  "manifestMembers m metadata =
     strMember ''format'' (mfFormat m) @ strMember ''name'' (mfName m) @ omitEmptyStr ''source_vm'' (mfSourceVM m) @
     omitEmptyStr ''base_image_id'' (mfBaseImageID m) @ omitEmptyStr ''kernel_id'' (mfKernelID m) @
     map (Pair (quoteJSON ''base_image_metadata'')) metadata @
     strMember ''disk'' (mfDisk m) @ [(quoteJSON ''disk_size'', RLit (itoa (mfDiskSize m)))] @
     omitEmptyStr ''created_at'' (mfCreatedAt m)"

text \<open>\<open>json.MarshalIndent(manifest, "", "  ")\<close>: a \<open>RawMessage\<close> that is not JSON is an error.\<close>

definition marshalManifest :: "snapshotBundleManifest \<Rightarrow> err + string" where
  "marshalManifest m =
     (if mfBaseImageMetadata m = [] then Inr (indentRaw 0 (RObj (manifestMembers m [])))
      else case parseRaw (mfBaseImageMetadata m) of
        None \<Rightarrow> Inl (Msg ''json: error calling MarshalJSON for type json.RawMessage'')
      | Some v \<Rightarrow> Inr (indentRaw 0 (RObj (manifestMembers m [mapLiterals escapeLit v]))))"

text \<open>The members of the object at the top of a text that is valid JSON, each with the text of its
  value; one unit of fuel for each character is enough, since a member has at least four.\<close>

fun topMembers :: "nat \<Rightarrow> string \<Rightarrow> (string \<times> string) list" where
  "topMembers 0 s = []"
| "topMembers (Suc n) s =
     (case Option.bind (after (CHR 0x22) s) scanString of None \<Rightarrow> [] | Some (k, r1) \<Rightarrow>
     (case after (CHR '':'') r1 of None \<Rightarrow> [] | Some r2 \<Rightarrow>
     (case readValue (skipWS r2) of None \<Rightarrow> [] | Some (v, r) \<Rightarrow>
        (CHR 0x22 # k, take (length (skipWS r2) - length r) (skipWS r2)) #
        (case after (CHR '','') r of Some r' \<Rightarrow> topMembers n r' | None \<Rightarrow> []))))"

text \<open>Decoding of a literal into a string and into an \<open>int64\<close>; \<open>null\<close> leaves the field as it is.\<close>

definition decodeStr :: "string \<Rightarrow> string \<Rightarrow> err + string" where
  "decodeStr old t =
     (if t = ''null'' then Inr old else if take 1 t = [CHR 0x22] then Inr (unquote t)
      else Inl (Msg ''json: cannot unmarshal value into Go struct field of type string''))"

definition decodeInt :: "int \<Rightarrow> string \<Rightarrow> err + int" where
  "decodeInt old t =
     (if t = ''null'' then Inr old else
      case parseInt t of Some i \<Rightarrow> Inr i
      | None \<Rightarrow> Inl (Msg ''json: cannot unmarshal value into Go struct field of type int64''))"

definition mapSum :: "('a \<Rightarrow> 'b) \<Rightarrow> err + 'a \<Rightarrow> err + 'b" where
  "mapSum f x = (case x of Inl e \<Rightarrow> Inl e | Inr y \<Rightarrow> Inr (f y))"

text \<open>One member of the text: keys are compared without regard to case, unknown ones are skipped.\<close>

definition decodeField :: "snapshotBundleManifest \<Rightarrow> string \<times> string \<Rightarrow> err + snapshotBundleManifest" where
  "decodeField m kt = (let k = toLower (unquote (fst kt)); t = snd kt in
     if k = ''format'' then mapSum (\<lambda>v. m\<lparr>mfFormat := v\<rparr>) (decodeStr (mfFormat m) t)
     else if k = ''name'' then mapSum (\<lambda>v. m\<lparr>mfName := v\<rparr>) (decodeStr (mfName m) t)
     else if k = ''source_vm'' then mapSum (\<lambda>v. m\<lparr>mfSourceVM := v\<rparr>) (decodeStr (mfSourceVM m) t)
     else if k = ''base_image_id'' then mapSum (\<lambda>v. m\<lparr>mfBaseImageID := v\<rparr>) (decodeStr (mfBaseImageID m) t)
     else if k = ''kernel_id'' then mapSum (\<lambda>v. m\<lparr>mfKernelID := v\<rparr>) (decodeStr (mfKernelID m) t)
     else if k = ''base_image_metadata'' then Inr (m\<lparr>mfBaseImageMetadata := t\<rparr>)
     else if k = ''disk'' then mapSum (\<lambda>v. m\<lparr>mfDisk := v\<rparr>) (decodeStr (mfDisk m) t)
     else if k = ''disk_size'' then mapSum (\<lambda>v. m\<lparr>mfDiskSize := v\<rparr>) (decodeInt (mfDiskSize m) t)
     else if k = ''created_at'' then mapSum (\<lambda>v. m\<lparr>mfCreatedAt := v\<rparr>) (decodeStr (mfCreatedAt m) t)
     else Inr m)"

fun decodeFields :: "snapshotBundleManifest \<Rightarrow> (string \<times> string) list \<Rightarrow> err + snapshotBundleManifest" where
  "decodeFields m [] = Inr m"
| "decodeFields m (kt # kts) = (case decodeField m kt of Inl e \<Rightarrow> Inl e | Inr m' \<Rightarrow> decodeFields m' kts)"

text \<open>\<open>json.Unmarshal(data, &manifest)\<close> into the empty manifest.\<close>

definition unmarshalManifest :: "string \<Rightarrow> err + snapshotBundleManifest" where
  "unmarshalManifest data = (case parseRaw data of
      None \<Rightarrow> Inl (Msg ''invalid character'')
    | Some (RObj kvs) \<Rightarrow> decodeFields emptyManifest (case after (CHR ''{'') data of None \<Rightarrow> [] | Some r \<Rightarrow> topMembers (length data) r)
    | Some (RLit t) \<Rightarrow> if t = ''null'' then Inr emptyManifest else Inl (Msg ''json: cannot unmarshal value'')
    | Some (RArr vs) \<Rightarrow> Inl (Msg ''json: cannot unmarshal array''))"

definition snapshotMetadataJSON :: "string \<Rightarrow> string" where
  "snapshotMetadataJSON metadata = (let data = JSONText_Marshal metadata in if data = ''null'' then [] else data)"

section \<open>Bundles\<close>

text \<open>A tar entry as the reader delivers it: its header, and its data, which may be cut off when the
  stream ends inside it.\<close>

record tarEntry =
  teName :: string
  teIsDir :: bool
  teRegular :: bool
  teSize :: nat
  teData :: string
  teCut :: bool

record snapshotBundle =
  bdGzip :: bool
  bdEntries :: "tarEntry list"
  bdBroken :: bool

text \<open>\<open>writeTarFile\<close> with \<open>readerWithContext\<close>: the header, and the data as long as the context lives.  The
  tar writer refuses data that are longer or shorter than the header says.\<close>

definition writeTarFile :: "string \<Rightarrow> nat \<Rightarrow> string \<Rightarrow> ('z env_scheme, tarEntry) prog" where
  "writeTarFile name sz data =
     bind call (\<lambda>_.
     bind ctxCheck (\<lambda>_.
     bind call (\<lambda>_.
     if length data > sz then throw (Msg ''archive/tar: write too long'')
     else if length data < sz then throw (Msg ''archive/tar: missed writing bytes'')
     else ret \<lparr>teName = name, teIsDir = False, teRegular = True, teSize = sz, teData = data, teCut = False\<rparr>)))"

definition manifestOf :: "Snapshot \<Rightarrow> string \<Rightarrow> snapshotBundleManifest" where
  "manifestOf snapshot content =
     \<lparr>mfFormat = snapshotBundleFormat, mfName = snapName snapshot, mfSourceVM = snapSourceVM snapshot,
      mfBaseImageID = snapBaseImageID snapshot, mfKernelID = snapKernelID snapshot,
      mfBaseImageMetadata = snapshotMetadataJSON (snapBaseImageMetadata snapshot),
      mfDisk = snapshotBundleDiskName, mfDiskSize = int (length content), mfCreatedAt = snapCreatedAt snapshot\<rparr>"

definition ExportSnapshot :: "string \<Rightarrow> ('z store_scheme, snapshotBundle) prog" where
  "ExportSnapshot name =
     (if name = [] then throw (Msg ''snapshot name is required'') else
     bind ctxCheck (\<lambda>_.
     bind (GetSnapshot name) (\<lambda>snapshot.
     if snapStatePath snapshot \<noteq> [] \<or> snapMemPath snapshot \<noteq> []
     then throw (Wrap ''only disk snapshots can be exported'' (Sentinel ErrUnsupportedSnapshotExport)) else
     bind (wrapping ''snapshot disk'' (osStat (snapDiskPath snapshot))) (\<lambda>diskInfo.
     case diskInfo of
       Dir \<Rightarrow> throw (Msg ''snapshot disk is not a regular file'')
     | File content \<Rightarrow>
     bind (fromSum (marshalManifest (manifestOf snapshot content))) (\<lambda>text.
     let manifestData = text @ [CHR 0x0A] in
     bind (osReadFile (snapDiskPath snapshot)) (\<lambda>disk.
     bind (writeTarFile snapshotBundleManifestName (length manifestData) manifestData) (\<lambda>e1.
     bind (writeTarFile snapshotBundleDiskName (length content) disk) (\<lambda>e2.
     bind call (\<lambda>_.
     bind call (\<lambda>_.
     ret \<lparr>bdGzip = True, bdEntries = [e1, e2], bdBroken = False\<rparr>))))))))))"

definition cleanBundlePath :: "string \<Rightarrow> err + string" where
  "cleanBundlePath name =
     (if name = [] \<or> isAbs name then Inl (Wrap ''unsafe path'' (Sentinel ErrInvalidSnapshotBundle)) else
      let clean = trimPrefix (pathClean name) ''./'' in
      if clean = ''.'' \<or> clean = ''..'' \<or> hasPrefix clean ''../''
      then Inl (Wrap ''unsafe path'' (Sentinel ErrInvalidSnapshotBundle)) else Inr clean)"

definition invalidBundle :: "string \<Rightarrow> err" where
  "invalidBundle m = Wrap m (Sentinel ErrInvalidSnapshotBundle)"

text \<open>The disk entry: create the file, copy the data, close it.\<close>

definition unpackDisk :: "string \<Rightarrow> tarEntry \<Rightarrow> ('z fsys_scheme, unit) prog" where
  "unpackDisk diskFile e =
     bind (osCreateExcl diskFile) (\<lambda>_.
     bind (attempt (transfer diskFile (teData e))) (\<lambda>copied.
     bind (attempt call) (\<lambda>closed.
     case copied of Inl x \<Rightarrow> throw x | Inr _ \<Rightarrow>
     (if teCut e then throw (Msg ''unexpected EOF'') else fromSum closed))))"

text \<open>The loop over the entries, with the manifest and the two flags.\<close>

fun unpackEntries :: "string \<Rightarrow> bool \<Rightarrow> tarEntry list \<Rightarrow> snapshotBundleManifest \<Rightarrow> bool \<Rightarrow> bool \<Rightarrow>
    ('z fsys_scheme, snapshotBundleManifest \<times> bool \<times> bool) prog" where
  "unpackEntries diskFile broken [] manifest manifestSeen diskSeen =
     bind ctxCheck (\<lambda>_.
     if broken then throw (invalidBundle ''read tar entry'') else ret (manifest, manifestSeen, diskSeen))"
| "unpackEntries diskFile broken (e # es) manifest manifestSeen diskSeen =
     bind ctxCheck (\<lambda>_.
     bind (fromSum (cleanBundlePath (teName e))) (\<lambda>name.
     if teIsDir e then
       (if teCut e then throw (invalidBundle ''read tar entry'')
        else unpackEntries diskFile broken es manifest manifestSeen diskSeen)
     else if \<not> teRegular e then throw (invalidBundle ''unsupported tar entry'')
     else if name = snapshotBundleManifestName then
       (if manifestSeen then throw (invalidBundle ''duplicate manifest'')
        else if teSize e > 1024 * 1024 then throw (invalidBundle ''manifest is too large'')
        else if teCut e then throw (Msg ''unexpected EOF'')
        else case unmarshalManifest (teData e) of
            Inl _ \<Rightarrow> throw (invalidBundle ''parse manifest'')
          | Inr m \<Rightarrow> unpackEntries diskFile broken es m True diskSeen)
     else if name = snapshotBundleDiskName then
       (if diskSeen then throw (invalidBundle ''duplicate disk'')
        else bind (unpackDisk diskFile e) (\<lambda>_. unpackEntries diskFile broken es manifest manifestSeen True))
     else throw (invalidBundle ''unexpected file'')))"

definition unpackSnapshotBundle :: "snapshotBundle \<Rightarrow> string \<Rightarrow> ('z fsys_scheme, snapshotBundleManifest) prog" where
  "unpackSnapshotBundle b diskFile =
     (if \<not> bdGzip b then throw (invalidBundle ''read gzip stream'') else
     bind (unpackEntries diskFile (bdBroken b) (bdEntries b) emptyManifest False False) (\<lambda>(manifest, manifestSeen, diskSeen).
     if \<not> manifestSeen then throw (invalidBundle ''missing manifest'')
     else if mfFormat manifest \<noteq> snapshotBundleFormat then throw (invalidBundle ''unsupported format'')
     else if mfDisk manifest \<noteq> snapshotBundleDiskName then throw (invalidBundle ''manifest disk'')
     else if \<not> diskSeen then throw (invalidBundle ''missing disk'')
     else bind (osStat diskFile) (\<lambda>diskInfo.
     if mfDiskSize manifest \<noteq> 0 \<and> nodeSize diskInfo \<noteq> mfDiskSize manifest
     then throw (invalidBundle ''disk size mismatch'') else ret manifest)))"

text \<open>A deferred clean-up that a success switches off.\<close>

definition onError :: "('s, 'b) prog \<Rightarrow> ('s, 'a) prog \<Rightarrow> ('s, 'a) prog" where
  "onError d m = bind (attempt m) (\<lambda>r. case r of Inr x \<Rightarrow> ret x | Inl e \<Rightarrow> bind (ignoring d) (\<lambda>_. throw e))"

definition osMkdirTemp :: "string \<Rightarrow> string \<Rightarrow> ('z fsys_scheme, string) prog" where
  "osMkdirTemp dir pre =
     (if CHR ''/'' \<in> set pre then throw (Msg ''pattern contains path separator'') else osTemp Dir dir pre [])"

definition importedMetadata :: "snapshotBundleManifest \<Rightarrow> string" where
  "importedMetadata m = (if mfBaseImageMetadata m \<noteq> [] \<and> mfBaseImageMetadata m \<noteq> ''null'' then mfBaseImageMetadata m else [])"

text \<open>The part of an import that works in the temporary directory.\<close>

definition unpackAndMove :: "string \<Rightarrow> string \<Rightarrow> snapshotBundle \<Rightarrow> ('z fsys_scheme, snapshotBundleManifest) prog" where
  "unpackAndMove tmp dir b = onError (osRemoveAll tmp)
     (bind (unpackSnapshotBundle b (pathJoin [tmp, snapshotBundleDiskName])) (\<lambda>m.
      bind (osRename tmp dir) (\<lambda>_. ret m)))"

text \<open>The part that enters the unpacked snapshot into the table.\<close>

definition registerImport :: "snapshotLayout \<Rightarrow> string \<Rightarrow> snapshotBundleManifest \<Rightarrow> ('z store_scheme, Snapshot) prog" where
  "registerImport layout name manifest =
     bind (attempt (CreateSnapshot \<lparr>csName = name, csSourceVMUUID = [], csSourceVM = mfSourceVM manifest, csStatePath = [],
       csMemPath = [], csDiskPath = snDiskPath layout, csBaseImageID = mfBaseImageID manifest,
       csKernelID = mfKernelID manifest, csBaseImageMetadata = importedMetadata manifest\<rparr>)) (\<lambda>created.
     case created of
       Inr snapshot \<Rightarrow> ret snapshot
     | Inl e \<Rightarrow>
     bind (ignoring (osRemoveAll (snDir layout))) (\<lambda>_.
     if contains (toLower (errText e)) ''unique'' then throw (Wrap ''snapshot'' (Sentinel ErrAlreadyExists))
     else throw e))"

definition ImportSnapshot :: "Config \<Rightarrow> string \<Rightarrow> snapshotBundle \<Rightarrow> ('z store_scheme, Snapshot) prog" where
  "ImportSnapshot cfg name b =
     (if name = [] then throw (Msg ''snapshot name is required'') else
     bind (SnapshotExists name) (\<lambda>ex.
     if ex then throw (Wrap ''snapshot'' (Sentinel ErrAlreadyExists)) else
     let layout = snapshotLayoutOf cfg name in
     bind (attempt (osStat (snDir layout))) (\<lambda>st.
     case st of
       Inr _ \<Rightarrow> throw (Wrap ''snapshot directory'' (Sentinel ErrAlreadyExists))
     | Inl e \<Rightarrow>
     if \<not> isNotExist e then throw e else
     bind (osMkdirAll (pathDir (snDir layout))) (\<lambda>_.
     bind (osMkdirTemp (pathDir (snDir layout)) (''.'' @ name @ ''.import-'')) (\<lambda>tmpDir.
     bind (unpackAndMove tmpDir (snDir layout) b) (registerImport layout name))))))"

section \<open>The manifest round trip\<close>


lemma topMembers_join:
  assumes "\<And>k v r. (k, v) \<in> set kvs \<Longrightarrow> wfKey k \<and> (stops r \<longrightarrow> readValue (f v @ r) = Some (v, r)) \<and> skipWS (f v @ r) = f v @ r"
    and "blank ws" "blank ws'" "blank sep" and "kvs \<noteq> []" "length kvs \<le> n"
  shows "topMembers n (join (map (\<lambda>(k, v). k @ '':'' @ sep @ f v) kvs) ('','' @ ws) @ ws' @ ''}'' @ r) = map (\<lambda>(k, v). (k, f v)) kvs"
  using assms(5,1,6)
proof (induction kvs arbitrary: n rule: list_nonempty_induct)
  case (single kv)
  obtain k v where kv: "kv = (k, v)" by fastforce
  have v: "wfKey k" "readValue (f v @ ws' @ ''}'' @ r) = Some (v, ws' @ ''}'' @ r)" "skipWS (f v @ ws' @ ''}'' @ r) = f v @ ws' @ ''}'' @ r"
    using single(1) [of k v "ws' @ ''}'' @ r"] stops_blank [OF assms(3), of "CHR ''}''" r] kv by auto
  obtain b where "k = CHR 0x22 # b" "scanString b = Some (b, [])" using v(1) by (rule wfKey_cases)
  then show ?case
    using v(2,3) single(2) scanString_split [of b b "[]"]
    by (cases n) (simp_all add: kv after_mark jsonSpace_def skipWS_blank [OF assms(4)] after_blank [OF assms(3)])
next
  case (cons kv kvs)
  obtain k v where kv: "kv = (k, v)" by fastforce
  obtain n' where n: "n = Suc n'" "length kvs \<le> n'" using cons.prems(2) by (cases n) auto
  let ?rest = "join (map (\<lambda>(k, v). k @ '':'' @ sep @ f v) kvs) ('','' @ ws) @ ws' @ ''}'' @ r"
  have v: "wfKey k" "readValue (f v @ CHR '','' # ws @ ?rest) = Some (v, CHR '','' # ws @ ?rest)"
      "skipWS (f v @ CHR '','' # ws @ ?rest) = f v @ CHR '','' # ws @ ?rest"
    using cons.prems(1) [of k v "CHR '','' # ws @ ?rest"] kv by (auto simp: stops_mark)
  have "topMembers n' ?rest = map (\<lambda>(k, v). (k, f v)) kvs"
    using n(2) by (rule cons.IH [rotated], intro cons.prems(1)) simp
  moreover have "topMembers n' (ws @ x) = topMembers n' x" for x
    by (cases n') (simp_all add: after_blank [OF assms(2)])
  moreover obtain b where "k = CHR 0x22 # b" "scanString b = Some (b, [])" using v(1) by (rule wfKey_cases)
  ultimately show ?case
    using v(2,3) cons.hyps scanString_split [of b b "[]"]
    by (simp add: n kv join_Cons after_mark jsonSpace_def skipWS_blank [OF assms(4)])
qed

lemma decodeFields_append:
  "decodeFields m (xs @ ys) = (case decodeFields m xs of Inl e \<Rightarrow> Inl e | Inr m' \<Rightarrow> decodeFields m' ys)"
  by (induction xs arbitrary: m) (auto split: sum.splits)

lemma indentRaw_solid: "wfRaw v \<Longrightarrow> skipWS (indentRaw d v @ r) = indentRaw d v @ r"
  using layout_starts [of v newline "'' ''" d] by (auto simp: indentRaw_def skipWS_def)

lemma unmarshal_object:
  assumes "wfRaw (RObj kvs)" "kvs \<noteq> []"
  shows "unmarshalManifest (indentRaw 0 (RObj kvs) @ [CHR 0x0A]) = decodeFields emptyManifest (map (\<lambda>(k, v). (k, indentRaw 1 v)) kvs)"
proof -
  let ?data = "indentRaw 0 (RObj kvs) @ [CHR 0x0A]"
  let ?body = "join (map (\<lambda>(k, v). k @ '':'' @ '' '' @ indentRaw 1 v) kvs) ('','' @ newline 1) @ newline 0 @ ''}'' @ [CHR 0x0A]"
  have "after (CHR ''{'') ?data = Some (newline 1 @ ?body)"
    using assms(2) by (simp add: indentRaw_def after_marks)
  moreover have "topMembers n (newline 1 @ x) = topMembers n x" for n x
    by (cases n) (simp_all add: after_blank [OF blank_newline(1)])
  moreover have "length (join ls sep) \<ge> length ls" if "\<forall>l \<in> set ls. l \<noteq> []" for ls and sep :: string
    using that
  proof (induction ls sep rule: join.induct)
    case (3 w v va sep)
    then show ?case by (cases w) auto
  qed (auto simp: Suc_le_eq)
  from this [of "map (\<lambda>(k, v). k @ '':'' @ '' '' @ indentRaw 1 v) kvs" "'','' @ newline 1"]
  have "length kvs \<le> length (join (map (\<lambda>(k, v). k @ '':'' @ '' '' @ indentRaw 1 v) kvs) ('','' @ newline 1))"
    by (simp add: split_beta)
  then have "length kvs \<le> length ?data"
    using assms(2) by (simp add: indentRaw_def)
  then have "topMembers (length ?data) ?body = map (\<lambda>(k, v). (k, indentRaw 1 v)) kvs"
    using assms indentRaw_read [where d = 1] indentRaw_solid [where d = 1]
    by (intro topMembers_join blank_newline) (auto simp: list_all_iff)
  moreover have "parseRaw ?data = Some (RObj kvs)"
    using parseRaw_layout(1) [OF assms(1), of "[CHR 0x0A]" 0] by (simp add: blank_def jsonSpace_def)
  ultimately show ?thesis by (simp add: unmarshalManifest_def)
qed


lemma manifest_keys:
  "toLower ''format'' = ''format''" "toLower ''name'' = ''name''" "toLower ''source_vm'' = ''source_vm''"
  "toLower ''base_image_id'' = ''base_image_id''" "toLower ''kernel_id'' = ''kernel_id''"
  "toLower ''base_image_metadata'' = ''base_image_metadata''" "toLower ''disk'' = ''disk''"
  "toLower ''disk_size'' = ''disk_size''" "toLower ''created_at'' = ''created_at''"
  by (simp_all add: toLower_def asciiLower_def)

lemma decode_quoted: "decodeStr old (quoteJSON v) = Inr v"
  by (simp add: decodeStr_def quoteJSON_literal(3)) (simp add: quoteJSON_def)

lemma decode_itoa: "- (2 ^ 63) \<le> i \<Longrightarrow> i < 2 ^ 63 \<Longrightarrow> decodeInt old (itoa i) = Inr i"
  using parseInt_itoa [of i] by (auto simp: decodeInt_def parseInt_def decNat.simps digitVal_def split: if_splits)

lemma decodeField_members:
  "decodeField m (quoteJSON ''format'', quoteJSON v) = Inr (m\<lparr>mfFormat := v\<rparr>)"
  "decodeField m (quoteJSON ''name'', quoteJSON v) = Inr (m\<lparr>mfName := v\<rparr>)"
  "decodeField m (quoteJSON ''source_vm'', quoteJSON v) = Inr (m\<lparr>mfSourceVM := v\<rparr>)"
  "decodeField m (quoteJSON ''base_image_id'', quoteJSON v) = Inr (m\<lparr>mfBaseImageID := v\<rparr>)"
  "decodeField m (quoteJSON ''kernel_id'', quoteJSON v) = Inr (m\<lparr>mfKernelID := v\<rparr>)"
  "decodeField m (quoteJSON ''base_image_metadata'', t) = Inr (m\<lparr>mfBaseImageMetadata := t\<rparr>)"
  "decodeField m (quoteJSON ''disk'', quoteJSON v) = Inr (m\<lparr>mfDisk := v\<rparr>)"
  "decodeField m (quoteJSON ''created_at'', quoteJSON v) = Inr (m\<lparr>mfCreatedAt := v\<rparr>)"
  by (simp_all add: decodeField_def quoteJSON_literal(3) manifest_keys decode_quoted mapSum_def)

lemma decodeField_size:
  "- (2 ^ 63) \<le> i \<Longrightarrow> i < 2 ^ 63 \<Longrightarrow> decodeField m (quoteJSON ''disk_size'', itoa i) = Inr (m\<lparr>mfDiskSize := i\<rparr>)"
  by (simp add: decodeField_def quoteJSON_literal(3) manifest_keys decode_itoa mapSum_def)

lemma wf_members: "list_all wfRaw vs \<Longrightarrow> wfRaw (RObj (manifestMembers m vs))"
  using itoa_literal quoteJSON_literal
  by (auto simp: manifestMembers_def strMember_def omitEmptyStr_def list_all_iff)

text \<open>Decoding what was encoded gives the manifest again, with the metadata laid out as a member.\<close>

lemma decodeFields_members:
  assumes lit: "\<And>t. g (RLit t) = t" and "- (2 ^ 63) \<le> mfDiskSize m" "mfDiskSize m < 2 ^ 63" "length vs \<le> 1"
  shows "decodeFields emptyManifest (map (\<lambda>(k, v). (k, g v)) (manifestMembers m vs)) =
     Inr (m\<lparr>mfBaseImageMetadata := concat (map g vs)\<rparr>)"
proof -
  have opt: "decodeFields n (map (\<lambda>(k, v). (k, g v)) (omitEmptyStr k v)) = Inr (if v = [] then n else f n)"
    if "decodeField n (quoteJSON k, quoteJSON v) = Inr (f n)" for n k v f
    using that by (simp add: omitEmptyStr_def strMember_def lit)
  have md: "decodeFields n (map (\<lambda>(k, v). (k, g v)) (map (Pair (quoteJSON ''base_image_metadata'')) vs)) =
      Inr (if vs = [] then n else n\<lparr>mfBaseImageMetadata := concat (map g vs)\<rparr>)" for n
    using assms(4) by (cases vs) (auto simp: decodeField_members simp del: map_map)
  show ?thesis
    unfolding manifestMembers_def map_append decodeFields_append
    by (simp del: map_map add: strMember_def lit decodeField_members decodeField_size [OF assms(2,3)] md
        opt [where f = "\<lambda>n. n\<lparr>mfSourceVM := mfSourceVM m\<rparr>"] opt [where f = "\<lambda>n. n\<lparr>mfBaseImageID := mfBaseImageID m\<rparr>"]
        opt [where f = "\<lambda>n. n\<lparr>mfKernelID := mfKernelID m\<rparr>"] opt [where f = "\<lambda>n. n\<lparr>mfCreatedAt := mfCreatedAt m\<rparr>"])
      (auto simp: emptyManifest_def)
qed


lemma escapeHTML_idem: "escapeLit (escapeLit t) = escapeLit t"
proof -
  have "c \<notin> set ''<>&''" if "c \<in> set (escapeChar d)" for c d
    using that hexVal_not_html by (cases d rule: escapeChar_kinds) auto
  then have "escapeHTML (escapeHTML s) = escapeHTML s" for s
    by (intro escapeText_plain) (auto simp: escapeHTML_def split: if_splits)
  then show ?thesis by (auto simp: escapeLit_def)
qed

lemma mapLiterals_idem: "mapLiterals escapeLit (mapLiterals escapeLit v) = mapLiterals escapeLit v"
  by (induction v) (auto simp: escapeHTML_idem)

text \<open>The JSON document of a metadata text, as the encoder sees it.\<close>

definition document :: "string \<Rightarrow> raw" where
  "document j = (if j = [] then RLit ''null'' else
     case parseRaw j of Some v \<Rightarrow> mapLiterals escapeLit v | None \<Rightarrow> RLit (quoteJSON j))"

lemma null_literal: "wfRaw (RLit ''null'')" "mapLiterals escapeLit (RLit ''null'') = RLit ''null''" "parseRaw ''null'' = Some (RLit ''null'')"
proof -
  show w: "wfRaw (RLit ''null'')" by (simp add: scanLiteral_def fixedWord_def)
  show "mapLiterals escapeLit (RLit ''null'') = RLit ''null''" by (simp add: escapeLit_def)
  show "parseRaw ''null'' = Some (RLit ''null'')"
    using parseRaw_layout(2) [OF w blank_newline(2)] by (simp add: compactRaw_def)
qed

lemma document_wf: "wfRaw (document j)" "mapLiterals escapeLit (document j) = document j"
  using quoteJSON_literal(2) [of j] null_literal
  by (simp_all add: document_def escapeLit_quote wfRaw_escape parseRaw_wf mapLiterals_idem split: option.split)

lemma JSONText_document: "JSONText_Marshal j = compactRaw (document j)"
  by (auto simp: JSONText_Marshal_def document_def compactRaw_def split: option.splits)

lemma compactRaw_inj: "wfRaw v \<Longrightarrow> wfRaw w \<Longrightarrow> compactRaw v = compactRaw w \<Longrightarrow> v = w"
  using parseRaw_layout(2) [OF _ blank_newline(2)] by (metis option.inject)

lemma compactRaw_nonempty: "wfRaw v \<Longrightarrow> compactRaw v \<noteq> []"
  using layout_starts [of v "\<lambda>_. []" "[]" 0] by (auto simp: compactRaw_def)

lemma indentRaw_nonempty: "wfRaw v \<Longrightarrow> indentRaw d v \<noteq> []"
  using layout_starts [of v newline "'' ''" d] by (auto simp: indentRaw_def)

lemma snapshotMetadataJSON_eq: "snapshotMetadataJSON j = (if document j = RLit ''null'' then [] else compactRaw (document j))"
proof -
  have "compactRaw (document j) = ''null'' \<longleftrightarrow> document j = RLit ''null''"
    using compactRaw_inj [of "document j" "RLit ''null''"] document_wf(1) [of j]
    by (auto simp: compactRaw_def scanLiteral_def fixedWord_def)
  then show ?thesis by (simp add: snapshotMetadataJSON_def JSONText_document Let_def)
qed

lemma document_indent:
  assumes "wfRaw v" "mapLiterals escapeLit v = v"
  shows "document (indentRaw d v) = v"
  using parseRaw_layout(1) [OF assms(1), of "[]" d] assms indentRaw_nonempty [OF assms(1), of d]
  by (simp add: document_def blank_newline)

text \<open>The manifest that an export writes is accepted by an import, which finds the same document.\<close>

lemma manifest_roundtrip:
  assumes "int (length content) < 2 ^ 63"
  obtains enc m where "marshalManifest (manifestOf sn content) = Inr enc" "unmarshalManifest (enc @ [CHR 0x0A]) = Inr m"
    "mfFormat m = snapshotBundleFormat" "mfDisk m = snapshotBundleDiskName" "mfDiskSize m = int (length content)"
    "mfSourceVM m = snapSourceVM sn" "mfBaseImageID m = snapBaseImageID sn" "mfKernelID m = snapKernelID sn"
    "snapshotMetadataJSON (importedMetadata m) = snapshotMetadataJSON (snapBaseImageMetadata sn)"
proof -
  let ?m = "manifestOf sn content" and ?d = "document (snapBaseImageMetadata sn)"
  define vs where "vs = (if ?d = RLit ''null'' then [] else [?d])"
  have wf: "list_all wfRaw vs" using document_wf(1) by (simp add: vs_def)
  have "mfBaseImageMetadata ?m = (if ?d = RLit ''null'' then [] else compactRaw ?d)"
    by (simp add: manifestOf_def snapshotMetadataJSON_eq)
  then have mar: "marshalManifest ?m = Inr (indentRaw 0 (RObj (manifestMembers ?m vs)))"
    using parseRaw_layout(2) [OF document_wf(1) blank_newline(2)] compactRaw_nonempty [OF document_wf(1)]
    by (auto simp: marshalManifest_def vs_def document_wf(2))
  have lit: "indentRaw 1 (RLit t) = t" for t by (simp add: indentRaw_def)
  have "manifestMembers ?m vs \<noteq> []" by (simp add: manifestMembers_def strMember_def)
  then have un: "unmarshalManifest (indentRaw 0 (RObj (manifestMembers ?m vs)) @ [CHR 0x0A]) =
      Inr (?m\<lparr>mfBaseImageMetadata := concat (map (indentRaw 1) vs)\<rparr>)"
    using unmarshal_object [OF wf_members [OF wf]] decodeFields_members [of "indentRaw 1" ?m vs, OF lit] assms
    by (auto simp: manifestOf_def vs_def)
  have again: "document (indentRaw 1 ?d) = ?d" by (rule document_indent [OF document_wf])
  have nul: "document ''null'' = RLit ''null''" "document [] = RLit ''null''"
    using null_literal by (simp_all add: document_def)
  have ne: "indentRaw 1 ?d \<noteq> []" by (rule indentRaw_nonempty [OF document_wf(1)])
  have "document (importedMetadata (?m\<lparr>mfBaseImageMetadata := concat (map (indentRaw 1) vs)\<rparr>)) = ?d"
  proof (cases "?d = RLit ''null''")
    case True
    then show ?thesis by (simp add: importedMetadata_def vs_def nul)
  next
    case False
    then have "indentRaw 1 ?d \<noteq> ''null''" using again nul by metis
    then show ?thesis using False again ne by (simp add: importedMetadata_def vs_def)
  qed
  then have "snapshotMetadataJSON (importedMetadata (?m\<lparr>mfBaseImageMetadata := concat (map (indentRaw 1) vs)\<rparr>)) =
      snapshotMetadataJSON (snapBaseImageMetadata sn)"
    by (simp only: snapshotMetadataJSON_eq)
  then show thesis by (intro that [OF mar un]) (simp_all add: manifestOf_def)
qed

end
