(* ===== verification/Snapshot_Results.thy ===== *)
theory Snapshot_Results
  imports Snapshot_Bundle Paths Requests
begin

text \<open>
  What an import may change and what it returns, for every bundle and every failure of the host, and
  the round trip of an export and an import.
\<close>


section \<open>Unpacking\<close>

lemma wp_onError: "wp (onError d m) Q E s = wp m Q (\<lambda>e. wp d (\<lambda>_. E e) (\<lambda>_. E e)) s"
  by (simp add: onError_def wp_def bind_def attempt_def ret_def throw_def ignoring_def split: prod.split sum.split)

lemma unpackEntries_keeps:
  assumes "keeps I ctxCheck" and "\<And>e. keeps I (unpackDisk f e)"
  shows "keeps I (unpackEntries f br es m ms ds)"
proof (induction es arbitrary: m ms ds)
  case Nil
  then show ?case using assms by (auto intro!: keeps_rules)
next
  case (Cons e es)
  then show ?case using assms by (auto intro!: keeps_rules split: sum.split)
qed

lemma unpackSnapshotBundle_keeps:
  assumes "keeps I ctxCheck" and "\<And>e. keeps I (unpackDisk f e)" and "keeps I (osStat f)"
  shows "keeps I (unpackSnapshotBundle b f)"
  unfolding unpackSnapshotBundle_def
  using assms by (auto intro!: keeps_rules unpackEntries_keeps split: prod.split)

text \<open>An entry that may be taken as the manifest or as the disk.\<close>

definition entryFor :: "string \<Rightarrow> tarEntry \<Rightarrow> bool" where
  "entryFor n e \<longleftrightarrow> cleanBundlePath (teName e) = Inr n \<and> teRegular e \<and> \<not> teIsDir e \<and> \<not> teCut e"

definition unpacked :: "string \<Rightarrow> tarEntry list \<Rightarrow> snapshotBundleManifest \<Rightarrow> bool \<Rightarrow> bool \<Rightarrow> 'z fsys_scheme \<Rightarrow> bool" where
  "unpacked f es m ms ds t \<longleftrightarrow>
     (ms \<longrightarrow> (\<exists>e \<in> set es. entryFor snapshotBundleManifestName e \<and> unmarshalManifest (teData e) = Inr m)) \<and>
     (if ds then \<exists>e \<in> set es. entryFor snapshotBundleDiskName e \<and> look t f = Some (File (teData e)) else look t f = None)"

lemma unpacked_outcomes: "unpacked f es m ms ds (t\<lparr>outcomes := rs\<rparr>) = unpacked f es m ms ds t"
  by (simp add: unpacked_def)

lemma unpackDisk_stores:
  "wp (unpackDisk f e) (\<lambda>_ t. look t f = Some (File (teData e)) \<and> \<not> teCut e) (\<lambda>_ _. True) s"
  unfolding unpackDisk_def wp_bind wp_attempt
  by (intro wp_osCreateExcl wp_transfer wp_call_frame TrueI) (auto simp: wp_rules intro!: wp_call_frame)

lemma unpackEntries_sound:
  fixes s :: "'z fsys_scheme"
  assumes "set es \<subseteq> set all" and "unpacked f all m ms ds s"
  shows "wp (unpackEntries f br es m ms ds)
     (\<lambda>(m', ms', ds') t. unpacked f all m' ms' ds' t \<and>
        (\<forall>e \<in> set es. \<exists>n. cleanBundlePath (teName e) = Inr n \<and> (teIsDir e \<or> n \<in> {snapshotBundleManifestName, snapshotBundleDiskName})))
     (\<lambda>_ _. True) s"
  using assms
proof (induction es arbitrary: m ms ds s)
  case Nil
  then show ?case by (auto simp: wp_rules unpacked_outcomes intro!: wp_ctxCheck_frame)
next
  case (Cons e es)
  define Q where "Q = (\<lambda>(m', ms', ds') (t :: 'z fsys_scheme). unpacked f all m' ms' ds' t \<and>
        (\<forall>e \<in> set (e # es). \<exists>n. cleanBundlePath (teName e) = Inr n \<and> (teIsDir e \<or> n \<in> {snapshotBundleManifestName, snapshotBundleDiskName})))"
  have rest: "wp (unpackEntries f br es m ms ds) Q (\<lambda>_ _. True) t"
    if "unpacked f all m ms ds t" "cleanBundlePath (teName e) = Inr n" "teIsDir e \<or> n \<in> {snapshotBundleManifestName, snapshotBundleDiskName}"
    for m ms ds n and t :: "'z fsys_scheme"
    using Cons.prems(1) that by (intro wp_mono [OF Cons.IH [of m ms ds t]]) (auto simp: Q_def)
  have disk: "wp (bind (unpackDisk f e) (\<lambda>_. unpackEntries f br es m ms True)) Q (\<lambda>_ _. True) t"
    if "cleanBundlePath (teName e) = Inr snapshotBundleDiskName" "teRegular e" "\<not> teIsDir e" "unpacked f all m ms ds t" for t :: "'z fsys_scheme"
    using that Cons.prems(1)
    by (intro wp_seq [OF unpackDisk_stores] rest TrueI) (auto simp: unpacked_def entryFor_def)
  have man: "unpacked f all m' True d t"
    if "unpacked f all m ms d t" "cleanBundlePath (teName e) = Inr snapshotBundleManifestName" "teRegular e" "\<not> teIsDir e" "\<not> teCut e"
      "unmarshalManifest (teData e) = Inr m'"
    for m m' ms d and t :: "'z fsys_scheme"
    using that Cons.prems(1) by (auto simp: unpacked_def entryFor_def)
  show ?case
    unfolding Q_def [symmetric] unpackEntries.simps wp_bind [of ctxCheck] wp_bind [of "fromSum _"] wp_fromSum
    using Cons.prems disk
    by (intro wp_ctxCheck_frame TrueI)
      (auto simp: wp_throw unpacked_outcomes split: sum.split intro!: rest intro: man)
qed

text \<open>What is known of a bundle that was accepted: every entry is a directory or one of the two files,
  the manifest was read from one of them and the disk is the data of the other.\<close>

definition genuine :: "snapshotBundle \<Rightarrow> snapshotBundleManifest \<Rightarrow> string \<Rightarrow> bool" where
  "genuine b m content \<longleftrightarrow>
     (\<exists>e \<in> set (bdEntries b). entryFor snapshotBundleManifestName e \<and> unmarshalManifest (teData e) = Inr m) \<and>
     (\<exists>e \<in> set (bdEntries b). entryFor snapshotBundleDiskName e \<and> teData e = content) \<and>
     (\<forall>e \<in> set (bdEntries b). \<exists>n. cleanBundlePath (teName e) = Inr n \<and> (teIsDir e \<or> n \<in> {snapshotBundleManifestName, snapshotBundleDiskName})) \<and>
     mfFormat m = snapshotBundleFormat \<and> mfDisk m = snapshotBundleDiskName \<and>
     (mfDiskSize m = 0 \<or> mfDiskSize m = int (length content))"

lemma unpackSnapshotBundle_genuine:
  fixes s :: "'z fsys_scheme"
  assumes "look s f = None"
  shows "wp (unpackSnapshotBundle b f) (\<lambda>m t. \<exists>content. look t f = Some (File content) \<and> genuine b m content) (\<lambda>_ _. True) s"
proof -
  have "unpacked f (bdEntries b) emptyManifest False False s" using assms by (simp add: unpacked_def)
  note entries = unpackEntries_sound [OF subset_refl this, of "bdBroken b"]
  show ?thesis
  proof (cases "bdGzip b")
    case True
    then show ?thesis
      unfolding unpackSnapshotBundle_def
      by (simp, intro wp_seq [OF entries])
        (auto intro!: wp_osStat simp: wp_rules unpacked_def genuine_def nodeSize_def, blast+)
  qed (simp add: unpackSnapshotBundle_def wp_throw)
qed


section \<open>Paths of an import\<close>

definition importDir :: "Config \<Rightarrow> string list" where
  "importDir cfg = elems (cfgStateDir cfg) @ [''snapshots'']"

lemma snapshotLayout_rendered:
  assumes "isAbs (cfgStateDir cfg)" "plainElem name"
  shows "snDir (snapshotLayoutOf cfg name) = rendered (importDir cfg @ [name])"
    "pathDir (snDir (snapshotLayoutOf cfg name)) = rendered (importDir cfg)"
    "snDiskPath (snapshotLayoutOf cfg name) = rendered (importDir cfg @ [name, snapshotBundleDiskName])"
    "plainElems (importDir cfg)" "importDir cfg \<noteq> []"
proof -
  have p: "plainElem ''snapshots''" "plainElem ''rootfs.ext4''" by (simp_all add: plainElem_def)
  show e: "plainElems (importDir cfg)" "importDir cfg \<noteq> []" using p elems_plain [OF assms(1)] by (simp_all add: importDir_def)
  show d: "snDir (snapshotLayoutOf cfg name) = rendered (importDir cfg @ [name])"
    using pathJoin_rendered [OF assms(1), of "[''snapshots'', name]"] assms(2) p by (simp add: snapshotLayoutOf_def Let_def importDir_def)
  show "pathDir (snDir (snapshotLayoutOf cfg name)) = rendered (importDir cfg)"
    unfolding d using assms(2) e by (intro pathDir_rendered) simp_all
  have "snDiskPath (snapshotLayoutOf cfg name) = pathJoin [snDir (snapshotLayoutOf cfg name), ''rootfs.ext4'']"
    by (simp add: snapshotLayoutOf_def Let_def)
  then show "snDiskPath (snapshotLayoutOf cfg name) = rendered (importDir cfg @ [name, snapshotBundleDiskName])"
    using pathJoin_rendered [of "rendered (importDir cfg @ [name])" "[''rootfs.ext4'']"] e assms(2) p
    by (simp add: d snapshotBundleDiskName_def)
qed

lemma temp_rendered:
  assumes "cs \<noteq> []" "plainElems cs" "plainElem name"
  shows "tempPath (rendered cs) (''.'' @ name @ ''.import-'') [] k = rendered (cs @ [''.'' @ name @ ''.import-'' @ natDec k])"
    "plainElem (''.'' @ name @ ''.import-'' @ natDec k)" "''.'' @ name @ ''.import-'' @ natDec k \<noteq> name"
    "pathJoin [rendered (cs @ [''.'' @ name @ ''.import-'' @ natDec k]), snapshotBundleDiskName] =
       rendered (cs @ [''.'' @ name @ ''.import-'' @ natDec k, snapshotBundleDiskName])"
proof -
  let ?t = "''.'' @ name @ ''.import-'' @ natDec k"
  have "CHR ''/'' \<notin> set (natDec k)" using natDec_chars by blast
  then show p: "plainElem ?t" using assms(3) by (auto simp: plainElem_def)
  show "tempPath (rendered cs) (''.'' @ name @ ''.import-'') [] k = rendered (cs @ [?t])"
    using assms(1) rendered_snoc [of cs ?t] by (simp add: tempPath_def)
  have "length ?t > length name" by simp
  then show "?t \<noteq> name" by (metis less_irrefl)
  have "plainElem snapshotBundleDiskName" by (simp add: plainElem_def snapshotBundleDiskName_def)
  then show "pathJoin [rendered (cs @ [?t]), snapshotBundleDiskName] = rendered (cs @ [?t, snapshotBundleDiskName])"
    using pathJoin_rendered [of "rendered (cs @ [?t])" "[snapshotBundleDiskName]"] assms p by simp
qed


section \<open>What an import may change\<close>

lemma wp_CreateSnapshot:
  assumes "\<And>rs. \<forall>r \<in> set (snapshotsT s). sName r \<noteq> csName p \<Longrightarrow>
      Q (scanSnapshot (snapshotRowOf (sqlnow s) p)) (s\<lparr>outcomes := rs, snapshotsT := snapshotsT s @ [snapshotRowOf (sqlnow s) p]\<rparr>)"
    and "\<And>e rs. E e (s\<lparr>outcomes := rs\<rparr>)"
    and "\<And>e rs. \<forall>r \<in> set (snapshotsT s). sName r \<noteq> csName p \<Longrightarrow>
      E e (s\<lparr>outcomes := rs, snapshotsT := snapshotsT s @ [snapshotRowOf (sqlnow s) p]\<rparr>)"
  shows "wp (CreateSnapshot p) Q E s"
proof -
  have found: "find (\<lambda>r. sName r = csName p) (snapshotsT s @ [snapshotRowOf (sqlnow s) p]) = Some (snapshotRowOf (sqlnow s) p)"
    if "\<forall>r \<in> set (snapshotsT s). sName r \<noteq> csName p"
  proof -
    have "find (\<lambda>r. sName r = csName p) (snapshotsT s) = None" using that by (simp add: find_None_iff)
    then show ?thesis by (simp add: find_append snapshotRowOf_def)
  qed
  have swap: "s\<lparr>outcomes := rs\<rparr>\<lparr>snapshotsT := x\<rparr>\<lparr>outcomes := rs'\<rparr> = s\<lparr>outcomes := rs', snapshotsT := x\<rparr>" for rs rs' x by simp
  show ?thesis
    unfolding CreateSnapshot_def GetSnapshot_def wp_bind
  proof (rule wp_query_frame, simp_all only: wp_if wp_throw wp_bind wp_modify)
    fix rs
    let ?c = "list_ex (\<lambda>r. sName r = csName p) (snapshotsT (s\<lparr>outcomes := rs\<rparr>))"
    show "if ?c then E (Msg ''UNIQUE constraint failed: snapshots.name'') (s\<lparr>outcomes := rs\<rparr>)
      else wp (query (\<lambda>s. find (\<lambda>r. sName r = csName p) (snapshotsT s))) (\<lambda>x. wp (case x of None \<Rightarrow> throw (Sentinel ErrNotFound)
          | Some r \<Rightarrow> ret (scanSnapshot r)) Q E) E
        (s\<lparr>outcomes := rs\<rparr>\<lparr>snapshotsT := snapshotsT (s\<lparr>outcomes := rs\<rparr>) @ [snapshotRowOf (sqlnow (s\<lparr>outcomes := rs\<rparr>)) p]\<rparr>)"
    proof (cases ?c)
      case False
      then have new: "\<forall>r \<in> set (snapshotsT s). sName r \<noteq> csName p" by (simp add: list_ex_iff)
      show ?thesis
        using False by (simp, intro wp_query_frame; unfold swap) (auto simp: found [OF new] wp_rules intro!: assms new)
    qed (simp add: assms)
  qed (rule assms)
qed

text \<open>The state \<open>t\<close> differs from \<open>s\<close> only by nodes that \<open>A\<close> allows, where there was none, and by snapshots of
  one name.\<close>

definition intact :: "(string \<Rightarrow> node \<Rightarrow> bool) \<Rightarrow> string \<Rightarrow> 'z store_scheme \<Rightarrow> 'z store_scheme \<Rightarrow> bool" where
  "intact A name s t \<longleftrightarrow> (\<forall>q. look t q = look s q \<or> look s q = None \<and> (\<exists>n. look t q = Some n \<and> A q n)) \<and>
     vmsT t = vmsT s \<and> routesT t = routesT s \<and> protectionsT t = protectionsT s \<and>
     (\<exists>rows. snapshotsT t = snapshotsT s @ rows \<and> (\<forall>r \<in> set rows. sName r = name))"

lemma intact_blind [simp]: "outcome_blind (intact A name s)"
  by (simp add: outcome_blind_def intact_def)

lemma intact_refl [simp]: "intact A name s s"
  by (simp add: intact_def)

lemma intact_files:
  assumes "intact A name s t" "\<And>q n. look s q = Some n \<Longrightarrow> look t q = Some n \<Longrightarrow> map_of fs q = Some n"
    and "\<And>q n. look s q = None \<Longrightarrow> map_of fs q = Some n \<Longrightarrow> look t q = Some n \<or> A q n"
  shows "intact A name s (t\<lparr>files := fs\<rparr>)"
proof -
  have "map_of fs q = look s q \<or> look s q = None \<and> (\<exists>n. map_of fs q = Some n \<and> A q n)" for q
  proof -
    have "look t q = look s q \<or> look s q = None \<and> (\<exists>n. look t q = Some n \<and> A q n)" using assms(1) by (simp add: intact_def)
    then show ?thesis using assms(2,3) [of q] by (cases "look s q"; cases "map_of fs q") auto
  qed
  then show ?thesis using assms(1) by (simp add: intact_def)
qed

lemma intact_outcomes [simp]: "intact A name s (t\<lparr>outcomes := rs\<rparr>) = intact A name s t"
  by (simp add: intact_def)

text \<open>A file that was not there, and a directory below which nothing was.\<close>

lemma intact_steps [keeps_rules]:
  shows "keeps (intact A name s) (osStat p)"
    "look s p = None \<Longrightarrow> (\<And>n. A p n) \<Longrightarrow> keeps (intact A name s) (osCreateExcl p)"
    "look s p = None \<Longrightarrow> (\<And>n. A p n) \<Longrightarrow> keeps (intact A name s) (transfer p c)"
    "(\<And>q. below p q \<Longrightarrow> look s q = None) \<Longrightarrow> keeps (intact A name s) (osRemoveAll p)"
    "(\<And>q. below p q \<Longrightarrow> look s q = None) \<Longrightarrow> (\<And>q. below d q \<Longrightarrow> look s q = None) \<Longrightarrow> (\<And>q n. below d q \<Longrightarrow> A q n) \<Longrightarrow>
       keeps (intact A name s) (osRename p d)"
    "(\<And>q. q \<in> set (ancestors d) \<Longrightarrow> A q Dir) \<Longrightarrow> keeps (intact A name s) (osMkdirAll d)"
proof -
  show "keeps (intact A name s) (osStat p)" by (simp add: osStat_def) (auto intro!: keeps_rules split: option.split)
  show "look s p = None \<Longrightarrow> (\<And>n. A p n) \<Longrightarrow> keeps (intact A name s) (osCreateExcl p)"
    unfolding osCreateExcl_def by (auto intro!: keeps_rules keeps_modify intact_files split: if_splits)
  show "keeps (intact A name s) (transfer p c)" if p: "look s p = None" "\<And>n. A p n"
    unfolding keeps_def
  proof (intro allI impI)
    fix t assume "intact A name s t"
    then show "intact A name s (snd (transfer p c t))"
      unfolding wp_snd [symmetric] using p by (intro wp_transfer) (auto intro!: intact_files split: if_splits)
  qed
  show "(\<And>q. below p q \<Longrightarrow> look s q = None) \<Longrightarrow> keeps (intact A name s) (osRemoveAll p)"
    unfolding osRemoveAll_def by (auto intro!: keeps_rules keeps_modify intact_files split: if_splits)
  show "(\<And>q. below p q \<Longrightarrow> look s q = None) \<Longrightarrow> (\<And>q. below d q \<Longrightarrow> look s q = None) \<Longrightarrow> (\<And>q n. below d q \<Longrightarrow> A q n) \<Longrightarrow>
      keeps (intact A name s) (osRename p d)"
    unfolding osRename_def
    by (auto intro!: keeps_rules keeps_modify intact_files simp: map_of_moveTree split: option.split if_splits)
  show "(\<And>q. q \<in> set (ancestors d) \<Longrightarrow> A q Dir) \<Longrightarrow> keeps (intact A name s) (osMkdirAll d)"
    unfolding osMkdirAll_def by (auto intro!: keeps_rules keeps_modify intact_files simp: map_of_mkdirs split: if_splits option.splits)
qed


lemma unpack_intact: "look s f = None \<Longrightarrow> (\<And>n. A f n) \<Longrightarrow> keeps (intact A name s) (unpackSnapshotBundle b f)"
  by (auto intro!: unpackSnapshotBundle_keeps intact_steps keeps_bind keeps_attempt keeps_throw keeps_fromSum keeps_call keeps_ctxCheck
      simp: unpackDisk_def split: sum.split)

lemma unpackAndMove_wp:
  fixes s :: "'z store_scheme"
  assumes tmp: "tmp \<noteq> dir" "pathJoin [tmp, snapshotBundleDiskName] = tmp @ ''/'' @ snapshotBundleDiskName"
    and free: "\<And>q. below tmp q \<Longrightarrow> look s q = None" "\<And>q. below dir q \<Longrightarrow> look s q = None"
    and allowed: "\<And>q n. below tmp q \<Longrightarrow> A q n" "\<And>q n. below dir q \<Longrightarrow> A q n"
    and t: "intact A name s t" "look t (tmp @ ''/'' @ snapshotBundleDiskName) = None"
  shows "wp (unpackAndMove tmp dir b)
     (\<lambda>m u. intact A name s u \<and> (\<exists>c. genuine b m c \<and> look u (dir @ ''/'' @ snapshotBundleDiskName) = Some (File c)))
     (\<lambda>_. intact A name s) t"
proof -
  let ?f = "tmp @ ''/'' @ snapshotBundleDiskName"
  have f: "look s ?f = None" "\<And>n. A ?f n" using free(1) allowed(1) by (simp_all add: below_iff)
  have rm: "wp (osRemoveAll tmp) (\<lambda>_. intact A name s) (\<lambda>_. intact A name s) u" if "intact A name s u" for u
    using that free(1) by (intro keeps_wp intact_steps)
  have mv: "wp (osRename tmp dir) (\<lambda>_ u. intact A name s u \<and> look u (dir @ ''/'' @ snapshotBundleDiskName) = Some (File c))
      (\<lambda>_. intact A name s) u" if u: "intact A name s u" "look u ?f = Some (File c)" for u c
  proof -
    have "wp (osRename tmp dir) (\<lambda>_. intact A name s) (\<lambda>_. intact A name s) u"
      using u(1) free allowed by (intro keeps_wp intact_steps)
    moreover have "wp (osRename tmp dir) (\<lambda>_ u. look u (dir @ ''/'' @ snapshotBundleDiskName) = Some (File c)) (\<lambda>_ _. True) u"
      using u(2) tmp(1) by (intro wp_osRename) (auto simp: map_of_moveTree below_iff)
    ultimately show ?thesis by (rule wp_mono [OF wp_conj]) auto
  qed
  have un: "wp (unpackSnapshotBundle b ?f) (\<lambda>m u. intact A name s u \<and> (\<exists>c. look u ?f = Some (File c) \<and> genuine b m c))
      (\<lambda>_. intact A name s) t"
    by (rule wp_mono [OF wp_conj [OF unpackSnapshotBundle_genuine [OF t(2)] keeps_wp [OF unpack_intact [of s ?f A, OF f] t(1)]]]) simp_all
  show ?thesis
    unfolding unpackAndMove_def wp_onError tmp(2)
  proof (rule wp_seq [OF un])
    fix m u assume "intact A name s u \<and> (\<exists>c. look u ?f = Some (File c) \<and> genuine b m c)"
    then obtain c where "intact A name s u" "look u ?f = Some (File c)" "genuine b m c" by blast
    then show "wp (bind (osRename tmp dir) (\<lambda>_. ret m))
        (\<lambda>m u. intact A name s u \<and> (\<exists>c. genuine b m c \<and> look u (dir @ ''/'' @ snapshotBundleDiskName) = Some (File c)))
        (\<lambda>e. wp (osRemoveAll tmp) (\<lambda>_. intact A name s) (\<lambda>_. intact A name s)) u"
      by (intro wp_seq [OF mv]) (auto simp: wp_ret intro: rm)
  qed (rule rm)
qed


lemma registerImport_wp:
  fixes s :: "'z store_scheme"
  assumes free: "\<And>q. below (snDir l) q \<Longrightarrow> look s q = None" and t: "intact A name s t" "look t f = Some n"
  shows "wp (registerImport l name m) (\<lambda>sn u. intact A name s u \<and> look u f = Some n \<and> snapName sn = name \<and>
       snapDiskPath sn = snDiskPath l \<and> snapSourceVM sn = mfSourceVM m \<and> snapBaseImageID sn = mfBaseImageID m \<and>
       snapKernelID sn = mfKernelID m \<and> snapBaseImageMetadata sn = importedMetadata m)
     (\<lambda>_. intact A name s) t"
proof -
  have grow: "intact A name s (t\<lparr>outcomes := rs, snapshotsT := snapshotsT t @ [r]\<rparr>)" if "sName r = name" for rs r
    using t(1) that by (auto simp: intact_def)
  have rm: "wp (osRemoveAll (snDir l)) (\<lambda>_. intact A name s) (\<lambda>_. intact A name s) u" if "intact A name s u" for u
    using that free by (intro keeps_wp intact_steps)
  show ?thesis
    unfolding registerImport_def wp_bind wp_attempt sum.case
    by (rule wp_CreateSnapshot)
      (auto simp: wp_rules t grow scanSnapshot_def snapshotRowOf_def coalesce_def intro!: wp_mono [OF rm] split: if_splits)
qed

text \<open>What a successful import returns and leaves on the disk.\<close>

definition importedFrom :: "snapshotBundle \<Rightarrow> snapshotLayout \<Rightarrow> string \<Rightarrow> Snapshot \<Rightarrow> 'z store_scheme \<Rightarrow> bool" where
  "importedFrom b l name sn t \<longleftrightarrow> (\<exists>m c. genuine b m c \<and> look t (snDiskPath l) = Some (File c) \<and>
     snapName sn = name \<and> snapDiskPath sn = snDiskPath l \<and> snapSourceVM sn = mfSourceVM m \<and>
     snapBaseImageID sn = mfBaseImageID m \<and> snapKernelID sn = mfKernelID m \<and> snapBaseImageMetadata sn = importedMetadata m)"

lemma import_wp:
  fixes s :: "'z store_scheme"
  assumes "tmp \<noteq> snDir l" "pathJoin [tmp, snapshotBundleDiskName] = tmp @ ''/'' @ snapshotBundleDiskName"
    and disk: "snDiskPath l = snDir l @ ''/'' @ snapshotBundleDiskName"
    and free: "\<And>q. below (snDir l) q \<Longrightarrow> look s q = None"
    and allowed: "\<And>q n. below tmp q \<Longrightarrow> A q n" "\<And>q n. below (snDir l) q \<Longrightarrow> A q n"
    and u: "intact A name s u" "\<And>q. below tmp q \<Longrightarrow> look u q = None"
  shows "wp (bind (unpackAndMove tmp (snDir l) b) (registerImport l name))
     (\<lambda>sn t. intact A name s t \<and> importedFrom b l name sn t) (\<lambda>_. intact A name s) (u\<lparr>files := put tmp Dir (files u)\<rparr>)"
proof (rule wp_seq [OF unpackAndMove_wp [where name = name and s = s and A = A]])
  have *: "look s q = None" if "below tmp q" for q
    using u(1) u(2) [OF that] unfolding intact_def by (metis (no_types, lifting))
  then show "look s q = None" if "below tmp q" for q using that .
  show "intact A name s (u\<lparr>files := put tmp Dir (files u)\<rparr>)" using u(1) * allowed(1) by (intro intact_files) (auto split: if_splits)
  show "look (u\<lparr>files := put tmp Dir (files u)\<rparr>) (tmp @ ''/'' @ snapshotBundleDiskName) = None"
    using u(2) by (auto simp: below_iff)
  fix m t
  assume "intact A name s t \<and> (\<exists>c. genuine b m c \<and> look t (snDir l @ ''/'' @ snapshotBundleDiskName) = Some (File c))"
  then obtain c where c: "intact A name s t" "genuine b m c" "look t (snDiskPath l) = Some (File c)" by (auto simp: disk)
  show "wp (registerImport l name m) (\<lambda>sn t. intact A name s t \<and> importedFrom b l name sn t) (\<lambda>_. intact A name s) t"
    by (rule wp_mono [OF registerImport_wp [OF free c(1,3)]]) (use c(2) in \<open>auto simp: importedFrom_def\<close>)
qed (use assms in auto)

lemma import_paths:
  assumes abs: "isAbs (cfgStateDir cfg)" and plain: "plainElem name"
  defines "l \<equiv> snapshotLayoutOf cfg name" and "tmp \<equiv> \<lambda>k. tempPath (rendered (importDir cfg)) (''.'' @ name @ ''.import-'') [] k"
  shows "tmp k \<noteq> snDir l" "pathJoin [tmp k, snapshotBundleDiskName] = tmp k @ ''/'' @ snapshotBundleDiskName"
    "snDiskPath l = snDir l @ ''/'' @ snapshotBundleDiskName"
proof -
  note paths = snapshotLayout_rendered [OF abs plain] and temp = temp_rendered [OF snapshotLayout_rendered(5,4) [OF abs plain] plain, of k]
  show "tmp k \<noteq> snDir l" using temp paths plain by (simp add: tmp_def l_def rendered_inj)
  show "pathJoin [tmp k, snapshotBundleDiskName] = tmp k @ ''/'' @ snapshotBundleDiskName"
    using temp(1,4) rendered_snoc [of "importDir cfg @ [''.'' @ name @ ''.import-'' @ natDec k]" snapshotBundleDiskName]
    by (simp add: tmp_def)
  show "snDiskPath l = snDir l @ ''/'' @ snapshotBundleDiskName"
    using rendered_snoc [of "importDir cfg @ [name]" snapshotBundleDiskName] by (simp add: paths(1,3) l_def)
qed

text \<open>The paths an import may create: the directory of the snapshot, a temporary directory beside it, and the
  directories above them.\<close>

definition importPaths :: "Config \<Rightarrow> string \<Rightarrow> string \<Rightarrow> node \<Rightarrow> bool" where
  "importPaths cfg name q n \<longleftrightarrow>
     (let dir = snDir (snapshotLayoutOf cfg name) in below dir q \<or>
      (\<exists>k. below (tempPath (pathDir dir) (''.'' @ name @ ''.import-'') [] k) q) \<or> n = Dir \<and> q \<in> set (ancestors (pathDir dir)))"

lemma ImportSnapshot_wp:
  fixes s :: "'z store_scheme"
  assumes abs: "isAbs (cfgStateDir cfg)" and plain: "plainElem name"
    and tree: "look s (snDir (snapshotLayoutOf cfg name)) = None \<Longrightarrow> \<forall>q. below (snDir (snapshotLayoutOf cfg name)) q \<longrightarrow> look s q = None"
  shows "wp (ImportSnapshot cfg name b)
     (\<lambda>sn t. intact (importPaths cfg name) name s t \<and> importedFrom b (snapshotLayoutOf cfg name) name sn t) (\<lambda>_. intact (importPaths cfg name) name s) s"
proof -
  let ?l = "snapshotLayoutOf cfg name" and ?P = "rendered (importDir cfg)"
  have allowed: "below (tempPath ?P (''.'' @ name @ ''.import-'') [] k) q \<Longrightarrow> importPaths cfg name q n"
    "below (snDir ?l) q \<Longrightarrow> importPaths cfg name q n" "q \<in> set (ancestors ?P) \<Longrightarrow> importPaths cfg name q Dir" for k q n
    unfolding importPaths_def Let_def snapshotLayout_rendered(2) [OF abs plain] by blast+
  let ?Q = "\<lambda>sn t. intact (importPaths cfg name) name s t \<and> importedFrom b ?l name sn t" and ?E = "\<lambda>_ :: err. intact (importPaths cfg name) name s"
  have temp: "wp (bind (osMkdirTemp ?P (''.'' @ name @ ''.import-'')) (\<lambda>tmp. bind (unpackAndMove tmp (snDir ?l) b) (registerImport ?l name))) ?Q ?E u"
    if u: "intact (importPaths cfg name) name s u" and none: "look s (snDir ?l) = None" for u
  proof -
    have m: "osMkdirTemp ?P (''.'' @ name @ ''.import-'') = osTemp Dir ?P (''.'' @ name @ ''.import-'') []"
      using plain by (simp add: osMkdirTemp_def plainElem_def)
    show ?thesis
      unfolding m wp_bind [of "osTemp a b c d" for a b c d]
    proof (rule wp_osTemp)
      fix rs p k
      assume p: "p = tempPath ?P (''.'' @ name @ ''.import-'') [] k" "\<forall>q. below p q \<longrightarrow> look u q = None"
      show "wp (bind (unpackAndMove p (snDir ?l) b) (registerImport ?l name)) ?Q ?E (u\<lparr>outcomes := rs, files := put p Dir (files u)\<rparr>)"
        using import_wp [OF import_paths(1) [OF abs plain, of k] import_paths(2) [OF abs plain, of k] import_paths(3) [OF abs plain],
          of s "importPaths cfg name" name "u\<lparr>outcomes := rs\<rparr>" b] u p tree [OF none] allowed by simp
    qed (use u in simp)
  qed
  have mk: "wp (bind (osMkdirAll ?P) (\<lambda>_. bind (osMkdirTemp ?P (''.'' @ name @ ''.import-''))
      (\<lambda>tmp. bind (unpackAndMove tmp (snDir ?l) b) (registerImport ?l name)))) ?Q ?E u"
    if "intact (importPaths cfg name) name s u" and "look s (snDir ?l) = None" for u
    using that allowed(3) by (intro wp_seq [OF keeps_wp [OF intact_steps(6)]] temp)
  show ?thesis
    unfolding ImportSnapshot_def SnapshotExists_def Let_def snapshotLayout_rendered(2) [OF abs plain]
    unfolding wp_if wp_throw wp_bind [of "query f" for f] wp_bind [of "attempt m" for m] wp_attempt
    by (auto simp: wp_if wp_throw intro!: wp_query_frame wp_osStat mk [simplified])
qed


section \<open>Imports when nothing fails\<close>

lemma freshTemp_exists: "\<exists>k. freshTemp s dir pre [] = Some (tempPath dir pre [] k) \<and> (\<forall>q. below (tempPath dir pre [] k) q \<longrightarrow> look s q = None)"
proof -
  let ?N = "[seed s..<seed s + length (files s) + 1]"
  let ?hit = "\<lambda>k e. below (tempPath dir pre [] k) (fst e)"
  have one: "k = k'" if hit: "?hit k e" "?hit k' e" for k k' e
  proof -
    have digits: "takeWhile isDigit (natDec n @ r) = natDec n" if r: "r = [] \<or> (\<exists>t. r = CHR ''/'' # t)" for n r
    proof -
      have "\<not> isDigit (CHR ''/'')" by (simp add: isDigit_def digitVal_def)
      then have "takeWhile isDigit r = []" using r by auto
      moreover have "\<forall>x \<in> set (natDec n). isDigit x" using natDec_isDigit [of n] by (simp add: list_all_iff)
      ultimately show ?thesis by (simp add: takeWhile_append2)
    qed
    obtain r where r: "fst e = (dir @ ''/'' @ pre) @ natDec k @ r" "r = [] \<or> (\<exists>t. r = CHR ''/'' # t)"
      using hit(1) by (auto simp: below_iff tempPath_def)
    obtain r' where r': "fst e = (dir @ ''/'' @ pre) @ natDec k' @ r'" "r' = [] \<or> (\<exists>t. r' = CHR ''/'' # t)"
      using hit(2) by (auto simp: below_iff tempPath_def)
    have "natDec k @ r = natDec k' @ r'" using r(1) r'(1) by simp
    then have "natDec k = natDec k'" using digits [OF r(2), of k] digits [OF r'(2), of k'] by simp
    then show ?thesis by (metis decNat_natDec option.inject)
  qed
  have "\<exists>k \<in> set ?N. \<not> list_ex (?hit k) (files s)"
  proof (rule ccontr)
    assume "\<not> ?thesis"
    then have "\<forall>k \<in> set ?N. \<exists>e \<in> set (files s). ?hit k e" by (simp add: list_ex_iff)
    then obtain f where f: "\<forall>k \<in> set ?N. f k \<in> set (files s) \<and> ?hit k (f k)" by metis
    have "inj_on f (set ?N)"
    proof (rule inj_onI)
      fix k k' assume k: "k \<in> set ?N" "k' \<in> set ?N" "f k = f k'"
      show "k = k'" by (rule one [of k "f k"]) (use f k in \<open>metis\<close>)+
    qed
    moreover have "f ` set ?N \<subseteq> set (files s)" using f by blast
    ultimately have "card (set ?N) \<le> card (set (files s))" by (intro card_inj_on_le) auto
    then show False using card_length [of "files s"] by simp
  qed
  then have "find (\<lambda>k. \<not> list_ex (?hit k) (files s)) ?N \<noteq> None" unfolding find_None_iff by blast
  then obtain p where "freshTemp s dir pre [] = Some p" by (auto simp: freshTemp_def)
  with freshTemp_unused [OF this] show ?thesis by auto
qed

section \<open>The bundle of an export\<close>

lemma bundle_names: "cleanBundlePath snapshotBundleManifestName = Inr snapshotBundleManifestName"
  "cleanBundlePath snapshotBundleDiskName = Inr snapshotBundleDiskName" "snapshotBundleDiskName \<noteq> snapshotBundleManifestName"
  by code_simp+

lemma wp_osRename_ff:
  "fault_free s \<Longrightarrow> look s src = Some Dir \<Longrightarrow> look s dst = None \<Longrightarrow> src \<noteq> dst \<Longrightarrow>
     wp (osRename src dst) Q E s = Q () (s\<lparr>files := moveTree src dst (files s)\<rparr>)"
  by (simp add: osRename_def wp_rules ff_rules)

definition bundleOf :: "string \<Rightarrow> string \<Rightarrow> snapshotBundle" where
  "bundleOf manifestData content = \<lparr>bdGzip = True, bdEntries =
     [\<lparr>teName = snapshotBundleManifestName, teIsDir = False, teRegular = True, teSize = length manifestData,
       teData = manifestData, teCut = False\<rparr>,
      \<lparr>teName = snapshotBundleDiskName, teIsDir = False, teRegular = True, teSize = length content, teData = content, teCut = False\<rparr>],
     bdBroken = False\<rparr>"

lemma export_bundle:
  assumes "fault_free s" "n \<noteq> []" "snapshotContent s n = Some sn" "snapStatePath sn = []" "snapMemPath sn = []"
    and "look s (snapDiskPath sn) = Some (File c)" and "marshalManifest (manifestOf sn c) = Inr enc"
  shows "ExportSnapshot n s = (Inr (bundleOf (enc @ [CHR 0x0A]) c), s)"
  by (rule wp_eqI)
    (use assms in \<open>simp add: ExportSnapshot_def wp_def [of "GetSnapshot n"] GetSnapshot_fault_free writeTarFile_def bundleOf_def wp_rules ff_rules Let_def\<close>)

lemma unpack_bundle:
  assumes "fault_free s" "unmarshalManifest md = Inr m" "length md \<le> 1024 * 1024" "look s f = None"
    and "mfFormat m = snapshotBundleFormat" "mfDisk m = snapshotBundleDiskName" "mfDiskSize m = int (length c)"
  shows "unpackSnapshotBundle (bundleOf md c) f s = (Inr m, s\<lparr>files := put f (File c) (put f (File []) (files s))\<rparr>)"
  by (rule wp_eqI)
    (use assms bundle_names in \<open>simp add: unpackSnapshotBundle_def bundleOf_def unpackDisk_def nodeSize_def wp_rules ff_rules\<close>)

lemma CreateSnapshot_ff:
  assumes "fault_free s" "\<forall>r \<in> set (snapshotsT s). sName r \<noteq> csName p"
  shows "CreateSnapshot p s = (Inr (scanSnapshot (snapshotRowOf (sqlnow s) p)), s\<lparr>snapshotsT := snapshotsT s @ [snapshotRowOf (sqlnow s) p]\<rparr>)"
proof -
  have "find (\<lambda>r. sName r = csName p) (snapshotsT s) = None" using assms(2) by (simp add: find_None_iff)
  then show ?thesis
    using assms by (auto simp: CreateSnapshot_def GetSnapshot_def query_def bind_def gets_def modify_def ret_def throw_def list_ex_iff find_append
        snapshotRowOf_def)
qed

lemma import_bundle:
  fixes t :: "'z store_scheme"
  assumes ff: "fault_free t" and abs: "isAbs (cfgStateDir cfg)" and plain: "plainElem name"
    and new: "\<forall>r \<in> set (snapshotsT t). sName r \<noteq> name" "\<forall>q. below (snDir (snapshotLayoutOf cfg name)) q \<longrightarrow> look t q = None"
    and dirs: "\<forall>d \<in> set (ancestors (pathDir (snDir (snapshotLayoutOf cfg name)))). \<forall>x. look t d \<noteq> Some (File x)"
    and md: "unmarshalManifest md = Inr m" "length md \<le> 1024 * 1024"
    and m: "mfFormat m = snapshotBundleFormat" "mfDisk m = snapshotBundleDiskName" "mfDiskSize m = int (length c)"
  shows "wp (ImportSnapshot cfg name (bundleOf md c)) (\<lambda>sn u. look u (snapDiskPath sn) = Some (File c) \<and>
      snapName sn = name \<and> snapStatePath sn = [] \<and> snapMemPath sn = [] \<and> snapSourceVM sn = mfSourceVM m \<and> snapBaseImageID sn = mfBaseImageID m \<and>
      snapKernelID sn = mfKernelID m \<and> snapBaseImageMetadata sn = importedMetadata m) (\<lambda>_ _. False) t"
proof -
  let ?l = "snapshotLayoutOf cfg name" and ?P = "rendered (importDir cfg)" and ?b = "bundleOf md c"
  define t1 where "t1 = t\<lparr>files := mkdirs (ancestors ?P) (files t)\<rparr>"
  note paths = snapshotLayout_rendered [OF abs plain]
  obtain k where k: "freshTemp t1 ?P (''.'' @ name @ ''.import-'') [] = Some (tempPath ?P (''.'' @ name @ ''.import-'') [] k)"
    "\<forall>q. below (tempPath ?P (''.'' @ name @ ''.import-'') [] k) q \<longrightarrow> look t1 q = None"
    using freshTemp_exists by blast
  define tmp where "tmp = tempPath ?P (''.'' @ name @ ''.import-'') [] k"
  define p where "p = tmp @ ''/'' @ snapshotBundleDiskName"
  have tmp: "tmp \<noteq> snDir ?l" "pathJoin [tmp, snapshotBundleDiskName] = p" "snDiskPath ?l = snDir ?l @ ''/'' @ snapshotBundleDiskName"
    unfolding p_def tmp_def using import_paths [OF abs plain] by blast+
  define t2 where "t2 = t1\<lparr>files := put tmp Dir (files t1)\<rparr>"
  have ff': "fault_free t1" "fault_free t2" using ff by (simp_all add: t1_def t2_def)
  have fresh: "look t1 q = None" if "below tmp q" for q using k(2) that by (simp add: tmp_def)
  have f: "look t2 p = None" using fresh [of p] by (simp add: t2_def p_def below_iff)
  have apart: "snDir ?l \<noteq> p"
  proof -
    note temp = temp_rendered [OF paths(5,4) plain, of k]
    have "p = rendered (importDir cfg @ [''.'' @ name @ ''.import-'' @ natDec k, snapshotBundleDiskName])"
      using tmp(2) temp(1,4) by (simp add: tmp_def p_def)
    moreover have "plainElem snapshotBundleDiskName" by (simp add: plainElem_def snapshotBundleDiskName_def)
    ultimately show ?thesis using temp(2) paths plain by (simp add: rendered_inj)
  qed
  have inside: "p \<noteq> tmp" "look t2 tmp = Some Dir" by (simp_all add: p_def t2_def)
  have dst: "look t2 (snDir ?l) = None"
  proof -
    have "snDir ?l \<notin> set (ancestors ?P)"
      using ancestors_below below_rendered [of "importDir cfg @ [name]" "importDir cfg"] paths plain by (fastforce simp: prefix_def)
    then show ?thesis using new(2) tmp(1) by (simp add: t2_def t1_def map_of_mkdirs)
  qed
  have move: "unpackAndMove tmp (snDir ?l) ?b t2 = (Inr m, t2\<lparr>files := moveTree tmp (snDir ?l) (put p (File c) (put p (File []) (files t2)))\<rparr>)"
    unfolding unpackAndMove_def tmp(2)
    by (rule wp_eqI)
      (use apart dst ff'(2) tmp(1) inside in \<open>simp add: wp_onError wp_bind wp_def [of "unpackSnapshotBundle _ _"] unpack_bundle [OF ff'(2) md f m]
        wp_osRename_ff wp_ret\<close>)
  define t3 where "t3 = t2\<lparr>files := moveTree tmp (snDir ?l) (put p (File c) (put p (File []) (files t2)))\<rparr>"
  have disk: "look t3 (snDir ?l @ ''/'' @ snapshotBundleDiskName) = Some (File c)"
    by (simp add: t3_def map_of_moveTree below_iff p_def)
  have rest: "fault_free t3" "snapshotsT t3 = snapshotsT t" using ff'(2) by (simp_all add: t3_def t2_def t1_def)
  have reg: "wp (registerImport ?l name m) (\<lambda>sn u. look u (snapDiskPath sn) = Some (File c) \<and>
      snapName sn = name \<and> snapStatePath sn = [] \<and> snapMemPath sn = [] \<and> snapSourceVM sn = mfSourceVM m \<and> snapBaseImageID sn = mfBaseImageID m \<and>
      snapKernelID sn = mfKernelID m \<and> snapBaseImageMetadata sn = importedMetadata m) (\<lambda>_ _. False) t3"
    using rest disk new(1) tmp(3)
    by (simp add: registerImport_def wp_bind wp_attempt wp_def [of "CreateSnapshot _"] CreateSnapshot_ff wp_ret
        snapshotRowOf_def scanSnapshot_def coalesce_def)
  have temp: "osMkdirTemp ?P (''.'' @ name @ ''.import-'') t1 = (Inr tmp, t2)"
    using plain k(1) ff'(1) by (simp add: osMkdirTemp_def plainElem_def osTemp_def bind_def gets_def modify_def ret_def t2_def tmp_def)
  have "\<not> list_ex (\<lambda>d. case look t d of Some (File b) \<Rightarrow> True | _ \<Rightarrow> False) (ancestors ?P)"
    using dirs paths(2) by (auto simp: list_ex_iff split: option.splits node.splits)
  then have mk: "osMkdirAll ?P t = (Inr (), t1)"
    using ff by (simp add: osMkdirAll_def bind_def gets_def modify_def throw_def t1_def)
  have "\<not> list_ex (\<lambda>r. sName r = name) (snapshotsT t)" using new(1) by (simp add: list_ex_iff)
  then have "wp (ImportSnapshot cfg name ?b) Q E t = wp (registerImport ?l name m) Q E t3" for Q E
    using plain ff new(2) mk temp move
    by (simp add: ImportSnapshot_def SnapshotExists_def query_def wp_rules ff_rules Let_def paths(2) wp_def [of "osMkdirAll _"]
        wp_def [of "osMkdirTemp _ _"] wp_def [of "unpackAndMove _ _ _"] t3_def plainElem_def)
  then show ?thesis using reg by simp
qed

section \<open>A refused import\<close>

definition quiet :: "string \<Rightarrow> 'z store_scheme \<Rightarrow> 'z store_scheme \<Rightarrow> bool" where
  "quiet tmp t u \<longleftrightarrow> fault_free u \<and> snapshotsT u = snapshotsT t \<and> (\<forall>q. \<not> below tmp q \<longrightarrow> look u q = look t q)"

lemma quiet_steps:
  "keeps (quiet tmp t) call" "keeps (quiet tmp t) ctxCheck" "keeps (quiet tmp t) (osStat p)"
  "below tmp p \<Longrightarrow> keeps (quiet tmp t) (osCreateExcl p)" "below tmp p \<Longrightarrow> keeps (quiet tmp t) (transfer p c)"
proof -
  show c: "keeps (quiet tmp t) call" "keeps (quiet tmp t) ctxCheck" by (auto simp: keeps_def quiet_def)
  show "keeps (quiet tmp t) (osStat p)" unfolding osStat_def by (auto intro!: keeps_rules c split: option.split)
  show "below tmp p \<Longrightarrow> keeps (quiet tmp t) (osCreateExcl p)"
    unfolding osCreateExcl_def by (auto intro!: keeps_rules c keeps_modify simp: quiet_def)
  show "below tmp p \<Longrightarrow> keeps (quiet tmp t) (transfer p c)"
    by (auto simp: keeps_def quiet_def transfer_def)
qed

lemma unpack_quiet: "below tmp f \<Longrightarrow> keeps (quiet tmp t) (unpackSnapshotBundle b f)"
  by (intro unpackSnapshotBundle_keeps quiet_steps)
    (auto intro!: quiet_steps keeps_bind keeps_attempt keeps_throw keeps_fromSum simp: unpackDisk_def split: sum.split)

lemma unpackAndMove_refused:
  assumes tmp: "pathJoin [tmp, snapshotBundleDiskName] = tmp @ ''/'' @ snapshotBundleDiskName"
    and fresh: "\<And>q. below tmp q \<Longrightarrow> look t q = None" and u: "quiet tmp t u"
  shows "wp (unpackAndMove tmp dir b) (\<lambda>_ v. fault_free v \<and> snapshotsT v = snapshotsT t)
     (\<lambda>_ v. snapshotsT v = snapshotsT t \<and> look v = look t) u"
proof -
  have rm: "wp (osRemoveAll tmp) (\<lambda>_ v. snapshotsT v = snapshotsT t \<and> look v = look t)
      (\<lambda>_ v. snapshotsT v = snapshotsT t \<and> look v = look t) v" if "quiet tmp t v" for v
    using that fresh by (auto simp: quiet_def ff_rules fun_eq_iff)
  have mv: "wp (osRename tmp dir) (\<lambda>_ w. fault_free w \<and> snapshotsT w = snapshotsT t) (\<lambda>_. quiet tmp t) v" if "quiet tmp t v" for v
    using that by (auto simp: osRename_def quiet_def wp_rules ff_rules split: option.splits)
  have "below tmp (tmp @ ''/'' @ snapshotBundleDiskName)" by (simp add: below_iff)
  from keeps_wp [OF unpack_quiet [OF this] u] show ?thesis
    unfolding unpackAndMove_def wp_onError tmp
    by (rule wp_seq) (auto intro!: wp_seq [OF mv] rm simp: wp_ret)
qed

lemma registerImport_accepts:
  "fault_free v \<Longrightarrow> \<forall>r \<in> set (snapshotsT v). sName r \<noteq> name \<Longrightarrow> wp (registerImport l name m) (\<lambda>_ _. True) (\<lambda>_ _. False) v"
  by (simp add: registerImport_def wp_bind wp_attempt wp_def [of "CreateSnapshot _"] CreateSnapshot_ff wp_ret)

lemma ImportSnapshot_refused:
  fixes t :: "'z store_scheme"
  assumes ff: "fault_free t" and abs: "isAbs (cfgStateDir cfg)" and plain: "plainElem name"
  shows "wp (ImportSnapshot cfg name b) (\<lambda>_ _. True) (\<lambda>_ u. snapshotsT u = snapshotsT t \<and>
     (\<forall>q. look u q = look t q \<or> look u q = Some Dir \<and> q \<in> set (ancestors (pathDir (snDir (snapshotLayoutOf cfg name)))))) t"
proof -
  let ?l = "snapshotLayoutOf cfg name" and ?P = "rendered (importDir cfg)"
  let ?E = "\<lambda>_ :: err. \<lambda>u. snapshotsT u = snapshotsT t \<and> (\<forall>q. look u q = look t q \<or> look u q = Some Dir \<and> q \<in> set (ancestors ?P))"
  define t1 where "t1 = t\<lparr>files := mkdirs (ancestors ?P) (files t)\<rparr>"
  have t1: "?E e u" if "snapshotsT u = snapshotsT t1" "look u = look t1" for e u
    using that by (auto simp: t1_def map_of_mkdirs split: option.splits)
  have same: "?E e t" for e by simp
  have last: "wp (bind (unpackAndMove (tempPath ?P (''.'' @ name @ ''.import-'') [] k) (snDir ?l) b) (registerImport ?l name)) (\<lambda>_ _. True) ?E
      (t1\<lparr>files := put (tempPath ?P (''.'' @ name @ ''.import-'') [] k) Dir (files t1)\<rparr>)"
    if new: "\<forall>r \<in> set (snapshotsT t). sName r \<noteq> name"
      and fresh: "\<forall>q. below (tempPath ?P (''.'' @ name @ ''.import-'') [] k) q \<longrightarrow> look t1 q = None" for k
  proof -
    let ?t = "tempPath ?P (''.'' @ name @ ''.import-'') [] k"
    have "quiet ?t t1 (t1\<lparr>files := put ?t Dir (files t1)\<rparr>)" using ff by (auto simp: quiet_def t1_def)
    note refused = unpackAndMove_refused [OF import_paths(2) [OF abs plain] fresh [rule_format] this, of "snDir ?l" b]
    have "snapshotsT t1 = snapshotsT t" by (simp add: t1_def)
    with new show ?thesis
      by (intro wp_seq [OF refused] wp_mono [OF registerImport_accepts] t1) auto
  qed
  obtain k where k: "freshTemp t1 ?P (''.'' @ name @ ''.import-'') [] = Some (tempPath ?P (''.'' @ name @ ''.import-'') [] k)"
    "\<forall>q. below (tempPath ?P (''.'' @ name @ ''.import-'') [] k) q \<longrightarrow> look t1 q = None"
    using freshTemp_exists by blast
  have "osMkdirTemp ?P (''.'' @ name @ ''.import-'') t1 =
      (Inr (tempPath ?P (''.'' @ name @ ''.import-'') [] k), t1\<lparr>files := put (tempPath ?P (''.'' @ name @ ''.import-'') [] k) Dir (files t1)\<rparr>)"
    using plain k(1) ff by (simp add: osMkdirTemp_def plainElem_def osTemp_def bind_def gets_def modify_def ret_def t1_def)
  then have temp: "wp (bind (osMkdirTemp ?P (''.'' @ name @ ''.import-'')) (\<lambda>tmp. bind (unpackAndMove tmp (snDir ?l) b) (registerImport ?l name)))
      (\<lambda>_ _. True) ?E t1" if "\<forall>r \<in> set (snapshotsT t). sName r \<noteq> name"
    using last [OF that k(2)] by (simp add: wp_bind [of "osMkdirTemp x y" for x y] wp_def [of "osMkdirTemp x y" for x y])
  show ?thesis
    unfolding ImportSnapshot_def SnapshotExists_def query_def Let_def snapshotLayout_rendered(2) [OF abs plain]
    using ff same temp
    by (auto simp: wp_bind [of "bind x y" for x y] wp_bind [of call] wp_bind [of "gets f" for f] wp_bind [of "attempt m" for m]
        wp_bind [of "osMkdirAll p" for p] wp_gets wp_attempt wp_throw ff_rules list_ex_iff t1_def split: option.splits)
qed

section \<open>Properties\<close>

text \<open>
  C35: what one host exports another imports.  When no call fails, a disk snapshot is exported, and
  importing the bundle under a name that is free there succeeds: the disk has the same content, the
  source machine and the image identifiers are the same, and the image metadata is the same JSON
  document.  The manifest must be below the importer's limit of one mebibyte.
\<close>

theorem export_import_roundtrip:
  fixes s :: "'z store_scheme" and t :: "'y store_scheme"
  assumes "fault_free s" "n \<noteq> []" "snapshotContent s n = Some sn" "snapStatePath sn = []" "snapMemPath sn = []"
    and "look s (snapDiskPath sn) = Some (File c)" "int (length c) < 2 ^ 63"
    and "\<forall>enc. marshalManifest (manifestOf sn c) = Inr enc \<longrightarrow> length enc < 1024 * 1024"
    and "fault_free t" "isAbs (cfgStateDir cfg)" "plainElem name"
    and "\<forall>r \<in> set (snapshotsT t). sName r \<noteq> name" "\<forall>q. below (snDir (snapshotLayoutOf cfg name)) q \<longrightarrow> look t q = None"
    and "\<forall>d \<in> set (ancestors (pathDir (snDir (snapshotLayoutOf cfg name)))). \<forall>x. look t d \<noteq> Some (File x)"
  shows "\<exists>b sn' u. ExportSnapshot n s = (Inr b, s) \<and> ImportSnapshot cfg name b t = (Inr sn', u) \<and>
     look u (snapDiskPath sn') = Some (File c) \<and> snapName sn' = name \<and> snapStatePath sn' = [] \<and> snapMemPath sn' = [] \<and>
     snapSourceVM sn' = snapSourceVM sn \<and> snapBaseImageID sn' = snapBaseImageID sn \<and> snapKernelID sn' = snapKernelID sn \<and>
     snapshotMetadataJSON (snapBaseImageMetadata sn') = snapshotMetadataJSON (snapBaseImageMetadata sn)"
proof -
  obtain enc m where enc: "marshalManifest (manifestOf sn c) = Inr enc" and m: "unmarshalManifest (enc @ [CHR 0x0A]) = Inr m"
    "mfFormat m = snapshotBundleFormat" "mfDisk m = snapshotBundleDiskName" "mfDiskSize m = int (length c)"
    "mfSourceVM m = snapSourceVM sn" "mfBaseImageID m = snapBaseImageID sn" "mfKernelID m = snapKernelID sn"
    "snapshotMetadataJSON (importedMetadata m) = snapshotMetadataJSON (snapBaseImageMetadata sn)"
    using assms(7) by (rule manifest_roundtrip)
  have "length (enc @ [CHR 0x0A]) \<le> 1024 * 1024" using assms(8) enc by simp
  note imported = import_bundle [OF assms(9-14) m(1) this m(2-4)]
  have "ExportSnapshot n s = (Inr (bundleOf (enc @ [CHR 0x0A]) c), s)"
    by (rule export_bundle [OF assms(1-6) enc])
  with imported m(5-8) show ?thesis
    by (auto simp: wp_def split: prod.splits sum.splits)
qed

definition sampleSnapshotRow :: snapshotRow where
  "sampleSnapshotRow = \<lparr>sName = ''a'', sSourceVmUuid = Some ''u1'', sSourceVm = Some ''web'', sStatePath = [], sMemPath = [],
     sDiskPath = ''/d'', sBaseImageId = ''i'', sKernelId = ''k'', sBaseImageMetadata = [], sCreatedAt = ''now''\<rparr>"

definition bundleCfg :: Config where
  "bundleCfg = Default\<lparr>cfgStateDir := ''/s''\<rparr>"

theorem export_import_roundtrip_witness:
  "\<exists>b sn' u. ExportSnapshot ''a'' (emptyStore\<lparr>snapshotsT := [sampleSnapshotRow], files := [(''/d'', File ''disk'')]\<rparr>) =
       (Inr b, emptyStore\<lparr>snapshotsT := [sampleSnapshotRow], files := [(''/d'', File ''disk'')]\<rparr>) \<and>
     ImportSnapshot bundleCfg ''b'' b emptyStore = (Inr sn', u) \<and> look u (snapDiskPath sn') = Some (File ''disk'') \<and> snapSourceVM sn' = ''web''"
proof -
  let ?s = "emptyStore\<lparr>snapshotsT := [sampleSnapshotRow], files := [(''/d'', File ''disk'')]\<rparr>"
  have e: "fault_free emptyStore" "files emptyStore = []" "snapshotsT emptyStore = []" by (simp_all add: emptyStore_def)
  have len: "length enc < 1024 * 1024" if "marshalManifest (manifestOf (scanSnapshot sampleSnapshotRow) ''disk'') = Inr enc" for enc
  proof -
    have "length (escapeChar x) \<le> 6" for x by (simp add: escapeChar_def Let_def)
    then have "length (concat (map escapeChar x)) \<le> 6 * length x" for x by (induction x) (auto intro: add_mono)
    then have q: "length (quoteJSON x) \<le> 6 * length x + 2" for x by (simp add: quoteJSON_def)
    show ?thesis
      using that q [of "''format''"] q [of snapshotBundleFormat] q [of "''name''"] q [of "''a''"] q [of "''source_vm''"] q [of "''web''"]
        q [of "''base_image_id''"] q [of "''i''"] q [of "''kernel_id''"] q [of "''k''"] q [of "''disk''"] q [of snapshotBundleDiskName]
        q [of "''disk_size''"] q [of "''created_at''"] q [of "''now''"]
      by (auto simp: marshalManifest_def manifestOf_def sampleSnapshotRow_def scanSnapshot_def coalesce_def snapshotMetadataJSON_def
          JSONText_Marshal_def manifestMembers_def strMember_def omitEmptyStr_def indentRaw_def newline_def snapshotBundleFormat_def
          snapshotBundleDiskName_def itoa_def natDec.simps)
  qed
  have p: "isAbs (cfgStateDir bundleCfg)" "plainElem ''b''" by (simp_all add: bundleCfg_def isAbs_def hasPrefix_def plainElem_def)
  show ?thesis
    using export_import_roundtrip [of ?s "''a''" "scanSnapshot sampleSnapshotRow" "''disk''" emptyStore bundleCfg "''b''"] len e p
    by (fastforce simp: snapshotContent_def sampleSnapshotRow_def scanSnapshot_def coalesce_def)
qed

text \<open>
  C36: an import is confined, whatever the bundle holds and whichever calls fail on the way.  Every path
  is as it was before, except that nodes may have been created where there was none: below the
  directory of the new snapshot, below a temporary directory beside it, and as directories above the
  two.  So no file or directory that was there is changed or removed and nothing is created elsewhere.
  No machine, route or protection is touched, and the rows of other snapshots stay as they are.  If
  the import succeeds, every entry of the bundle was a directory or one of the two files by its
  cleaned path, the new snapshot's disk is the data of the bundle's disk entry with the size that the
  manifest gives, and the row is filled from the manifest.  (The name is one path element, as the API
  requires, and a directory that is missing has nothing below it.)
\<close>

theorem import_confined:
  assumes "isAbs (cfgStateDir cfg)" "plainElem name"
    and "look s (snDir (snapshotLayoutOf cfg name)) = None \<Longrightarrow> \<forall>q. below (snDir (snapshotLayoutOf cfg name)) q \<longrightarrow> look s q = None"
  shows "intact (importPaths cfg name) name s (snd (ImportSnapshot cfg name b s)) \<and>
     (\<forall>sn t. ImportSnapshot cfg name b s = (Inr sn, t) \<longrightarrow> importedFrom b (snapshotLayoutOf cfg name) name sn t)"
  using ImportSnapshot_wp [OF assms, of b] by (auto simp: wp_def split: prod.splits sum.splits)

theorem import_confined_witness:
  "intact (importPaths bundleCfg ''b'') ''b'' emptyStore (snd (ImportSnapshot bundleCfg ''b''
     ((bundleOf [] [])\<lparr>bdEntries := [\<lparr>teName = ''../x'', teIsDir = False, teRegular = True, teSize = 0, teData = [], teCut = False\<rparr>]\<rparr>) emptyStore))"
proof -
  have "isAbs (cfgStateDir bundleCfg)" "plainElem ''b''" "files emptyStore = []"
    by (simp_all add: bundleCfg_def isAbs_def hasPrefix_def plainElem_def emptyStore_def)
  then show ?thesis by (intro conjunct1 [OF import_confined]) simp_all
qed

text \<open>
  C37: a refused import leaves nothing behind.  When no call fails and the import returns an error,
  because the name is taken or the bundle is not acceptable, the table of snapshots is unchanged and
  so is every path, except that the directories above the snapshots' directory may have been created.
\<close>

theorem refused_import_leaves_nothing:
  assumes "fault_free t" "isAbs (cfgStateDir cfg)" "plainElem name" "ImportSnapshot cfg name b t = (Inl e, u)"
  shows "snapshotsT u = snapshotsT t \<and> (\<forall>q. look u q = look t q \<or>
     look u q = Some Dir \<and> q \<in> set (ancestors (pathDir (snDir (snapshotLayoutOf cfg name)))))"
  using wpD_Inl [OF ImportSnapshot_refused [OF assms(1-3)] assms(4)] .

theorem refused_import_leaves_nothing_witness:
  "ImportSnapshot bundleCfg ''a'' (bundleOf [] []) (emptyStore\<lparr>snapshotsT := [sampleSnapshotRow]\<rparr>) =
     (Inl (Wrap ''snapshot'' (Sentinel ErrAlreadyExists)), emptyStore\<lparr>snapshotsT := [sampleSnapshotRow]\<rparr>) \<and>
   snapshotsT (emptyStore\<lparr>snapshotsT := [sampleSnapshotRow]\<rparr>) = [sampleSnapshotRow]"
proof -
  let ?t = "emptyStore\<lparr>snapshotsT := [sampleSnapshotRow]\<rparr>"
  have r: "ImportSnapshot bundleCfg ''a'' (bundleOf [] []) ?t = (Inl (Wrap ''snapshot'' (Sentinel ErrAlreadyExists)), ?t)"
    by (simp add: ImportSnapshot_def SnapshotExists_def query_def bind_def gets_def throw_def call_def next_outcome_def emptyStore_def
        sampleSnapshotRow_def)
  have "isAbs (cfgStateDir bundleCfg)" "plainElem ''a''" "fault_free ?t"
    by (simp_all add: bundleCfg_def isAbs_def hasPrefix_def plainElem_def emptyStore_def)
  then show ?thesis using refused_import_leaves_nothing [OF _ _ _ r] r by simp
qed

end
