(* ===== verification/Api.thy ===== *)
theory Api
  imports Snapshot_Bundle Caddy Resource_Usage Wireguard
begin

text \<open>
  The management API of the daemon (\<open>internal/api/server.go\<close>) and the guest API
  (\<open>internal/api/guest.go\<close>): the routing table, the decoding of request bodies, one definition per
  handler, the validation of names and the bodies of responses.

  A request is what \<open>net/http\<close> delivers: the method, the decoded segments of the cleaned path, the
  values of the query parameter \<open>name\<close>, and the body; for an import the body is the bundle that the
  gzip and tar readers find in it.  A response is a status with a typed body; the text that
  \<open>encoding/json\<close> writes for a machine, a route, a snapshot or a usage is not spelled out.  An export
  that fails after part of the bundle was sent keeps the status 200 on the wire.
\<close>

section \<open>Request bodies\<close>

text \<open>\<open>json.NewDecoder(r.Body).Decode(&req)\<close> for a struct: the first value of the body is read; what
  comes after it is ignored.  The members are returned with their keys in lower case, since keys are
  compared without regard to (ASCII) case.\<close>

definition bodyFields :: "string \<Rightarrow> err + (string \<times> string) list" where
  "bodyFields body =
     (if skipWS body = [] then Inl (Msg ''EOF'') else
      case readValue body of
        None \<Rightarrow> Inl (Msg ''invalid character'')
      | Some (RObj kvs, _) \<Rightarrow>
          Inr (map (\<lambda>(k, t). (toLower (unquote k), t)) (case after (CHR ''{'') body of None \<Rightarrow> [] | Some r \<Rightarrow> topMembers (length body) r))
      | Some (RArr vs, _) \<Rightarrow> Inl (Msg ''json: cannot unmarshal array'')
      | Some (RLit t, _) \<Rightarrow> if t = ''null'' then Inr [] else Inl (Msg ''json: cannot unmarshal value''))"

text \<open>A field gets the value of the last member with its key; a member of the wrong type is an error.\<close>

fun foldField :: "('a \<Rightarrow> string \<Rightarrow> err + 'a) \<Rightarrow> string \<Rightarrow> 'a \<Rightarrow> (string \<times> string) list \<Rightarrow> err + 'a" where
  "foldField dec k old [] = Inr old"
| "foldField dec k old ((k', t) # kts) =
     (if k' = k then (case dec old t of Inl e \<Rightarrow> Inl e | Inr v \<Rightarrow> foldField dec k v kts) else foldField dec k old kts)"

definition decodeBool :: "bool \<Rightarrow> string \<Rightarrow> err + bool" where
  "decodeBool old t = (if t = ''null'' then Inr old else if t = ''true'' then Inr True else if t = ''false'' then Inr False
     else Inl (Msg ''json: cannot unmarshal value into Go struct field of type bool''))"

definition decodeUint :: "nat \<Rightarrow> string \<Rightarrow> err + nat" where
  "decodeUint old t = (if t = ''null'' then Inr old else case parseUint t of Some n \<Rightarrow> Inr n
     | None \<Rightarrow> Inl (Msg ''json: cannot unmarshal value into Go struct field of type uint64''))"

text \<open>A \<open>float64\<close> is kept as the text of its literal.\<close>

definition decodeFloat :: "string \<Rightarrow> string \<Rightarrow> err + string" where
  "decodeFloat old t = (if t = ''null'' then Inr old else if scanNumber t = Some (t, []) then Inr t
     else Inl (Msg ''json: cannot unmarshal value into Go struct field of type float64''))"

text \<open>A pointer field: \<open>null\<close> makes it nil.\<close>

definition decodePtr :: "('a \<Rightarrow> string \<Rightarrow> err + 'a) \<Rightarrow> 'a \<Rightarrow> 'a option \<Rightarrow> string \<Rightarrow> err + 'a option" where
  "decodePtr dec zero old t = (if t = ''null'' then Inr None else mapSum Some (dec zero t))"

definition strField :: "(string \<times> string) list \<Rightarrow> string \<Rightarrow> err + string" where
  "strField fs k = foldField decodeStr k [] fs"

definition intField :: "(string \<times> string) list \<Rightarrow> string \<Rightarrow> err + int" where
  "intField fs k = foldField decodeInt k 0 fs"

definition boolField :: "(string \<times> string) list \<Rightarrow> string \<Rightarrow> err + bool" where
  "boolField fs k = foldField decodeBool k False fs"

definition uintField :: "(string \<times> string) list \<Rightarrow> string \<Rightarrow> err + nat" where
  "uintField fs k = foldField decodeUint k 0 fs"

definition floatField :: "(string \<times> string) list \<Rightarrow> string \<Rightarrow> err + string" where
  "floatField fs k = foldField decodeFloat k ''0'' fs"

definition optIntField :: "(string \<times> string) list \<Rightarrow> string \<Rightarrow> err + int option" where
  "optIntField fs k = foldField (decodePtr decodeInt 0) k None fs"

definition optBoolField :: "(string \<times> string) list \<Rightarrow> string \<Rightarrow> err + bool option" where
  "optBoolField fs k = foldField (decodePtr decodeBool False) k None fs"

definition sumBind :: "err + 'a \<Rightarrow> ('a \<Rightarrow> err + 'b) \<Rightarrow> err + 'b" where
  "sumBind x f = (case x of Inl e \<Rightarrow> Inl e | Inr y \<Rightarrow> f y)"

text \<open>The body of a request for a new machine, fresh or from a snapshot; \<open>nameKey\<close> is the key of its name.\<close>

definition machineBody :: "string \<Rightarrow> string \<Rightarrow> err + CreateVMParams" where
  "machineBody nameKey body =
     sumBind (bodyFields body) (\<lambda>fs.
     sumBind (strField fs nameKey) (\<lambda>name.
     sumBind (intField fs ''vcpus'') (\<lambda>vcpus.
     sumBind (intField fs ''memory_min_mib'') (\<lambda>minMiB.
     sumBind (intField fs ''memory_max_mib'') (\<lambda>maxMiB.
     sumBind (intField fs ''disk_bytes'') (\<lambda>diskBytes.
     sumBind (intField fs ''default_http_port'') (\<lambda>port.
     sumBind (intField fs ''idle_sleep_after_seconds'') (\<lambda>idle.
     sumBind (optBoolField fs ''auto_wake'') (\<lambda>autoWake.
     sumBind (boolField fs ''public_http'') (\<lambda>publicHTTP.
     Inr \<lparr>cpName = name, cpPrivateIP = [], cpVCPUs = vcpus, cpMemoryMinMiB = minMiB, cpMemoryMaxMiB = maxMiB,
       cpDiskBytes = diskBytes, cpDefaultHTTPPort = port, cpIdleSleepAfterSeconds = idle, cpBaseImageID = [], cpKernelID = [],
       cpBaseImageMetadata = [], cpAutoWake = (autoWake = Some True), cpAutoWakeSet = (autoWake \<noteq> None),
       cpPublicHTTP = publicHTTP\<rparr>))))))))))"

definition settingsBody :: "string \<Rightarrow> err + UpdateVMParams" where
  "settingsBody body =
     sumBind (bodyFields body) (\<lambda>fs.
     sumBind (optIntField fs ''default_http_port'') (\<lambda>port.
     sumBind (optIntField fs ''idle_sleep_after_seconds'') (\<lambda>idle.
     sumBind (optBoolField fs ''auto_wake'') (\<lambda>autoWake.
     sumBind (optBoolField fs ''public_http'') (\<lambda>publicHTTP.
     Inr \<lparr>upDefaultHTTPPort = port, upIdleSleepAfterSeconds = idle, upAutoWake = autoWake, upPublicHTTP = publicHTTP\<rparr>)))))"

definition routeBody :: "string \<Rightarrow> err + CreateRouteParams" where
  "routeBody body =
     sumBind (bodyFields body) (\<lambda>fs.
     sumBind (strField fs ''name'') (\<lambda>name.
     sumBind (strField fs ''vm_uuid'') (\<lambda>u.
     sumBind (intField fs ''port'') (\<lambda>port.
     Inr \<lparr>crName = name, crVMUUID = u, crPort = port, crIsDefault = False\<rparr>))))"

definition hostnameBody :: "string \<Rightarrow> err + string" where
  "hostnameBody body = sumBind (bodyFields body) (\<lambda>fs. strField fs ''hostname'')"

definition signedURLBody :: "string \<Rightarrow> err + (string \<times> int)" where
  "signedURLBody body =
     sumBind (bodyFields body) (\<lambda>fs.
     sumBind (strField fs ''hostname'') (\<lambda>hostname.
     sumBind (intField fs ''ttl_seconds'') (\<lambda>ttl. Inr (hostname, ttl))))"

definition snapshotBody :: "string \<Rightarrow> err + (string \<times> string)" where
  "snapshotBody body =
     sumBind (bodyFields body) (\<lambda>fs.
     sumBind (strField fs ''name'') (\<lambda>name.
     sumBind (strField fs ''vm_uuid'') (\<lambda>u. Inr (name, u))))"

section \<open>Names\<close>

definition lowerAlnum :: "char \<Rightarrow> bool" where
  "lowerAlnum c \<longleftrightarrow> (let n = (of_char c :: nat) in 97 \<le> n \<and> n \<le> 122 \<or> 48 \<le> n \<and> n \<le> 57)"

definition alnum :: "char \<Rightarrow> bool" where
  "alnum c \<longleftrightarrow> lowerAlnum c \<or> (let n = (of_char c :: nat) in 65 \<le> n \<and> n \<le> 90)"

text \<open>\<open>^[a-z0-9]([a-z0-9-]{0,61}[a-z0-9])?$\<close>\<close>

definition validDNSLabel :: "string \<Rightarrow> bool" where
  "validDNSLabel name \<longleftrightarrow> name \<noteq> [] \<and> length name \<le> 63 \<and> lowerAlnum (hd name) \<and> lowerAlnum (last name) \<and>
     list_all (\<lambda>c. lowerAlnum c \<or> c = CHR ''-'') name"

text \<open>\<open>^[A-Za-z0-9][A-Za-z0-9._-]{0,127}$\<close>\<close>

definition validSnapshotName :: "string \<Rightarrow> bool" where
  "validSnapshotName name \<longleftrightarrow> name \<noteq> [] \<and> length name \<le> 128 \<and> alnum (hd name) \<and>
     list_all (\<lambda>c. alnum c \<or> c \<in> set ''._-'') name"

definition validVMName :: "host \<Rightarrow> string \<Rightarrow> bool" where
  "validVMName h name \<longleftrightarrow> validDNSLabel name \<and> \<not> hUuidParses h name"

definition validRouteName :: "string \<Rightarrow> bool" where
  "validRouteName name \<longleftrightarrow> list_all validDNSLabel (split name (CHR ''.''))"

definition normalizeRouteAuthHostname :: "Config \<Rightarrow> string \<Rightarrow> err + string" where
  "normalizeRouteAuthHostname cfg hostname =
     (let hostname = NormalizeHostname hostname; base = NormalizeHostname (cfgBaseDomain cfg) in
      if hostname = [] then Inl (Msg ''hostname is required'')
      else if containsAny hostname (''/'' @ [CHR 0x5C] @ '': '' @ [CHR 0x09, CHR 0x0D, CHR 0x0A])
      then Inl (Msg ''hostname must be a hostname, not a URL'')
      else if hostname \<noteq> base \<and> \<not> hasSuffix hostname (''.'' @ base)
      then Inl (Msg (''hostname must be '' @ base @ '' or a subdomain of '' @ base))
      else Inr hostname)"

section \<open>Responses\<close>

record vmInfo =
  viVM :: VM
  viHostname :: string
  viSSH :: string
  viURLs :: "(string \<times> string) list"

record routeInfo =
  riRoute :: Route
  riHostname :: string
  riURL :: string

datatype apiBody =
    BError string
  | BJson json
  | BVM vmInfo | BVMs "vmInfo list"
  | BUsage VMResourceUsage | BUsages "VMResourceUsage list"
  | BRoute routeInfo | BRoutes "routeInfo list"
  | BSnapshot Snapshot | BSnapshots "Snapshot list"
  | BBaseImage BaseImageMetadata
  | BMemory MemoryHotplugUsage
  | BBundle string snapshotBundle

record apiResponse =
  rsStatus :: nat
  rsBody :: apiBody

definition writeJSON :: "nat \<Rightarrow> apiBody \<Rightarrow> ('s, apiResponse) prog" where
  "writeJSON status body = ret \<lparr>rsStatus = status, rsBody = body\<rparr>"

definition writeError :: "nat \<Rightarrow> err \<Rightarrow> ('s, apiResponse) prog" where
  "writeError status e = writeJSON status (BError (errText e))"

text \<open>\<open>if err != nil { writeError(w, status, err); return }\<close>, with the status chosen from the error.\<close>

definition orError :: "(err \<Rightarrow> nat) \<Rightarrow> ('s, 'a) prog \<Rightarrow> ('a \<Rightarrow> ('s, apiResponse) prog) \<Rightarrow> ('s, apiResponse) prog" where
  "orError status m k = bind (attempt m) (\<lambda>r. case r of Inl e \<Rightarrow> writeError (status e) e | Inr x \<Rightarrow> k x)"

definition badRequest :: "string \<Rightarrow> ('s, apiResponse) prog" where
  "badRequest m = writeError 400 (Msg m)"

text \<open>The status of an error: 404 for \<open>store.ErrNotFound\<close>, 409 for the given ones, 500 otherwise.\<close>

definition statusOf :: "sentinel list \<Rightarrow> err \<Rightarrow> nat" where
  "statusOf conflicts e = (if errIs e ErrNotFound then 404 else if list_ex (errIs e) conflicts then 409 else 500)"

definition okStatus :: "(string \<times> string) list \<Rightarrow> apiBody" where
  "okStatus kvs = BJson (JObj (map (\<lambda>(k, v). (k, JStr v)) kvs))"

section \<open>The server\<close>

record apiServer =
  srvHost :: host
  srvKernel :: kernelView
  srvKeys :: keyLib
  srvProxy :: bool

abbreviation srvCfg :: "apiServer \<Rightarrow> Config" where
  "srvCfg srv \<equiv> hCfg (srvHost srv)"

definition defaultHostname :: "apiServer \<Rightarrow> string \<Rightarrow> string" where
  "defaultHostname srv name = name @ ''.'' @ trimSuffix (cfgBaseDomain (srvCfg srv)) ''.''"

definition publicURL :: "apiServer \<Rightarrow> string \<Rightarrow> string" where
  "publicURL srv hostname =
     (if caddyHTTPSPort (cfgCaddy (srvCfg srv)) = 443 then ''https://'' @ hostname
      else ''https://'' @ JoinHostPort hostname (itoa (caddyHTTPSPort (cfgCaddy (srvCfg srv)))))"

definition vmInfoOf :: "apiServer \<Rightarrow> VM \<Rightarrow> vmInfo" where
  "vmInfoOf srv vm =
     (let hostname = defaultHostname srv (vmName vm);
          vm = (if vmIdleSleepAfterSeconds vm = 0
                then vm\<lparr>vmIdleSleepAfterSeconds := idleDefaultSleepAfterSeconds (cfgIdle (srvCfg srv))\<rparr> else vm) in
      \<lparr>viVM = vm, viHostname = hostname, viSSH = ''ssh '' @ sshUser (cfgSSH (srvCfg srv)) @ ''@'' @ hostname,
       viURLs = [(''default'', publicURL srv hostname)]\<rparr>)"

definition routeInfoOf :: "apiServer \<Rightarrow> Route \<Rightarrow> routeInfo" where
  "routeInfoOf srv route =
     (let hostname = defaultHostname srv (routeName route) in
      \<lparr>riRoute = route, riHostname = hostname, riURL = publicURL srv hostname\<rparr>)"

definition reconcileProxy :: "apiServer \<Rightarrow> ('z service_scheme, unit) prog" where
  "reconcileProxy srv = (if srvProxy srv then Caddy.Reconcile (srvCfg srv) else ret ())"

text \<open>The end of a handler that changed the tables.\<close>

definition reconciled :: "apiServer \<Rightarrow> nat \<Rightarrow> apiBody \<Rightarrow> ('z service_scheme, apiResponse) prog" where
  "reconciled srv status body = orError (\<lambda>_. 500) (reconcileProxy srv) (\<lambda>_. writeJSON status body)"

section \<open>Handlers: service\<close>

definition jsonStrs :: "string list \<Rightarrow> json" where
  "jsonStrs ss = JArr (map JStr ss)"

definition handleHelp :: "('s, apiResponse) prog" where
  "handleHelp = writeJSON 200 (BJson (JObj [
     (''api_version'', JNum 1),
     (''resources'', JObj [
       (''base_image'', jsonStrs [''POST /base-image/warmup'']),
       (''config'', jsonStrs [''GET /config'']),
       (''health'', jsonStrs [''GET /health'']),
       (''routes'', jsonStrs [''GET /routes'', ''POST /routes'', ''DELETE /routes/{name}'', ''POST /route-protections'',
          ''DELETE /route-protections/{hostname}'', ''POST /route-auth/signed-url'']),
       (''snapshots'', jsonStrs [''GET /snapshots'', ''POST /snapshots'', ''GET /snapshots/{name}'', ''DELETE /snapshots/{name}'',
          ''POST /snapshots/{name}/restore'', ''GET /snapshots/{name}/export'', ''POST /snapshots/{name}/import'']),
       (''usage'', jsonStrs [''GET /usage'', ''GET /vms/{uuid}/usage'']),
       (''vms'', jsonStrs [''GET /vms'', ''POST /vms'', ''GET /vms-by-name/{name}'', ''GET /vms/{uuid}'', ''PATCH /vms/{uuid}/settings'',
          ''DELETE /vms/{uuid}'', ''POST /vms/{uuid}/start'', ''POST /vms/{uuid}/activity'', ''POST /vms/{uuid}/stop'',
          ''POST /vms/{uuid}/sleep'', ''POST /vms/{uuid}/reboot'']),
       (''wireguard_peers'', jsonStrs [''GET /wireguard/peers'', ''GET /wireguard/peers/{name}/config''])]),
     (''service'', JStr ''firedoze'')]))"

definition handleHealth :: "('s, apiResponse) prog" where
  "handleHealth = writeJSON 200 (okStatus [(''status'', ''ok'')])"

definition handleWarmBaseImage :: "apiServer \<Rightarrow> ('z service_scheme, apiResponse) prog" where
  "handleWarmBaseImage srv = orError (\<lambda>_. 500) (WarmBaseImageMetadata (srvCfg srv)) (\<lambda>m. writeJSON 200 (BBaseImage m))"

definition handleConfig :: "apiServer \<Rightarrow> ('s, apiResponse) prog" where
  "handleConfig srv = (let cfg = srvCfg srv; fc = cfgFirecracker cfg; dns = cfgDNS cfg; wg = cfgWireGuard cfg in
     writeJSON 200 (BJson (JObj [
     (''api'', JObj [(''port'', JNum (cfgAPIPort cfg))]),
     (''base_domain'', JStr (cfgBaseDomain cfg)),
     (''caddy'', JObj [(''http_port'', JNum (caddyHTTPPort (cfgCaddy cfg))), (''https_port'', JNum (caddyHTTPSPort (cfgCaddy cfg))),
        (''internal_proxy_port'', JNum (caddyInternalProxyPort (cfgCaddy cfg))), (''tls_mode'', JStr (caddyTLSMode (cfgCaddy cfg)))]),
     (''cold_storage'', JObj [(''archive_stopped_after_seconds'', JNum (coldArchiveStoppedAfterSeconds (cfgColdStorage cfg))),
        (''dir'', JStr (coldDir (cfgColdStorage cfg)))]),
     (''default_http_port'', JNum (cfgDefaultHTTPPort cfg)),
     (''dns'', JObj [(''domain'', JStr (dnsDomain dns)), (''enabled'', JBool (dnsEnabled dns)), (''listen_ip'', JStr (dnsListenIP dns)),
        (''port'', JNum (dnsPort dns)), (''ttl_seconds'', JNum (dnsTTLSeconds dns)), (''upstream_servers'', jsonStrs (dnsUpstreamServers dns))]),
     (''firecracker'', JObj [(''base_initrd_path'', JStr (fcBaseInitrdPath fc)), (''base_kernel_path'', JStr (fcBaseKernelPath fc)),
        (''base_rootfs_path'', JStr (fcBaseRootfsPath fc)), (''binary_path'', JStr (fcBinaryPath fc)),
        (''default_disk_bytes'', JNum (fcDefaultDiskBytes fc)), (''default_memory_max_mib'', JNum (fcDefaultMemoryMaxMiB fc)),
        (''default_memory_min_mib'', JNum (fcDefaultMemoryMinMiB fc)), (''default_vcpus'', JNum (fcDefaultVCPUs fc))]),
     (''guest_control'', JObj [(''memory_port'', JNum (cfgMemoryPort cfg))]),
     (''idle'', JObj [(''check_interval_seconds'', JNum (idleCheckIntervalSeconds (cfgIdle cfg))),
        (''default_sleep_after_seconds'', JNum (idleDefaultSleepAfterSeconds (cfgIdle cfg)))]),
     (''ssh'', JObj [(''user'', JStr (sshUser (cfgSSH cfg)))]),
     (''vm_network'', JObj [(''ipv4_subnet'', JStr (netIPv4Subnet (cfgVMNetwork cfg))), (''subnet'', JStr (netSubnet (cfgVMNetwork cfg)))]),
     (''wireguard'', JObj [(''address'', JStr (wgAddress wg)), (''endpoint'', JStr (endpoint cfg)), (''interface'', JStr (wgInterface wg)),
        (''listen_port'', JNum (wgListenPort wg)), (''peers'', JNum (int (length (wgPeers wg))))])])))"

section \<open>Handlers: machines\<close>

definition handleListUsage :: "apiServer \<Rightarrow> string list \<Rightarrow> ('z service_scheme, apiResponse) prog" where
  "handleListUsage srv names =
     orError (\<lambda>_. 500) (ListVMResourceUsage (srvCfg srv) (srvKernel srv) names) (\<lambda>us. writeJSON 200 (BUsages us))"

definition handleListVMs :: "apiServer \<Rightarrow> string list \<Rightarrow> ('z service_scheme, apiResponse) prog" where
  "handleListVMs srv names = orError (\<lambda>_. 500) (ListVMsMatching names) (\<lambda>vms. writeJSON 200 (BVMs (map (vmInfoOf srv) vms)))"

definition handleGetVMUsage :: "apiServer \<Rightarrow> string \<Rightarrow> ('z service_scheme, apiResponse) prog" where
  "handleGetVMUsage srv u =
     orError (statusOf []) (mgrVMResourceUsage (srvCfg srv) (srvKernel srv) u) (\<lambda>usage. writeJSON 200 (BUsage usage))"

definition handleGetVM :: "apiServer \<Rightarrow> string \<Rightarrow> ('z service_scheme, apiResponse) prog" where
  "handleGetVM srv u =
     orError (statusOf [ErrUnsupportedSnapshotExport]) (GetVM u) (\<lambda>vm. writeJSON 200 (BVM (vmInfoOf srv vm)))"

definition handleGetVMByName :: "apiServer \<Rightarrow> string \<Rightarrow> ('z service_scheme, apiResponse) prog" where
  "handleGetVMByName srv name =
     orError (statusOf [ErrUnsupportedSnapshotExport]) (GetVMByName name) (\<lambda>vm. writeJSON 200 (BVM (vmInfoOf srv vm)))"

definition handleCreateVM :: "apiServer \<Rightarrow> string \<Rightarrow> string \<Rightarrow> ('z service_scheme, apiResponse) prog" where
  "handleCreateVM srv newUUID body =
     orError (\<lambda>_. 400) (fromSum (machineBody ''name'' body)) (\<lambda>p.
     if \<not> validVMName (srvHost srv) (cpName p) then badRequest ''name must be DNS-safe and must not be UUID-shaped'' else
     orError (\<lambda>_. 409) (mgrCreateVM (srvHost srv) newUUID p) (\<lambda>vm.
     reconciled srv 201 (BVM (vmInfoOf srv vm))))"

definition handleStartVM :: "apiServer \<Rightarrow> string \<Rightarrow> ('z service_scheme, apiResponse) prog" where
  "handleStartVM srv u =
     orError (statusOf [ErrAlreadyRunning]) (StartVM (srvHost srv) u) (\<lambda>vm. reconciled srv 200 (BVM (vmInfoOf srv vm)))"

definition handleTouchVMActivity :: "apiServer \<Rightarrow> string \<Rightarrow> ('z service_scheme, apiResponse) prog" where
  "handleTouchVMActivity srv u =
     orError (statusOf []) (GetVM u) (\<lambda>vm.
     if vmState vm \<noteq> ''running'' then writeError 409 (Sentinel ErrNotRunning) else
     orError (statusOf []) (TouchVMActivity u) (\<lambda>_.
     orError (\<lambda>_. 500) (GetVM u) (\<lambda>vm. writeJSON 200 (BVM (vmInfoOf srv vm)))))"

definition handleUpdateVMSettings :: "apiServer \<Rightarrow> string \<Rightarrow> string \<Rightarrow> ('z service_scheme, apiResponse) prog" where
  "handleUpdateVMSettings srv u body =
     orError (\<lambda>_. 400) (fromSum (settingsBody body)) (\<lambda>p.
     orError (\<lambda>e. if errIs e ErrNotFound then 404 else 400) (mgrUpdateVM u p) (\<lambda>vm.
     reconciled srv 200 (BVM (vmInfoOf srv vm))))"

definition handleDeleteVM :: "apiServer \<Rightarrow> string \<Rightarrow> ('z service_scheme, apiResponse) prog" where
  "handleDeleteVM srv u =
     orError (statusOf []) (mgrDeleteVM (srvCfg srv) u) (\<lambda>_. reconciled srv 200 (okStatus [(''status'', ''deleted'')]))"

definition handleStopVM :: "apiServer \<Rightarrow> string \<Rightarrow> ('z service_scheme, apiResponse) prog" where
  "handleStopVM srv u =
     orError (statusOf []) (StopVM u) (\<lambda>_. reconciled srv 200 (okStatus [(''status'', ''stopped'')]))"

definition handleSleepVM :: "apiServer \<Rightarrow> string \<Rightarrow> ('z service_scheme, apiResponse) prog" where
  "handleSleepVM srv u =
     orError (statusOf [ErrNotRunning]) (SleepVM (srvHost srv) u) (\<lambda>vm. reconciled srv 200 (BVM (vmInfoOf srv vm)))"

definition handleRebootVM :: "apiServer \<Rightarrow> string \<Rightarrow> ('z service_scheme, apiResponse) prog" where
  "handleRebootVM srv u =
     orError (statusOf [ErrAlreadyRunning]) (RebootVM (srvHost srv) u) (\<lambda>vm. reconciled srv 200 (BVM (vmInfoOf srv vm)))"

section \<open>Handlers: routes\<close>

definition handleListRoutes :: "apiServer \<Rightarrow> ('z service_scheme, apiResponse) prog" where
  "handleListRoutes srv = orError (\<lambda>_. 500) ListRoutes (\<lambda>routes. writeJSON 200 (BRoutes (map (routeInfoOf srv) routes)))"

definition handleCreateRoute :: "apiServer \<Rightarrow> string \<Rightarrow> ('z service_scheme, apiResponse) prog" where
  "handleCreateRoute srv body =
     orError (\<lambda>_. 400) (fromSum (routeBody body)) (\<lambda>p.
     if \<not> validRouteName (crName p) then badRequest ''route name must be one or more lowercase DNS labels separated by dots''
     else if crVMUUID p = [] then badRequest ''vm_uuid is required''
     else if crPort p \<le> 0 \<or> crPort p > 65535 then badRequest ''port must be between 1 and 65535'' else
     orError (\<lambda>_. 500) (VMExists (crName p)) (\<lambda>reserved.
     if reserved then writeError 409 (Msg ''route name is reserved by a VM default hostname'') else
     orError (\<lambda>_. 409) (CreateRoute p) (\<lambda>route.
     reconciled srv 201 (BRoute (routeInfoOf srv route)))))"

definition handleDeleteRoute :: "apiServer \<Rightarrow> string \<Rightarrow> ('z service_scheme, apiResponse) prog" where
  "handleDeleteRoute srv name =
     orError (statusOf []) (DeleteRoute name) (\<lambda>_. reconciled srv 200 (okStatus [(''status'', ''deleted'')]))"

definition handleProtectRoute :: "apiServer \<Rightarrow> string \<Rightarrow> ('z service_scheme, apiResponse) prog" where
  "handleProtectRoute srv body =
     orError (\<lambda>_. 400) (fromSum (hostnameBody body)) (\<lambda>hostname.
     orError (\<lambda>_. 400) (fromSum (normalizeRouteAuthHostname (srvCfg srv) hostname)) (\<lambda>hostname.
     orError (\<lambda>_. 500) (ProtectRouteHostname hostname) (\<lambda>_.
     reconciled srv 200 (okStatus [(''hostname'', hostname), (''status'', ''protected'')]))))"

definition handleUnprotectRoute :: "apiServer \<Rightarrow> string \<Rightarrow> ('z service_scheme, apiResponse) prog" where
  "handleUnprotectRoute srv hostname =
     orError (\<lambda>_. 400) (fromSum (normalizeRouteAuthHostname (srvCfg srv) hostname)) (\<lambda>hostname.
     orError (\<lambda>_. 500) (UnprotectRouteHostname hostname) (\<lambda>_.
     reconciled srv 200 (okStatus [(''hostname'', hostname), (''status'', ''unprotected'')])))"

definition handleRouteSignedURL :: "apiServer \<Rightarrow> string \<Rightarrow> ('z service_scheme, apiResponse) prog" where
  "handleRouteSignedURL srv body =
     orError (\<lambda>_. 400) (fromSum (signedURLBody body)) (\<lambda>(hostname, ttlSeconds).
     orError (\<lambda>_. 400) (fromSum (normalizeRouteAuthHostname (srvCfg srv) hostname)) (\<lambda>hostname.
     let ttlSeconds = (if ttlSeconds = 0 then 24 * 60 * 60 else ttlSeconds) in
     if ttlSeconds < 0 then badRequest ''ttl_seconds must be positive'' else
     let ttl = wrap64 (ttlSeconds * second) in
     orError (\<lambda>_. 500) (SignedURL hostname ttl) (\<lambda>signedURL.
     writeJSON 200 (BJson (JObj [(''hostname'', JStr hostname), (''ttl_seconds'', JNum (ttl div second)), (''url'', JStr signedURL)])))))"

section \<open>Handlers: snapshots\<close>

definition badSnapshotName :: "('s, apiResponse) prog" where
  "badSnapshotName = badRequest ''snapshot name must contain only letters, numbers, dots, underscores, and hyphens''"

definition handleListSnapshots :: "('z service_scheme, apiResponse) prog" where
  "handleListSnapshots = orError (\<lambda>_. 500) ListSnapshots (\<lambda>snapshots. writeJSON 200 (BSnapshots snapshots))"

definition handleGetSnapshot :: "string \<Rightarrow> ('z service_scheme, apiResponse) prog" where
  "handleGetSnapshot name = orError (statusOf []) (GetSnapshot name) (\<lambda>snapshot. writeJSON 200 (BSnapshot snapshot))"

definition snapshotRequest :: "string \<Rightarrow> string \<Rightarrow> CreateSnapshotParams" where
  "snapshotRequest name u = \<lparr>csName = name, csSourceVMUUID = u, csSourceVM = [], csStatePath = [], csMemPath = [], csDiskPath = [],
     csBaseImageID = [], csKernelID = [], csBaseImageMetadata = []\<rparr>"

definition handleCreateSnapshot :: "apiServer \<Rightarrow> string \<Rightarrow> ('z service_scheme, apiResponse) prog" where
  "handleCreateSnapshot srv body =
     orError (\<lambda>_. 400) (fromSum (snapshotBody body)) (\<lambda>(name, u).
     if \<not> validSnapshotName name then badSnapshotName
     else if u = [] then badRequest ''vm_uuid is required'' else
     orError (statusOf [ErrNotRunning, ErrRunning, ErrAlreadyRunning, ErrNotStopped]) (SaveSnapshot (srvHost srv) (snapshotRequest name u))
       (\<lambda>snapshot. writeJSON 201 (BSnapshot snapshot)))"

definition handleRestoreSnapshot :: "apiServer \<Rightarrow> string \<Rightarrow> string \<Rightarrow> string \<Rightarrow> ('z service_scheme, apiResponse) prog" where
  "handleRestoreSnapshot srv newUUID snapshotName body =
     orError (\<lambda>_. 400) (fromSum (machineBody ''vm_name'' body)) (\<lambda>p.
     if \<not> validSnapshotName snapshotName then badSnapshotName
     else if \<not> validVMName (srvHost srv) (cpName p) then badRequest ''vm_name must be DNS-safe and must not be UUID-shaped'' else
     orError (statusOf [ErrAlreadyExists]) (RestoreSnapshot (srvHost srv) newUUID snapshotName p) (\<lambda>vm.
     reconciled srv 201 (BVM (vmInfoOf srv vm))))"

definition handleExportSnapshot :: "string \<Rightarrow> ('z service_scheme, apiResponse) prog" where
  "handleExportSnapshot name =
     (if \<not> validSnapshotName name then badSnapshotName else
      orError (statusOf []) (ExportSnapshot name) (\<lambda>b. writeJSON 200 (BBundle (name @ ''.firedoze-snapshot.tgz'') b)))"

definition importStatus :: "err \<Rightarrow> nat" where
  "importStatus e = (if errIs e ErrInvalidSnapshotBundle then 400
     else if errIs e ErrAlreadyExists \<or> errIs e StoreErrAlreadyExists then 409 else 500)"

definition handleImportSnapshot :: "apiServer \<Rightarrow> string \<Rightarrow> snapshotBundle \<Rightarrow> ('z service_scheme, apiResponse) prog" where
  "handleImportSnapshot srv name b =
     (if \<not> validSnapshotName name then badSnapshotName else
      orError importStatus (ImportSnapshot (srvCfg srv) name b) (\<lambda>snapshot. writeJSON 201 (BSnapshot snapshot)))"

definition handleDeleteSnapshot :: "apiServer \<Rightarrow> string \<Rightarrow> ('z service_scheme, apiResponse) prog" where
  "handleDeleteSnapshot srv name =
     (if \<not> validSnapshotName name then badSnapshotName else
      orError (statusOf []) (mgrDeleteSnapshot (srvCfg srv) name) (\<lambda>_. writeJSON 200 (okStatus [(''status'', ''deleted'')])))"

section \<open>Handlers: WireGuard\<close>

definition handleListWireGuardPeers :: "apiServer \<Rightarrow> ('s, apiResponse) prog" where
  "handleListWireGuardPeers srv = writeJSON 200 (BJson (JObj [(''peers'', JArr (map (\<lambda>peer.
     JObj [(''allowed_ips'', jsonStrs (peerAllowedIPs peer)), (''name'', JStr (peerName peer))]) (wgPeers (cfgWireGuard (srvCfg srv)))))]))"

definition handleWireGuardPeerConfig :: "apiServer \<Rightarrow> string \<Rightarrow> ('z service_scheme, apiResponse) prog" where
  "handleWireGuardPeerConfig srv name =
     (case find (\<lambda>peer. peerName peer = name) (wgPeers (cfgWireGuard (srvCfg srv))) of
        None \<Rightarrow> writeError 404 (Wrap ''wireguard peer'' (Sentinel ErrNotFound))
      | Some peer \<Rightarrow> orError (\<lambda>_. 500) (PeerConfig (srvKeys srv) (srvCfg srv) peer) (\<lambda>cfg. writeJSON 200 (okStatus [(''config'', cfg)])))"

section \<open>Routing\<close>

record apiRequest =
  arMethod :: string
  arPath :: "string list"
  arNames :: "string list"
  arBody :: string
  arBundle :: snapshotBundle
  arUUID :: string

text \<open>The patterns of \<open>routes\<close>, with the segments that \<open>PathValue\<close> returns.\<close>

datatype apiCall =
    Help | Health | GetConfig | WarmBaseImage | ListUsage | ListMachines | CreateMachine | GetMachineByName string | GetUsage string
  | GetMachine string | UpdateSettings string | DeleteMachine string | StartMachine string | TouchActivity string | StopMachine string
  | SleepMachine string | RebootMachine string | ListRoutesCall | CreateRouteCall | DeleteRouteCall string | ProtectCall | UnprotectCall string
  | SignedURLCall | ListSnapshotsCall | CreateSnapshotCall | GetSnapshotCall string | DeleteSnapshotCall string | RestoreCall string
  | ExportCall string | ImportCall string | ListPeers | PeerConfigCall string

definition getCall :: "string list \<Rightarrow> apiCall" where
  "getCall path = (case path of
      [a] \<Rightarrow> if a = ''health'' then Health else if a = ''config'' then GetConfig else if a = ''usage'' then ListUsage
             else if a = ''vms'' then ListMachines else if a = ''routes'' then ListRoutesCall else if a = ''snapshots'' then ListSnapshotsCall
             else Help
    | [a, b] \<Rightarrow> if b = [] then Help else if a = ''vms-by-name'' then GetMachineByName b else if a = ''vms'' then GetMachine b
             else if a = ''snapshots'' then GetSnapshotCall b else if a = ''wireguard'' \<and> b = ''peers'' then ListPeers else Help
    | [a, b, c] \<Rightarrow> if a = ''vms'' \<and> c = ''usage'' then GetUsage b else if a = ''snapshots'' \<and> c = ''export'' then ExportCall b else Help
    | [a, b, c, d] \<Rightarrow> if a = ''wireguard'' \<and> b = ''peers'' \<and> d = ''config'' then PeerConfigCall c else Help
    | _ \<Rightarrow> Help)"

definition postCall :: "string list \<Rightarrow> apiCall option" where
  "postCall path = (case path of
      [a] \<Rightarrow> if a = ''vms'' then Some CreateMachine else if a = ''routes'' then Some CreateRouteCall
             else if a = ''route-protections'' then Some ProtectCall else if a = ''snapshots'' then Some CreateSnapshotCall else None
    | [a, b] \<Rightarrow> if a = ''base-image'' \<and> b = ''warmup'' then Some WarmBaseImage
             else if a = ''route-auth'' \<and> b = ''signed-url'' then Some SignedURLCall else None
    | [a, b, c] \<Rightarrow>
        if a = ''vms'' then
          (if c = ''start'' then Some (StartMachine b) else if c = ''activity'' then Some (TouchActivity b)
           else if c = ''stop'' then Some (StopMachine b) else if c = ''sleep'' then Some (SleepMachine b)
           else if c = ''reboot'' then Some (RebootMachine b) else None)
        else if a = ''snapshots'' then
          (if c = ''restore'' then Some (RestoreCall b) else if c = ''import'' then Some (ImportCall b) else None)
        else None
    | _ \<Rightarrow> None)"

definition deleteCall :: "string list \<Rightarrow> apiCall option" where
  "deleteCall path = (case path of
      [a, b] \<Rightarrow> if b = [] then None else if a = ''vms'' then Some (DeleteMachine b) else if a = ''routes'' then Some (DeleteRouteCall b)
             else if a = ''route-protections'' then Some (UnprotectCall b) else if a = ''snapshots'' then Some (DeleteSnapshotCall b) else None
    | _ \<Rightarrow> None)"

definition patchCall :: "string list \<Rightarrow> apiCall option" where
  "patchCall path = (case path of [a, b, c] \<Rightarrow> if a = ''vms'' \<and> c = ''settings'' then Some (UpdateSettings b) else None | _ \<Rightarrow> None)"

text \<open>A GET pattern also matches HEAD; \<open>GET /\<close> matches every path, so other methods get 405.\<close>

definition apiRoutes :: "string \<Rightarrow> string list \<Rightarrow> apiCall option" where
  "apiRoutes method path =
     (if method = ''GET'' \<or> method = ''HEAD'' then Some (getCall path) else if method = ''POST'' then postCall path
      else if method = ''DELETE'' then deleteCall path else if method = ''PATCH'' then patchCall path else None)"

definition apiHandle :: "apiServer \<Rightarrow> apiRequest \<Rightarrow> apiCall \<Rightarrow> ('z service_scheme, apiResponse) prog" where
  "apiHandle srv req c = (case c of
      Help \<Rightarrow> handleHelp | Health \<Rightarrow> handleHealth | GetConfig \<Rightarrow> handleConfig srv | WarmBaseImage \<Rightarrow> handleWarmBaseImage srv
    | ListUsage \<Rightarrow> handleListUsage srv (arNames req) | ListMachines \<Rightarrow> handleListVMs srv (arNames req)
    | CreateMachine \<Rightarrow> handleCreateVM srv (arUUID req) (arBody req) | GetMachineByName n \<Rightarrow> handleGetVMByName srv n
    | GetUsage u \<Rightarrow> handleGetVMUsage srv u | GetMachine u \<Rightarrow> handleGetVM srv u
    | UpdateSettings u \<Rightarrow> handleUpdateVMSettings srv u (arBody req) | DeleteMachine u \<Rightarrow> handleDeleteVM srv u
    | StartMachine u \<Rightarrow> handleStartVM srv u | TouchActivity u \<Rightarrow> handleTouchVMActivity srv u | StopMachine u \<Rightarrow> handleStopVM srv u
    | SleepMachine u \<Rightarrow> handleSleepVM srv u | RebootMachine u \<Rightarrow> handleRebootVM srv u
    | ListRoutesCall \<Rightarrow> handleListRoutes srv | CreateRouteCall \<Rightarrow> handleCreateRoute srv (arBody req)
    | DeleteRouteCall n \<Rightarrow> handleDeleteRoute srv n | ProtectCall \<Rightarrow> handleProtectRoute srv (arBody req)
    | UnprotectCall n \<Rightarrow> handleUnprotectRoute srv n | SignedURLCall \<Rightarrow> handleRouteSignedURL srv (arBody req)
    | ListSnapshotsCall \<Rightarrow> handleListSnapshots | CreateSnapshotCall \<Rightarrow> handleCreateSnapshot srv (arBody req)
    | GetSnapshotCall n \<Rightarrow> handleGetSnapshot n | DeleteSnapshotCall n \<Rightarrow> handleDeleteSnapshot srv n
    | RestoreCall n \<Rightarrow> handleRestoreSnapshot srv (arUUID req) n (arBody req) | ExportCall n \<Rightarrow> handleExportSnapshot n
    | ImportCall n \<Rightarrow> handleImportSnapshot srv n (arBundle req) | ListPeers \<Rightarrow> handleListWireGuardPeers srv
    | PeerConfigCall n \<Rightarrow> handleWireGuardPeerConfig srv n)"

definition apiServeHTTP :: "apiServer \<Rightarrow> apiRequest \<Rightarrow> ('z service_scheme, apiResponse) prog" where
  "apiServeHTTP srv req = (case apiRoutes (arMethod req) (arPath req) of
      None \<Rightarrow> writeJSON 405 (BError ''Method Not Allowed'') | Some c \<Rightarrow> apiHandle srv req c)"

section \<open>The guest API\<close>

definition memoryHintBody :: "string \<Rightarrow> err + (int option \<times> GuestMemoryReport)" where
  "memoryHintBody body =
     sumBind (bodyFields body) (\<lambda>fs.
     sumBind (optIntField fs ''target_mib'') (\<lambda>target.
     sumBind (intField fs ''total_mib'') (\<lambda>totalMiB.
     sumBind (intField fs ''available_mib'') (\<lambda>available.
     sumBind (intField fs ''free_mib'') (\<lambda>free.
     sumBind (intField fs ''buffers_mib'') (\<lambda>buffers.
     sumBind (intField fs ''cached_mib'') (\<lambda>cached.
     sumBind (intField fs ''swap_total_mib'') (\<lambda>swapTotal.
     sumBind (intField fs ''swap_free_mib'') (\<lambda>swapFree.
     sumBind (uintField fs ''root_disk_total_bytes'') (\<lambda>diskTotal.
     sumBind (uintField fs ''root_disk_free_bytes'') (\<lambda>diskFree.
     sumBind (floatField fs ''load1'') (\<lambda>load1.
     sumBind (floatField fs ''load5'') (\<lambda>load5.
     sumBind (floatField fs ''load15'') (\<lambda>load15.
     Inr (target, \<lparr>grReportedAt = [], grTotalMiB = totalMiB, grAvailableMiB = available, grFreeMiB = free, grBuffersMiB = buffers,
       grCachedMiB = cached, grSwapTotalMiB = swapTotal, grSwapFreeMiB = swapFree, grRootDiskTotalBytes = diskTotal,
       grRootDiskFreeBytes = diskFree, grLoad1 = load1, grLoad5 = load5, grLoad15 = load15, grLastTargetMiB = 0\<rparr>)))))))))))))))"

text \<open>\<open>strings.Trim(s, "[]")\<close>\<close>

definition trimBrackets :: "string \<Rightarrow> string" where
  "trimBrackets s = rev (dropWhile (\<lambda>c. c \<in> {CHR ''['', CHR '']''}) (rev (dropWhile (\<lambda>c. c \<in> {CHR ''['', CHR '']''}) s)))"

definition memoryHintStatus :: "err \<Rightarrow> nat" where
  "memoryHintStatus e = (if errIs e ErrNotFound then 403 else if errIs e ErrNotRunning then 409 else 500)"

definition handleMemoryHint :: "string \<Rightarrow> string \<Rightarrow> ('z mgr_scheme, apiResponse) prog" where
  "handleMemoryHint remoteAddr body =
     orError (\<lambda>_. 400) (fromSum (memoryHintBody body)) (\<lambda>(target, report).
     if (case target of None \<Rightarrow> False | Some t \<Rightarrow> t \<le> 0) then badRequest ''target_mib must be positive'' else
     case SplitHostPort remoteAddr of
       None \<Rightarrow> writeError 403 (Msg ''missing port in address'')
     | Some (remoteIP, _) \<Rightarrow>
         orError memoryHintStatus (RecordVMMemoryReportByPrivateIP (trimBrackets remoteIP) target report) (\<lambda>usage.
         writeJSON 200 (BMemory usage)))"

end
