(* ===== verification/Api_Results.thy ===== *)
theory Api_Results
  imports Api Snapshot_Results Proxy
begin

text \<open>
  What the management API guarantees: names and sizes in the tables stay well formed in every run of the
  daemon, a change that is reported as done is also published, and a guest reports only for itself.
\<close>

section \<open>Well-formed rows\<close>

definition machineOK :: "host \<Rightarrow> vmRow \<Rightarrow> bool" where
  "machineOK h r \<longleftrightarrow> validVMName h (cName r) \<and> cMemoryMinMib r \<le> cMemoryMaxMib r \<and>
     validateMemoryHotplugRange (cMemoryMinMib r) (cMemoryMaxMib r) = Inr () \<and> 0 \<le> cIdleSleepAfterSeconds r"

definition typedTables :: "host \<Rightarrow> 'z store_scheme \<Rightarrow> bool" where
  "typedTables h s \<longleftrightarrow> (\<forall>r \<in> set (vmsT s). machineOK h r) \<and> (\<forall>r \<in> set (routesT s). validRouteName (rName r)) \<and>
     (\<forall>r \<in> set (snapshotsT s). validSnapshotName (sName r))"

lemma typed_frame [simp]:
  "typedTables h (s\<lparr>outcomes := a\<rparr>) = typedTables h s" "typedTables h (s\<lparr>files := b\<rparr>) = typedTables h s"
  by (simp_all add: typedTables_def)

lemma typed_blind [simp]: "outcome_blind (typedTables h)" "files_blind (typedTables h)"
  by (simp_all add: outcome_blind_def files_blind_def)

lemma keeps_typed_row:
  assumes "\<And>s r. machineOK h r \<Longrightarrow> machineOK h (f s r)"
  shows "keeps (typedTables h) (updateVMRow u f)"
  by (rule keeps_updateVMRow) (auto simp: typedTables_def assms)

lemma typed_sturdy [simp]: "sturdy (typedTables h)"
proof (rule sturdyI)
  show "steady (typedTables h)"
    unfolding steady_def SetVMState_def SetVMArchivedDiskPath_def
    by (auto intro!: keeps_typed_row simp: machineOK_def) (simp_all add: typedTables_def)
qed (simp_all add: launchable_def typedTables_def keyed_def vmKeys_def)

lemma keeps_bind_value:
  assumes "keeps I m" "\<And>s x t. m s = (Inr x, t) \<Longrightarrow> keeps I (f x)"
  shows "keeps I (bind m f)"
  using assms by (auto simp: keeps_def bind_def split: prod.splits sum.splits)

lemma keeps_fromSum_bind: "(\<And>x. r = Inr x \<Longrightarrow> keeps I (f x)) \<Longrightarrow> keeps I (bind (fromSum r) f)"
  by (auto simp: keeps_def bind_def fromSum_def ret_def throw_def split: sum.splits)

lemma CreateVM_typed: "machineOK h (vmRowOf [] [] p) \<Longrightarrow> keeps (typedTables h) (CreateVM f n p)"
  unfolding CreateVM_def
  by (intro keeps_rules keeps_exec typed_blind) (auto simp: typedTables_def machineOK_def vmRowOf_def)

lemma storeVM_typed: "machineOK h (vmRowOf [] [] p) \<Longrightarrow> keeps (typedTables h) (storeVM h' n p)"
  unfolding storeVM_def by (intro keeps_rules CreateVM_typed)

lemma filled_machineOK:
  assumes "fillVMParams cfg d p = Inr q" "validVMName h (cpName p)"
  shows "machineOK h (vmRowOf [] [] q)"
  using assms by (auto simp: fillVMParams_def Let_def machineOK_def vmRowOf_def split: if_splits sum.splits)

lemma choosePrivateIP_row:
  assumes "choosePrivateIP cfg p s = (Inr q, t)"
  shows "\<exists>ip. q = p\<lparr>cpPrivateIP := ip\<rparr>"
  using assms by (auto simp: choosePrivateIP_def bind_def ret_def split: if_splits prod.splits sum.splits intro: exI [of _ "cpPrivateIP p"])

lemma machineOK_params [simp]:
  "machineOK h (vmRowOf [] [] (p\<lparr>cpPrivateIP := ip\<rparr>)) = machineOK h (vmRowOf [] [] p)"
  "machineOK h (vmRowOf [] [] (applyBaseImageMetadata p m)) = machineOK h (vmRowOf [] [] p)"
  "machineOK h (vmRowOf [] [] (p\<lparr>cpBaseImageID := a, cpKernelID := b, cpBaseImageMetadata := c\<rparr>)) = machineOK h (vmRowOf [] [] p)"
  by (simp_all add: machineOK_def vmRowOf_def applyBaseImageMetadata_def)

lemma choose_typed:
  fixes f :: "CreateVMParams \<Rightarrow> ('z mgr_scheme, 'b) prog"
  assumes "\<And>ip. keeps (typedTables h) (f (p\<lparr>cpPrivateIP := ip\<rparr>))"
  shows "keeps (typedTables h) (bind (choosePrivateIP cfg p) f)"
  by (rule keeps_bind_value [OF stop_steady(5) [OF sturdyD(1) [OF typed_sturdy]]]) (use choosePrivateIP_row assms in blast)

lemma creations_typed:
  assumes "validVMName h (cpName p)"
  shows "keeps (typedTables h) (mgrCreateVM h' n p)" "keeps (typedTables h) (RestoreSnapshot h' n sn p)"
proof -
  note st = steadyD [OF sturdyD(1) [OF typed_sturdy]] sturdyD(1) [OF typed_sturdy]
  show "keeps (typedTables h) (mgrCreateVM h' n p)"
    unfolding mgrCreateVM_def
    by (intro keeps_bind keeps_if keeps_throw keeps_fromSum_bind choose_typed storeVM_typed; (intro keeps_rules st)?)
       (simp add: filled_machineOK [OF _ assms])
  show "keeps (typedTables h) (RestoreSnapshot h' n sn p)"
    unfolding RestoreSnapshot_def Let_def
    by (intro keeps_bind keeps_if keeps_throw keeps_fromSum_bind choose_typed storeVM_typed; (intro keeps_rules st)?)
       (simp add: filled_machineOK [OF _ assms])
qed

lemma settings_typed: "keeps (typedTables h) (mgrUpdateVM u p)"
proof (rule keeps_wpI)
  fix s :: "'z mgr_scheme" assume s: "typedTables h s"
  have ok: "keeps (typedTables h) (bind (updateVMRow u (\<lambda>s r. r\<lparr>cDefaultHttpPort := a, cIdleSleepAfterSeconds := b, cAutoWake := c,
      cPublicHttp := d\<rparr>)) (\<lambda>_. GetVM u))" if "0 \<le> b" for a b c d
    by (intro keeps_rules keeps_typed_row typed_blind) (use that in \<open>simp add: machineOK_def\<close>)
  have row: "0 \<le> vmIdleSleepAfterSeconds (scanVM r)" if "find (\<lambda>r. cUuid r = u) (vmsT s) = Some r" for r
    using s find_SomeD [OF that] by (auto simp: typedTables_def machineOK_def scanVM_def)
  show "wp (mgrUpdateVM u p) (\<lambda>_. typedTables h) (\<lambda>_. typedTables h) s"
    unfolding mgrUpdateVM_def UpdateVM_def Let_def wp_if wp_throw wp_bind [of "GetVM u"]
    using s row by (auto intro!: wp_GetVM keeps_wp [OF ok] simp: orElse_def split: option.splits)
qed

lemma tables_typed:
  "keeps (typedTables h) (TouchVMActivity u)" "keeps (typedTables h) (DeleteVM u)" "keeps (typedTables h) (DeleteRoutesForVM u)"
  "keeps (typedTables h) (DeleteRoute n)" "keeps (typedTables h) (ProtectRouteHostname n)" "keeps (typedTables h) (UnprotectRouteHostname n)"
  "validRouteName (crName rp) \<Longrightarrow> keeps (typedTables h) (CreateRoute rp)"
  "validSnapshotName (csName sp) \<Longrightarrow> keeps (typedTables h) (CreateSnapshot sp)" "keeps (typedTables h) (DeleteSnapshot n)"
proof -
  show "keeps (typedTables h) (TouchVMActivity u)"
    unfolding TouchVMActivity_def by (rule keeps_typed_row) (simp add: machineOK_def)
  show "keeps (typedTables h) (DeleteVM u)" "keeps (typedTables h) (DeleteRoutesForVM u)"
    "keeps (typedTables h) (DeleteRoute n)" "keeps (typedTables h) (ProtectRouteHostname n)" "keeps (typedTables h) (UnprotectRouteHostname n)"
    "keeps (typedTables h) (DeleteSnapshot n)"
    unfolding DeleteVM_def DeleteRoutesForVM_def DeleteRoute_def ProtectRouteHostname_def UnprotectRouteHostname_def DeleteSnapshot_def Let_def
    by (intro keeps_rules keeps_exec keeps_modify typed_blind; auto simp: typedTables_def)+
  show "validRouteName (crName rp) \<Longrightarrow> keeps (typedTables h) (CreateRoute rp)"
    unfolding CreateRoute_def by (intro keeps_rules keeps_exec typed_blind) (auto simp: typedTables_def)
  show "validSnapshotName (csName sp) \<Longrightarrow> keeps (typedTables h) (CreateSnapshot sp)"
    unfolding CreateSnapshot_def
    by (intro keeps_rules keeps_exec keeps_modify typed_blind) (auto simp: typedTables_def snapshotRowOf_def)
qed

lemma guarded_typed:
  "keeps (typedTables h) (mgrDeleteVM cfg u)" "keeps (typedTables h) (mgrDeleteSnapshot cfg n)"
  "validSnapshotName (csName p) \<Longrightarrow> keeps (typedTables h) (SaveSnapshot h' p)"
proof -
  note st = steadyD [OF sturdyD(1) [OF typed_sturdy]] sturdyD(1) [OF typed_sturdy]
  have g: "keeps (typedTables h) (beginVMOperationCancelingColdArchive u)" "keeps (typedTables h) (endVMOperation u)" for u
    by (intro guards_steady st; simp add: typedTables_def)+
  show "keeps (typedTables h) (mgrDeleteVM cfg u)"
    unfolding mgrDeleteVM_def deleteGuarded_def Let_def
    by (intro keeps_bind keeps_deferring keeps_if tables_typed g keeps_modify; (intro keeps_rules st)?) (simp add: typedTables_def)
  show "keeps (typedTables h) (mgrDeleteSnapshot cfg n)"
    unfolding mgrDeleteSnapshot_def by (intro keeps_bind tables_typed; intro keeps_rules st)
  show "validSnapshotName (csName p) \<Longrightarrow> keeps (typedTables h) (SaveSnapshot h' p)"
    unfolding SaveSnapshot_def snapshotGuarded_def Let_def
    by (intro keeps_bind keeps_deferring keeps_if keeps_throw tables_typed g; (intro keeps_rules st)?) simp
qed

section \<open>What every request keeps\<close>

lemma keeps_if_cond: "(c \<Longrightarrow> keeps I a) \<Longrightarrow> (\<not> c \<Longrightarrow> keeps I b) \<Longrightarrow> keeps I (if c then a else b)"
  by simp

lemma keeps_node: "keeps I a \<Longrightarrow> (\<And>c. keeps I (f c)) \<Longrightarrow> keeps I (case n of Dir \<Rightarrow> a | File c \<Rightarrow> f c)"
  by (cases n) simp_all

lemma keeps_answers: "keeps I (writeJSON st b)" "keeps I (writeError st e)" "keeps I (badRequest m)" "keeps I badSnapshotName"
  by (simp_all add: writeJSON_def writeError_def badRequest_def badSnapshotName_def keeps_ret)

lemma keeps_orError: "keeps I m \<Longrightarrow> (\<And>x. keeps I (k x)) \<Longrightarrow> keeps I (orError st m k)"
  unfolding orError_def by (intro keeps_bind keeps_attempt) (auto intro: keeps_answers split: sum.split)

lemmas keeps_handler = keeps_answers keeps_orError keeps_if_cond keeps_fromSum

lemma import_keeps:
  assumes "files_blind I" and "\<And>p. csName p = name \<Longrightarrow> keeps I (CreateSnapshot p)"
  shows "keeps I (ImportSnapshot cfg name b)"
proof -
  note b = assms(1) files_blind_outcome [OF assms(1)]
  have u: "keeps I (unpackSnapshotBundle b f)" for f
    by (intro unpackSnapshotBundle_keeps; (unfold unpackDisk_def)?; (intro keeps_rules b)?)
  have "keeps I (unpackAndMove tmp dir b)" for tmp dir
    unfolding unpackAndMove_def onError_def by (intro keeps_rules u b)
  moreover have "keeps I (registerImport l name m)" for l m
    unfolding registerImport_def by (intro keeps_bind keeps_attempt assms(2); (intro keeps_rules b)?) simp
  ultimately show ?thesis
    unfolding ImportSnapshot_def osMkdirTemp_def Let_def by (intro keeps_bind keeps_if keeps_throw; (intro keeps_rules b)?)
qed

text \<open>
  What an invariant of the daemon has to be kept by: the operations of the store and of the manager that
  the handlers call, on the arguments the handlers let through.
\<close>

locale api_contract =
  fixes I :: "'z service_scheme \<Rightarrow> bool" and h :: host
  assumes I_sturdy: "sturdy I"
    and I_authKey: "I (s\<lparr>authKey := k\<rparr>) = I s" and I_caddyData: "I (s\<lparr>caddyData := c\<rparr>) = I s"
    and I_create: "validVMName h (cpName p) \<Longrightarrow> keeps I (mgrCreateVM h n p)"
    and I_restore: "validVMName h (cpName p) \<Longrightarrow> keeps I (RestoreSnapshot h n sn p)"
    and I_update: "keeps I (mgrUpdateVM u up)" and I_delete: "keeps I (mgrDeleteVM cfg u)" and I_touch: "keeps I (TouchVMActivity u)"
    and I_route: "validRouteName (crName rp) \<Longrightarrow> keeps I (CreateRoute rp)" and I_noRoute: "keeps I (DeleteRoute n)"
    and I_protect: "keeps I (ProtectRouteHostname n)" "keeps I (UnprotectRouteHostname n)"
    and I_save: "validSnapshotName (csName sp) \<Longrightarrow> keeps I (SaveSnapshot h sp)"
    and I_snapshot: "validSnapshotName (csName sp) \<Longrightarrow> keeps I (CreateSnapshot sp)"
    and I_noSnapshot: "keeps I (mgrDeleteSnapshot cfg n)"
begin

lemmas calm = sturdyD [OF I_sturdy] steadyD [OF sturdyD(1) [OF I_sturdy]]

lemma reconcile_keeps: "keeps I (Caddy.Reconcile cfg)"
  unfolding Caddy.Reconcile_def Let_def by (intro keeps_rules keeps_modify calm) (simp add: I_caddyData)

lemma reconciled_keeps: "keeps I (reconciled srv st b)"
  unfolding reconciled_def reconcileProxy_def by (intro keeps_handler keeps_ret reconcile_keeps)

lemma keyBytes_keeps: "keeps I keyBytes"
  unfolding keyBytes_def loadOrGenerateKey_def randRead_def
  by (intro keeps_rules keeps_modify calm; (simp add: I_authKey calm)?)

lemma token_keeps: "keeps I (Token host e)" "keeps I (Routeauth.Validate t host)" "keeps I (SetCookie host e)"
  "keeps I (Approved cookies host)" "keeps I (SignedURL host ttl)"
proof -
  show t: "keeps I (Token host e)" for e unfolding Token_def Let_def by (intro keeps_rules keyBytes_keeps)
  show v: "keeps I (Routeauth.Validate t host)" for t
    unfolding Routeauth.Validate_def by (intro keeps_rules keyBytes_keeps)
  show "keeps I (SetCookie host e)" "keeps I (SignedURL host ttl)"
    unfolding SetCookie_def SignedURL_def Let_def by (intro keeps_rules t)+
  show "keeps I (Approved cookies host)" unfolding Approved_def by (intro keeps_rules v)
qed

lemma machine_handlers_keep:
  assumes "srvHost srv = h"
  shows "keeps I (handleCreateVM srv n b)" "keeps I (handleStartVM srv u)" "keeps I (handleTouchVMActivity srv u)"
    "keeps I (handleUpdateVMSettings srv u b)" "keeps I (handleDeleteVM srv u)" "keeps I (handleStopVM srv u)"
    "keeps I (handleSleepVM srv u)" "keeps I (handleRebootVM srv u)"
  unfolding handleCreateVM_def handleStartVM_def handleTouchVMActivity_def handleUpdateVMSettings_def handleDeleteVM_def handleStopVM_def
    handleSleepVM_def handleRebootVM_def assms
  by (intro keeps_handler reconciled_keeps I_create I_update I_delete I_touch GetVM_keeps stop_steady sturdy_ops calm I_sturdy; simp)+

lemma table_handlers_keep:
  assumes "srvHost srv = h"
  shows "keeps I (handleListRoutes srv)" "keeps I (handleCreateRoute srv b)" "keeps I (handleDeleteRoute srv n)"
    "keeps I (handleProtectRoute srv b)" "keeps I (handleUnprotectRoute srv n)" "keeps I (handleRouteSignedURL srv b)"
    "keeps I handleListSnapshots" "keeps I (handleGetSnapshot n)" "keeps I (handleCreateSnapshot srv b)"
    "keeps I (handleRestoreSnapshot srv n sn b)" "keeps I (handleExportSnapshot n)" "keeps I (handleImportSnapshot srv n bu)"
    "keeps I (handleDeleteSnapshot srv n)"
proof -
  note b = calm(4,5) I_sturdy
  have export: "keeps I (ExportSnapshot n)" for n
    unfolding ExportSnapshot_def writeTarFile_def Let_def by (intro keeps_rules keeps_node calm)
  show "keeps I (handleListRoutes srv)" "keeps I (handleCreateRoute srv b)" "keeps I (handleDeleteRoute srv n)"
    "keeps I (handleProtectRoute srv b)" "keeps I (handleUnprotectRoute srv n)"
    "keeps I handleListSnapshots" "keeps I (handleGetSnapshot n)" "keeps I (handleDeleteSnapshot srv n)" "keeps I (handleExportSnapshot n)"
    unfolding handleListRoutes_def handleCreateRoute_def handleDeleteRoute_def handleProtectRoute_def handleUnprotectRoute_def
      handleListSnapshots_def handleGetSnapshot_def handleDeleteSnapshot_def handleExportSnapshot_def
    by (intro keeps_handler reconciled_keeps I_route I_noRoute I_protect I_noSnapshot export reads_keep GetSnapshot_keeps calm; simp)+
  show "keeps I (handleRouteSignedURL srv b)"
    unfolding handleRouteSignedURL_def Let_def by (intro keeps_handler keeps_prod token_keeps)
  show "keeps I (handleCreateSnapshot srv b)" "keeps I (handleRestoreSnapshot srv n sn b)" "keeps I (handleImportSnapshot srv n bu)"
    unfolding handleCreateSnapshot_def handleRestoreSnapshot_def handleImportSnapshot_def assms
    by (intro keeps_handler keeps_prod reconciled_keeps I_save I_restore I_snapshot import_keeps calm; simp add: snapshotRequest_def)+
qed

lemma reading_handlers_keep:
  shows "keeps I handleHelp" "keeps I handleHealth" "keeps I (handleConfig srv)" "keeps I (handleWarmBaseImage srv)"
    "keeps I (handleListUsage srv ns)" "keeps I (handleListVMs srv ns)" "keeps I (handleGetVMUsage srv u)" "keeps I (handleGetVM srv u)"
    "keeps I (handleGetVMByName srv n)" "keeps I (handleListWireGuardPeers srv)" "keeps I (handleWireGuardPeerConfig srv n)"
  unfolding handleHelp_def handleHealth_def handleConfig_def handleWarmBaseImage_def handleListUsage_def handleListVMs_def
    handleGetVMUsage_def handleGetVM_def handleGetVMByName_def handleListWireGuardPeers_def handleWireGuardPeerConfig_def
    WarmBaseImageMetadata_def PeerConfig_def ServerPublicKey_def readServerPrivateKey_def Let_def
  by (intro keeps_handler keeps_rules calm I_sturdy)+

lemma api_keeps:
  assumes "srvHost srv = h"
  shows "keeps I (apiServeHTTP srv req)"
proof -
  have "keeps I (apiHandle srv req c)" for c
    unfolding apiHandle_def
    by (cases c; simp only: apiCall.case; rule machine_handlers_keep [OF assms] table_handlers_keep [OF assms] reading_handlers_keep)
  then show ?thesis unfolding apiServeHTTP_def by (auto intro: keeps_answers split: option.split)
qed

lemma hint_keeps: "keeps I (handleMemoryHint addr b)"
  unfolding handleMemoryHint_def
  by (intro keeps_handler keeps_prod keeps_option sturdy_ops I_sturdy)

lemma idle_keeps: "keeps I (IdleMonitor_check h (Some (Caddy.Reconcile cfg)) now)"
  unfolding IdleMonitor_check_def sleepIdleVM_def option.case by (intro keeps_rules reconcile_keeps calm)

lemma cold_keeps: "keeps I (ColdStorageMonitor_check cfg now)"
  unfolding ColdStorageMonitor_check_def by (intro keeps_rules calm)

lemma proxies_keep: "keeps I (ServeHTTP cfg (StartVM h) cap r)" "keeps I (handleSSHConn (StartVM h) dst)"
proof -
  have wake: "keeps I (wakeVM (StartVM h) vm)" for vm unfolding wakeVM_def by (intro keeps_rules calm)
  have fwd: "keeps I (forwardTo vm port)" for vm port unfolding forwardTo_def by (intro keeps_rules I_touch)
  have gate: "keeps I (gateHandle cap r host)" for host
    unfolding gateHandle_def verify_def by (intro keeps_rules token_keeps)
  have serve: "keeps I (serveRoute (StartVM h) cap r vm port)" for vm port
    unfolding serveRoute_def serveAllowed_def Let_def by (intro keeps_rules token_keeps wake fwd gate calm)
  show "keeps I (ServeHTTP cfg (StartVM h) cap r)"
    unfolding ServeHTTP_def handleSignedAuthURL_def routeForHost_def Let_def by (intro keeps_rules token_keeps serve calm)
  show "keeps I (handleSSHConn (StartVM h) dst)"
    unfolding handleSSHConn_def connectSSH_def vmByPrivateIP_def by (intro keeps_rules wake I_touch calm)
qed

end

interpretation tables: api_contract wfStore h for h :: host
  by unfold_locales (intro wfStore_sturdy mgr_tables_wf keeps_rules | simp add: wfStore_def)+

interpretation procs: api_contract procsOK h for h :: host
  by unfold_locales (intro procsOK_sturdy growing_ops growing_writes guarded_ops_procs growing_instances | simp add: procsOK_def vmKeys_def)+

interpretation guards: api_contract "guardsAre [] []" h for h :: host
  by unfold_locales (intro guards_sturdy growing_ops growing_writes guarded_ops_guards growing_instances | simp add: guardsAre_def)+

interpretation typing: api_contract "typedTables h" h for h :: host
  by unfold_locales (intro typed_sturdy creations_typed settings_typed tables_typed guarded_typed | assumption | simp add: typedTables_def)+

section \<open>Runs of the daemon\<close>

text \<open>
  The states the daemon reaches from \<open>s\<close>: requests to the API, reports of guests, requests and connections
  to the wake proxies, rounds of the two monitors and ends of Firecracker processes come in any order;
  between them time passes and the world outside changes.
\<close>

inductive daemon :: "apiServer \<Rightarrow> 'z service_scheme \<Rightarrow> 'z service_scheme \<Rightarrow> bool" for srv s where
  boot: "daemon srv s s"
| api: "daemon srv s t \<Longrightarrow> daemon srv s (snd (apiServeHTTP srv req t))"
| guest: "daemon srv s t \<Longrightarrow> daemon srv s (snd (handleMemoryHint addr body t))"
| web: "daemon srv s t \<Longrightarrow> daemon srv s (snd (ServeHTTP (srvCfg srv) (StartVM (srvHost srv)) cap r t))"
| ssh: "daemon srv s t \<Longrightarrow> daemon srv s (snd (handleSSHConn (StartVM (srvHost srv)) dst t))"
| idle: "daemon srv s t \<Longrightarrow> daemon srv s (snd (IdleMonitor_check (srvHost srv) (Some (Caddy.Reconcile (srvCfg srv))) now t))"
| cold: "daemon srv s t \<Longrightarrow> daemon srv s (snd (ColdStorageMonitor_check (srvCfg srv) now t))"
| exited: "daemon srv s t \<Longrightarrow> daemon srv s (snd (processExit p t))"
| pass: "daemon srv s t \<Longrightarrow> daemon srv s (t\<lparr>clock := c, sqlnow := q, outcomes := rs, files := fs\<rparr>)"

lemma daemon_keeps:
  assumes "api_contract I (srvHost srv)" "\<And>t c q rs fs. I t \<Longrightarrow> I (t\<lparr>clock := c, sqlnow := q, outcomes := rs, files := fs\<rparr>)"
    and "I s" "daemon srv s t"
  shows "I t"
  using assms(4)
proof (induction rule: daemon.induct)
  case (exited t p)
  have "steady I" by (rule sturdyD(1) [OF api_contract.I_sturdy [OF assms(1)]])
  then have "keeps I (processExit p)" by (intro keeps_rules)
  then show ?case using exited.IH by (rule keepsD)
qed (use assms in \<open>blast intro: keepsD [OF api_contract.api_keeps] keepsD [OF api_contract.hint_keeps] keepsD [OF api_contract.idle_keeps]
  keepsD [OF api_contract.cold_keeps] keepsD [OF api_contract.proxies_keep(1)] keepsD [OF api_contract.proxies_keep(2)]\<close>)+

lemma valid_plain: "validVMName h n \<Longrightarrow> plainElem n" "validSnapshotName n \<Longrightarrow> plainElem n"
proof -
  have slash: "\<not> lowerAlnum (CHR ''/'')" "\<not> alnum (CHR ''/'')" "\<not> lowerAlnum (CHR ''.'')" "\<not> alnum (CHR ''.'')"
    by (simp_all add: lowerAlnum_def alnum_def)
  show "validVMName h n \<Longrightarrow> plainElem n" "validSnapshotName n \<Longrightarrow> plainElem n"
    using slash by (auto simp: validVMName_def validDNSLabel_def validSnapshotName_def plainElem_def list_all_iff)
qed

text \<open>
  C38: In every state the daemon reaches from one where this holds, the tables are well typed: the name of every machine is a DNS
  label and does not parse as a UUID, its memory range is one that hot-plugging accepts, its idle time
  is not negative; every route has a name of DNS labels and every snapshot a name of the allowed
  characters; so every name that is made into a path is a single plain path element.  Together with
  this, keys are unique, processes belong to machines and no guard is left held.  This holds for all
  requests in all orders, one after the other, whichever calls fail.
\<close>

theorem daemon_keeps_types:
  assumes "serviceInv s" and "typedTables (srvHost srv) s" and "daemon srv s t"
  shows "serviceInv t \<and> typedTables (srvHost srv) t \<and>
     (\<forall>r \<in> set (vmsT t). plainElem (cName r)) \<and> (\<forall>r \<in> set (snapshotsT t). plainElem (sName r))"
proof -
  have inv: "wfStore s" "procsOK s" "guardsAre [] [] s" using assms(1) by (simp_all add: serviceInv_def)
  have "wfStore t" by (rule daemon_keeps [OF tables.api_contract_axioms _ inv(1) assms(3)]) (simp add: wfStore_def)
  moreover have "procsOK t" by (rule daemon_keeps [OF procs.api_contract_axioms _ inv(2) assms(3)]) (simp add: procsOK_def vmKeys_def)
  moreover have "guardsAre [] [] t" by (rule daemon_keeps [OF guards.api_contract_axioms _ inv(3) assms(3)]) (simp add: guardsAre_def)
  moreover have ty: "typedTables (srvHost srv) t"
    by (rule daemon_keeps [OF typing.api_contract_axioms _ assms(2,3)]) (simp add: typedTables_def)
  ultimately show ?thesis using valid_plain by (auto simp: serviceInv_def typedTables_def machineOK_def)
qed

text \<open>A daemon with one machine and without a proxy; a request without a body.\<close>

definition sampleServer :: apiServer where
  "sampleServer = \<lparr>srvHost = sampleHost, srvKernel = \<lparr>kvPid = \<lambda>_. 0, kvCgroupPath = \<lambda>_. [], kvBlocks = \<lambda>_. 0\<rparr>, srvKeys = sampleKeys,
     srvProxy = False\<rparr>"

definition sampleService :: service where
  "sampleService = mgr.extend oneMachine (service.fields None)"

definition bareRequest :: "string \<Rightarrow> string list \<Rightarrow> apiRequest" where
  "bareRequest method path = \<lparr>arMethod = method, arPath = path, arNames = [], arBody = [],
     arBundle = \<lparr>bdGzip = False, bdEntries = [], bdBroken = False\<rparr>, arUUID = ''u2''\<rparr>"

lemma sampleService_ok: "serviceInv sampleService" "typedTables (srvHost sampleServer) sampleService"
proof -
  show "serviceInv sampleService"
    by (auto simp: sampleService_def mgr.defs service.defs oneMachine_def serviceInv_def wfStore_def procsOK_def vmKeys_def guardsAre_def
        sampleMgr_def sampleAuth_def emptyStore_def auth.defs store.defs vmRowOf_def sampleParams_def)
  have "validVMName sampleHost ''dev''"
    by (simp add: validVMName_def validDNSLabel_def lowerAlnum_def sampleHost_def)
  then show "typedTables (srvHost sampleServer) sampleService"
    by (simp add: typedTables_def machineOK_def sampleService_def mgr.defs service.defs oneMachine_def sampleServer_def
        sampleMgr_def sampleAuth_def emptyStore_def auth.defs store.defs vmRowOf_def sampleParams_def validateMemoryHotplugRange_def)
qed

theorem daemon_keeps_types_witness:
  "\<exists>t. daemon sampleServer sampleService t \<and> typedTables sampleHost t \<and> serviceInv t \<and> vmsT t = []"
proof -
  let ?t = "snd (apiServeHTTP sampleServer (bareRequest ''DELETE'' [''vms'', ''u1'']) sampleService)"
  have "daemon sampleServer sampleService ?t" by (intro daemon.intros)
  moreover from sampleService_ok this have "typedTables sampleHost ?t \<and> serviceInv ?t"
    using daemon_keeps_types [of sampleService sampleServer ?t] by (simp add: sampleServer_def)
  moreover have "vmsT ?t = []" by code_simp
  ultimately show ?thesis by blast
qed

section \<open>A reported change is published\<close>

text \<open>The loaded configuration is the one of the tables.\<close>

definition inStep :: "Config \<Rightarrow> 'z service_scheme \<Rightarrow> bool" where
  "inStep cfg t \<longleftrightarrow> (\<exists>vms aliases ps. fst (ListVMs (t\<lparr>outcomes := []\<rparr>)) = Inr vms \<and> fst (ListRoutes (t\<lparr>outcomes := []\<rparr>)) = Inr aliases \<and>
     fst (ListRouteProtections (t\<lparr>outcomes := []\<rparr>)) = Inr ps \<and> caddyData t = Some (compactJSON (caddyConfig cfg vms aliases ps)))"

text \<open>The requests that change which hosts are served or where they lead.\<close>

fun changesTables :: "apiCall \<Rightarrow> bool" where
  "changesTables CreateMachine = True"
| "changesTables (UpdateSettings u) = True"
| "changesTables (DeleteMachine u) = True"
| "changesTables (StartMachine u) = True"
| "changesTables (StopMachine u) = True"
| "changesTables (SleepMachine u) = True"
| "changesTables (RebootMachine u) = True"
| "changesTables CreateRouteCall = True"
| "changesTables (DeleteRouteCall n) = True"
| "changesTables ProtectCall = True"
| "changesTables (UnprotectCall n) = True"
| "changesTables (RestoreCall n) = True"
| "changesTables _ = False"

lemma joinRoute_frame [simp]: "joinRoute (s\<lparr>outcomes := a\<rparr>) = joinRoute s" "joinRoute (t\<lparr>caddyData := c\<rparr>) = joinRoute t"
  by (simp_all add: joinRoute_def fun_eq_iff)

lemma Reconcile_inStep: "wp (Caddy.Reconcile cfg) (\<lambda>_. inStep cfg) (\<lambda>_ _. True) s"
  unfolding Caddy.Reconcile_def ListVMs_def ListVMsMatching_def ListRoutes_def ListRouteProtections_def Let_def wp_bind
  by (auto intro!: wp_query_frame wp_call_frame simp: wp_modify inStep_def ListVMs_def ListVMsMatching_def ListRoutes_def
      ListRouteProtections_def query_fault_free)

text \<open>What is shown of a response: if it reports success, the proxy is in step.\<close>

definition saysDone :: "apiServer \<Rightarrow> apiResponse \<Rightarrow> 'z service_scheme \<Rightarrow> bool" where
  "saysDone srv resp t \<longleftrightarrow> (rsStatus resp < 300 \<longrightarrow> inStep (srvCfg srv) t)"

lemma wp_orError: "wp (orError st m k) Q E s = wp m (\<lambda>x. wp (k x) Q E) (\<lambda>e. Q \<lparr>rsStatus = st e, rsBody = BError (errText e)\<rparr>) s"
  by (simp add: orError_def writeError_def writeJSON_def wp_def bind_def attempt_def ret_def split: prod.split sum.split)

lemma saysDone_orError:
  fixes s :: "'z service_scheme"
  assumes "\<And>e. 300 \<le> st e" "\<And>x u. wp (k x) (saysDone srv) (\<lambda>_ _. False) u"
  shows "wp (orError st m k) (saysDone srv) (\<lambda>_ _. False) s"
proof -
  have "saysDone srv \<lparr>rsStatus = st e, rsBody = b\<rparr> t" for e b and t :: "'z service_scheme" using assms(1) [of e] by (simp add: saysDone_def)
  then show ?thesis unfolding wp_orError using assms(2) by (simp add: wp_def [of m] split: prod.split sum.split)
qed

lemma saysDone_errors:
  "wp (badRequest m) (saysDone srv) (\<lambda>_ _. False) s" "wp badSnapshotName (saysDone srv) (\<lambda>_ _. False) s"
  "300 \<le> st \<Longrightarrow> wp (writeError st e) (saysDone srv) (\<lambda>_ _. False) s"
  by (simp_all add: badSnapshotName_def badRequest_def writeError_def writeJSON_def wp_ret saysDone_def)

lemma saysDone_reconciled: "srvProxy srv \<Longrightarrow> wp (reconciled srv st b) (saysDone srv) (\<lambda>_ _. False) s"
  unfolding reconciled_def orError_def reconcileProxy_def writeError_def writeJSON_def wp_bind wp_attempt
  by (simp, rule wp_mono [OF Reconcile_inStep]) (simp_all add: wp_ret saysDone_def)

lemma saysDone_if: "wp a Q E s \<Longrightarrow> wp b Q E s \<Longrightarrow> wp (if c then a else b) Q E s"
  by simp

lemma statuses: "300 \<le> statusOf cs e" "300 \<le> (400 :: nat)" "300 \<le> (409 :: nat)" "300 \<le> (500 :: nat)"
  "300 \<le> (if c then 404 else 400 :: nat)"
  by (simp_all add: statusOf_def)

text \<open>
  C39: When the daemon has a proxy and a request that creates, changes, starts, stops or deletes a machine
  or changes routes or protections is answered with success, the proxy has been given the new state: the configuration that Caddy has loaded is the one for the
  machines, routes and protected names in the tables at that moment.  (An answer of 500 may be given
  although the tables were changed.)
\<close>

theorem reported_change_is_published:
  assumes "srvProxy srv" and "apiRoutes (arMethod req) (arPath req) = Some c" and "changesTables c"
    and "apiServeHTTP srv req s = (r, t)"
  shows "\<exists>resp. r = Inr resp \<and> (rsStatus resp < 300 \<longrightarrow> inStep (srvCfg srv) t)"
proof -
  have "wp (apiHandle srv req c) (saysDone srv) (\<lambda>_ _. False) s"
    using assms(3) unfolding apiHandle_def
    by (cases c; simp only: apiCall.case changesTables.simps;
        unfold handleCreateVM_def handleStartVM_def handleUpdateVMSettings_def handleDeleteVM_def handleStopVM_def handleSleepVM_def
          handleRebootVM_def handleCreateRoute_def handleDeleteRoute_def handleProtectRoute_def handleUnprotectRoute_def handleRestoreSnapshot_def;
        intro saysDone_orError saysDone_if saysDone_errors saysDone_reconciled assms(1) statuses)
  then show ?thesis using assms(2,4) by (auto simp: apiServeHTTP_def wp_def saysDone_def split: sum.splits)
qed

lemma Reconcile_ff: "fault_free s \<Longrightarrow> \<exists>t. Caddy.Reconcile cfg s = (Inr (), t)"
  by (simp add: Caddy.Reconcile_def ListVMs_def ListVMsMatching_def ListRoutes_def ListRouteProtections_def query_def bind_def gets_def
      modify_def Let_def)

lemma reported_change_is_published_witness:
  "\<exists>resp t. apiServeHTTP (sampleServer\<lparr>srvProxy := True\<rparr>) (bareRequest ''POST'' [''vms'', ''u1'', ''stop'']) sampleService = (Inr resp, t) \<and>
     rsStatus resp = 200 \<and> inStep Default t"
proof -
  let ?srv = "sampleServer\<lparr>srvProxy := True\<rparr>" and ?req = "bareRequest ''POST'' [''vms'', ''u1'', ''stop'']"
  have route: "apiRoutes (arMethod ?req) (arPath ?req) = Some (StopMachine ''u1'')"
    by (simp add: bareRequest_def apiRoutes_def postCall_def)
  obtain u where u: "StopVM ''u1'' sampleService = (Inr (), u)" "fault_free u"
  proof -
    have "fst (StopVM ''u1'' sampleService) = Inr ()" "outcomes (snd (StopVM ''u1'' sampleService)) = []" by code_simp+
    then show thesis using that [of "snd (StopVM ''u1'' sampleService)"] by (simp add: prod_eq_iff)
  qed
  obtain t where "Caddy.Reconcile (srvCfg ?srv) u = (Inr (), t)" using Reconcile_ff [OF u(2)] by blast
  then have run: "apiServeHTTP ?srv ?req sampleService = (Inr \<lparr>rsStatus = 200, rsBody = okStatus [(''status'', ''stopped'')]\<rparr>, t)"
    using u(1) by (simp add: apiServeHTTP_def route apiHandle_def handleStopVM_def orError_def reconciled_def reconcileProxy_def bind_def
        attempt_def writeJSON_def ret_def)
  have "srvCfg ?srv = Default" by (simp add: sampleServer_def sampleHost_def)
  then show ?thesis using reported_change_is_published [OF _ route _ run] run by simp
qed

section \<open>Reports of guests\<close>

text \<open>
  C40: A guest can report memory for itself only: whatever it sends and whichever calls fail, the tables
  stay as they are, and a report changes for no machine but the one whose private address is the
  address the request came from.
\<close>

theorem memory_hint_is_own:
  fixes s :: "'z mgr_scheme"
  assumes "handleMemoryHint addr body s = (r, t)"
  shows "vmsT t = vmsT s \<and> routesT t = routesT s \<and> snapshotsT t = snapshotsT s \<and> protectionsT t = protectionsT s \<and>
    (map_of (guestMemoryReports t) u = map_of (guestMemoryReports s) u \<or>
      (\<exists>ip port row. SplitHostPort addr = Some (ip, port) \<and> row \<in> set (vmsT s) \<and> cUuid row = u \<and> cPrivateIP row = Some (trimBrackets ip)))"
proof -
  define P where "P = (\<lambda>ip (t :: 'z mgr_scheme). vmsT t = vmsT s \<and> routesT t = routesT s \<and> snapshotsT t = snapshotsT s \<and> protectionsT t = protectionsT s \<and>
    (map_of (guestMemoryReports t) u = map_of (guestMemoryReports s) u \<or> (\<exists>row \<in> set (vmsT s). cUuid row = u \<and> cPrivateIP row = Some ip)))"
  have plug: "keeps (P ip) (setVMMemoryTarget vm n)" for ip vm n
    unfolding setVMMemoryTarget_def virtioMemUsableForVM_def virtioMemSupportedForRange_def hostPhysicalAddressBits_def
      firecrackerPatchMemoryHotplug_def firecrackerGetMemoryHotplug_def Let_def
    by (intro keeps_rules keeps_modify; simp add: outcome_blind_def files_blind_def P_def)
  have other: "map_of (filter (\<lambda>e. fst e \<noteq> v) es) u = map_of es u" if "u \<noteq> v" for v and es :: "(string \<times> GuestMemoryReport) list"
    using that by (induction es) auto
  have "wp (RecordVMMemoryReportByPrivateIP ip target report) (\<lambda>_. P ip) (\<lambda>_. P ip) s" for ip target report
    unfolding RecordVMMemoryReportByPrivateIP_def GetVMByPrivateIP_def Let_def wp_bind
  proof (rule wp_query_frame)
    fix rs
    show "wp (case find (\<lambda>r. cPrivateIP r = Some ip) (vmsT (s\<lparr>outcomes := rs\<rparr>)) of None \<Rightarrow> throw (Sentinel ErrNotFound) | Some r \<Rightarrow> ret (scanVM r))
        (\<lambda>vm. wp (gets clock) (\<lambda>now. wp (modify (\<lambda>s. s\<lparr>guestMemoryReports := (vmUUID vm, report\<lparr>grReportedAt := formatRFC3339 now,
            grLastTargetMiB := (case target of None \<Rightarrow> grLastTargetMiB report | Some t \<Rightarrow> t)\<rparr>) # filter (\<lambda>e. fst e \<noteq> vmUUID vm) (guestMemoryReports s)\<rparr>))
          (\<lambda>_. wp (case target of None \<Rightarrow> ret \<lparr>muTotalMiB = 0, muRequestedMiB = 0, muPluggedMiB = 0, muEffectiveMiB = 0\<rparr>
             | Some t \<Rightarrow> setVMMemoryTarget vm t) (\<lambda>_. P ip) (\<lambda>_. P ip)) (\<lambda>_. P ip)) (\<lambda>_. P ip)) (\<lambda>_. P ip) (s\<lparr>outcomes := rs\<rparr>)"
    proof (cases "find (\<lambda>r. cPrivateIP r = Some ip) (vmsT s)")
      case (Some row)
      then have "row \<in> set (vmsT s)" "cPrivateIP row = Some ip" using find_SomeD [OF Some] by simp_all
      then have "P ip (s\<lparr>outcomes := rs, guestMemoryReports := (cUuid row, x) # filter (\<lambda>e. fst e \<noteq> cUuid row) (guestMemoryReports s)\<rparr>)" for x
        using other by (auto simp: P_def)
      then show ?thesis using Some by (auto simp: wp_rules scanVM_uuid intro!: keeps_wp [OF plug] split: option.split)
    qed (simp add: wp_rules P_def)
  qed (simp add: P_def)
  then have "wp (RecordVMMemoryReportByPrivateIP ip target report) (\<lambda>x. wp (ret (f x)) (\<lambda>_ t. P ip t \<or> t = s) (\<lambda>_ _. False))
      (\<lambda>_ t. P ip t \<or> t = s) s" for ip target report and f :: "MemoryHotplugUsage \<Rightarrow> apiResponse"
    by (rule wp_mono) (simp_all add: wp_ret)
  then have "wp (handleMemoryHint addr body) (\<lambda>_ t. (\<exists>ip port. SplitHostPort addr = Some (ip, port) \<and> P (trimBrackets ip) t) \<or> t = s)
      (\<lambda>_ _. False) s"
    by (auto simp: handleMemoryHint_def wp_orError wp_fromSum badRequest_def writeError_def writeJSON_def wp_ret split: sum.split option.split)
  then have "(\<exists>ip port. SplitHostPort addr = Some (ip, port) \<and> P (trimBrackets ip) t) \<or> t = s"
    using assms by (auto simp: wp_def split: sum.splits)
  then show ?thesis unfolding P_def by blast
qed

lemma memory_hint_is_own_witness:
  "map_of (guestMemoryReports (snd (handleMemoryHint ''[fd00::1]:5'' ''{}'' oneMachine))) ''u2'' = None \<and>
   map_of (guestMemoryReports (snd (handleMemoryHint ''[fd00::1]:5'' ''{}'' oneMachine))) ''u1'' \<noteq> None"
proof
  let ?t = "snd (handleMemoryHint ''[fd00::1]:5'' ''{}'' oneMachine)"
  have "\<forall>row \<in> set (vmsT oneMachine). cUuid row = ''u1''" "guestMemoryReports oneMachine = []"
    by code_simp+
  then show "map_of (guestMemoryReports ?t) ''u2'' = None"
    using memory_hint_is_own [of "''[fd00::1]:5''" "''{}''" oneMachine "fst (handleMemoryHint ''[fd00::1]:5'' ''{}'' oneMachine)" ?t "''u2''"] by auto
  show "map_of (guestMemoryReports ?t) ''u1'' \<noteq> None" by code_simp
qed

end
