(* ===== verification/Spec2Isabelle.thy ===== *)
theory Spec2Isabelle
  imports Proxy_Results Resource_Usage Firewall Dns Snapshot_Results Api_Results
begin

text \<open>
  \<^bold>\<open>firedoze: a verification development.\<close>  firedoze runs small virtual machines on one host and puts
  them to sleep while nobody uses them.  The daemon \<open>firedozed\<close> keeps the metadata of its machines in
  SQLite (\<open>internal/store\<close>), starts and stops one Firecracker process per machine
  (\<open>internal/firecracker\<close>), publishes machines under host names through an embedded Caddy server and a
  wake proxy (\<open>internal/proxy\<close>), gates that traffic with signed cookies and a captcha
  (\<open>internal/routeauth\<close>, \<open>wake_gate.go\<close>), answers names (\<open>internal/dns\<close>), sets up WireGuard and the
  packet filter (\<open>internal/host\<close>, \<open>internal/wireguard\<close>) and is managed over HTTP (\<open>internal/api\<close>).

  \<^bold>\<open>How programs are modelled.\<close>  A Go function with effects is a value of \<open>('s, 'a) prog\<close>, a function
  from a state to an error or a result and a new state (\<open>Prelude\<close>).  The state is a record that grows
  from layer to layer: \<open>env\<close> (what is outside: the outcomes of calls to come, the clocks), \<open>fsys\<close> (the
  files), \<open>store\<close> (the tables), \<open>auth\<close> (the signing key), \<open>mgr\<close> (processes, guards, guests), \<open>service\<close>
  (the loaded Caddy configuration).  Every call that may fail on the host takes its outcome from the
  list \<open>outcomes\<close>; a theorem without \<open>fault_free\<close> therefore holds for every pattern of failures.
  Errors are trees with \<open>errors.Is\<close> as \<open>errIs\<close>; every \<open>return err\<close> of the source is a branch.  Proofs use
  the weakest precondition \<open>wp\<close> and the closure rules of \<open>keeps\<close> (an invariant) and \<open>answers\<close> (no error).

  \<^bold>\<open>Library layer.\<close>  \<open>GoLib\<close>, \<open>Net_IP\<close>, \<open>Times\<close>, \<open>Json\<close>, \<open>Json_Parse\<close>, \<open>Base64\<close>, \<open>Sha256\<close> model what the
  code uses of Go's standard library; \<open>Files\<close> and \<open>Paths\<close> are the file system and the geometry of paths.

  \<^bold>\<open>Components.\<close>
  \<^item> \<open>Types\<close>, \<open>Store\<close>: \<open>internal/model\<close> and \<open>internal/store\<close>.  The schema's keys and foreign keys are an
    invariant that every method keeps; reading inverts writing; globs become LIKE patterns correctly.
  \<^item> \<open>Routeauth\<close>: tokens are accepted exactly for their host and until their expiry; the signing key
    survives a restart.
  \<^item> \<open>Config\<close>, \<open>Memory\<close>, \<open>Addresses\<close>, \<open>Sparse\<close>: validated configuration, memory ranges, allocation of
    addresses (the fuel of \<open>searchIP\<close> is the number of stored machines plus one, and it is proved that the
    search never runs out of it), exact copies of disk images (\<open>copyExtents\<close>: fuel by file length).
  \<^item> \<open>Vmm\<close>, \<open>ColdStorage\<close>, \<open>Lifecycle\<close>: \<open>manager.go\<close> and \<open>cold_storage.go\<close>, from the guard of an operation
    to the requests to Firecracker.  \<open>Requests\<close> has the sequences of requests as an inductive relation
    with its invariant; \<open>Lifecycle_Results\<close> and \<open>SleepWake\<close> say what success means and that sleep and
    wake restore the guest; \<open>ColdStorage\<close> that no disk is lost while the state directory and the cold
    directory are apart.
  \<^item> \<open>Snapshot_Bundle\<close>, \<open>Snapshot_Results\<close>: \<open>snapshot_bundle.go\<close>; the round trip of export and import
    through the JSON of the manifest, and that no archive makes an import change a path that existed or
    create one outside the directory of the snapshot, its temporary sibling and their parents.
  \<^item> \<open>Caddy\<close>, \<open>Idle\<close>, \<open>Proxy\<close>, \<open>Proxy_Results\<close>: the proxies and the idle monitor; who is let through, what
    is woken, what is put to sleep.
  \<^item> \<open>Cgroup\<close>, \<open>Resource_Usage\<close>, \<open>Wireguard\<close>, \<open>Device\<close>, \<open>Firewall\<close>, \<open>Dns\<close>: accounting, peers, the WireGuard
    device, packet filter and name server of the host (\<open>searchPeer\<close>: the fuel is the number of used
    addresses plus one, which is proved to be enough).
  \<^item> \<open>Api\<close>: every handler of \<open>internal/api\<close>, with request bodies, checks, status codes and routes.
    \<open>Api_Results\<close> has the runs of the whole daemon (requests to the API, reports of guests, the wake proxies,
    the monitors, ends of processes) as the inductive relation \<open>daemon\<close> with its invariant, the names and
    sizes in the tables included; and that a change reported as done has been handed to Caddy.

  \<^bold>\<open>Interfaces.\<close>  \<open>reconciler\<close> (what the idle monitor needs of the proxy's manager) is interpreted on
  \<open>Caddy.Reconcile\<close>, \<open>vm_starter\<close> (what the proxy needs of the manager) on \<open>StartVM\<close>, \<open>keyed_table\<close> (what
  reading and deleting promise of a table) on machines, snapshots and routes, \<open>separated_codec\<close> (an
  encoding that avoids the separator of tokens) on base64, \<open>api_contract\<close> (what the handlers, proxies and
  monitors need of an invariant) on the invariants of tables, processes, guards and names.

  \<^bold>\<open>Parameters.\<close>  Firecracker, debugfs, resize2fs and ssh-keygen (\<open>record host\<close>), the UUID parser, the
  TOML decoder, the key functions of wgtypes, netlink, iptables, the captcha library, upstream name
  servers.  Their assumptions are hypotheses of the theorems that need them, each with a witness.

  \<^bold>\<open>Not modelled.\<close>  Listeners and accept loops, copying of bytes between connections, logging, file
  modes and \<open>fsync\<close>; the text of HTML pages beyond its quoting; division into floating-point numbers;
  SQLite itself and the migration tool; concurrency below the granularity of one operation (guards
  are modelled as data, and an operation that waits for a cold archive sees it cancelled).  The command
  line client and the image builder are mostly flag parsing and subprocesses and are left out.
\<close>

end
